theory Spec2Isabelle
  imports Complex_Main
begin

section \<open>Common vocabulary\<close>

text \<open>
  A failed \<^verbatim>\<open>CHECK\<close>/\<^verbatim>\<open>GCHECK\<close> aborts the process; an integer division by zero
  is undefined behaviour in C++ (a trap on the usual targets), as is reading a vector out
  of bounds; a libtorch operator called
  with arguments it rejects throws \<^verbatim>\<open>c10::Error\<close>; an exception nobody catches ends the
  process. All of these are outcomes of the model: a function that can end this way returns
  \<open>fatal + 'a\<close>, with \<open>Inl\<close> for the abort.
\<close>

datatype fatal =
    CheckFailed | DivisionByZero | SignedOverflow | CastOutOfRange | OutOfBounds
  | TorchError | UncaughtException

text \<open>\<^verbatim>\<open>torch::Device\<close>: the engine only asks \<^verbatim>\<open>is_cpu()\<close> and \<^verbatim>\<open>is_cuda()\<close>.\<close>

datatype device = CPU | CUDA nat | OtherDevice

fun is_cpu :: "device \<Rightarrow> bool" where
  "is_cpu CPU = True"
| "is_cpu _ = False"

fun is_cuda :: "device \<Rightarrow> bool" where
  "is_cuda (CUDA _) = True"
| "is_cuda _ = False"

text \<open>
  \<^verbatim>\<open>torch::ScalarType\<close>, restricted to the values \<^verbatim>\<open>parse_dtype\<close> can return.
  \<^verbatim>\<open>torch::kFloat16\<close> is another name of \<^verbatim>\<open>torch::kHalf\<close>.
\<close>

datatype scalar_type = kFloat32 | kHalf | kBFloat16

abbreviation kFloat16 :: scalar_type where
  "kFloat16 \<equiv> kHalf"

text \<open>\<^verbatim>\<open>scalarTypeToTypeMeta(dtype).itemsize()\<close>: the size of one element in bytes.\<close>

fun itemsize :: "scalar_type \<Rightarrow> int" where
  "itemsize kFloat32 = 4"
| "itemsize kHalf = 2"
| "itemsize kBFloat16 = 2"

text \<open>
  C++ integer division truncates towards zero, whereas \<open>div\<close> on \<open>int\<close> rounds down.
\<close>

definition tdiv :: "int \<Rightarrow> int \<Rightarrow> int" where
  "tdiv a b = sgn a * sgn b * (\<bar>a\<bar> div \<bar>b\<bar>)"

text \<open>Sequencing of steps that can abort: the first abort ends the computation.\<close>

definition and_then :: "fatal + 'a \<Rightarrow> ('a \<Rightarrow> fatal + 'b) \<Rightarrow> fatal + 'b" where
  "and_then r f = (case r of Inl e \<Rightarrow> Inl e | Inr v \<Rightarrow> f v)"

section \<open>\<^verbatim>\<open>engine/engine.cpp\<close>: the dtype of the configuration\<close>

text \<open>
  \<^verbatim>\<open>boost::iequals\<close> walks both strings in step, compares the characters after
  \<^verbatim>\<open>std::toupper\<close> (classic locale: only \<open>a\<close>..\<open>z\<close> change) and requires both to
  end together.
\<close>

definition to_upper :: "char \<Rightarrow> char" where
  "to_upper c =
     (let n = (of_char c :: nat)
      in if 97 \<le> n \<and> n \<le> 122 then char_of (n - 32) else c)"

fun iequals :: "string \<Rightarrow> string \<Rightarrow> bool" where
  "iequals [] [] = True"
| "iequals (a # as) (b # bs) = (to_upper a = to_upper b \<and> iequals as bs)"
| "iequals _ _ = False"

definition parse_dtype :: "string \<Rightarrow> device \<Rightarrow> fatal + scalar_type" where
  "parse_dtype dtype_str dev =
     (if is_cpu dev then Inr kFloat32
      else if iequals dtype_str ''half'' \<or> iequals dtype_str ''float16'' then Inr kHalf
      else if iequals dtype_str ''bfloat16'' then Inr kBFloat16
      else if iequals dtype_str ''float'' \<or> iequals dtype_str ''float32'' then Inr kFloat32
      else if dtype_str = [] \<or> iequals dtype_str ''auto'' then Inr kFloat16
      else Inl CheckFailed)"

text \<open>
  The specification's reading of "case-insensitive": the input, folded to upper case,
  is the folded name.
\<close>

definition same_ignoring_case :: "string \<Rightarrow> string \<Rightarrow> bool" where
  "same_ignoring_case s t = (map to_upper s = map to_upper t)"

definition dtype_table :: "(string \<times> scalar_type) list" where
  "dtype_table =
     [(''HALF'', kHalf), (''FLOAT16'', kHalf), (''BFLOAT16'', kBFloat16),
      (''FLOAT'', kFloat32), (''FLOAT32'', kFloat32), ('''', kHalf), (''AUTO'', kHalf)]"

definition dtype_of_table :: "string \<Rightarrow> device \<Rightarrow> fatal + scalar_type" where
  "dtype_of_table s dev =
     (if dev = CPU then Inr kFloat32
      else case map_of dtype_table (map to_upper s) of
             Some t \<Rightarrow> Inr t
           | None \<Rightarrow> Inl CheckFailed)"

section \<open>Machine arithmetic\<close>

text \<open>
  \<^verbatim>\<open>int64_t\<close>: the integers from \<open>-2^63\<close> up to \<open>2^63 - 1\<close>. Signed arithmetic whose
  result leaves the range is undefined behaviour in C++, as is a division by zero; the
  model aborts there. Arithmetic on \<^verbatim>\<open>size_t\<close> is modulo \<open>2^64\<close>, and so are the
  conversions between the two types.
\<close>

definition int64 :: "int \<Rightarrow> bool" where
  "int64 x = (- (2 ^ 63) \<le> x \<and> x < 2 ^ 63)"

definition int64_mul :: "int \<Rightarrow> int \<Rightarrow> fatal + int" where
  "int64_mul a b = (if int64 (a * b) then Inr (a * b) else Inl SignedOverflow)"

definition int64_sub :: "int \<Rightarrow> int \<Rightarrow> fatal + int" where
  "int64_sub a b = (if int64 (a - b) then Inr (a - b) else Inl SignedOverflow)"

definition int64_div :: "int \<Rightarrow> int \<Rightarrow> fatal + int" where
  "int64_div a b =
     (if b = 0 then Inl DivisionByZero
      else if int64 (tdiv a b) then Inr (tdiv a b)
      else Inl SignedOverflow)"

definition to_uint64 :: "int \<Rightarrow> int" where
  "to_uint64 x = x mod 2 ^ 64"

definition to_int64 :: "int \<Rightarrow> int" where
  "to_int64 u = (if u mod 2 ^ 64 < 2 ^ 63 then u mod 2 ^ 64 else u mod 2 ^ 64 - 2 ^ 64)"

text \<open>
  \<^verbatim>\<open>double\<close>: IEEE 754 binary64 with the default rounding, to nearest with ties to
  even. A finite double is the rational it denotes. \<open>exponent x\<close> is the integer \<open>e\<close>
  with \<open>2^e \<le> |x| < 2^(e+1)\<close>; the doubles around \<open>x\<close> are the multiples of
  \<open>2^(e - 52)\<close>, or of \<open>2^(-1074)\<close> in the subnormal range, and \<open>round_double x\<close> is
  the nearest of them. A result beyond the largest double is an infinity in the code;
  the model keeps the finite value, and both are out of range for the conversion to
  \<^verbatim>\<open>int64_t\<close>, the only use made of them.
\<close>

text \<open>The number of binary digits of a positive integer.\<close>

function bit_length :: "int \<Rightarrow> int" where
  "bit_length n = (if n \<le> 0 then 0 else 1 + bit_length (n div 2))"
  by pat_completeness auto
termination
  by (relation "measure nat") auto

declare bit_length.simps [simp del]

definition exponent :: "rat \<Rightarrow> int" where
  "exponent x =
     (let (p, q) = quotient_of \<bar>x\<bar>;
          d = bit_length p - bit_length q
      in if 2 powi d \<le> \<bar>x\<bar> then d else d - 1)"

definition round_half_even :: "rat \<Rightarrow> int" where
  "round_half_even q =
     (let f = \<lfloor>q\<rfloor>; d = q - of_int f
      in if d < 1 / 2 then f
         else if 1 / 2 < d then f + 1
         else if even f then f else f + 1)"

definition round_double :: "rat \<Rightarrow> rat" where
  "round_double x =
     (if x = 0 then 0
      else
        let ulp = 2 powi (max (exponent x) (- 1022) - 52)
        in of_int (round_half_even (x / ulp)) * ulp)"

text \<open>
  \<^verbatim>\<open>static_cast<double>\<close> of an \<^verbatim>\<open>int64_t\<close>, the product of two doubles, and
  \<^verbatim>\<open>static_cast<int64_t>\<close> of a double, which drops the fraction and is undefined when
  the result is out of range.
\<close>

definition int64_to_double :: "int \<Rightarrow> rat" where
  "int64_to_double i = round_double (of_int i)"

definition double_mul :: "rat \<Rightarrow> rat \<Rightarrow> rat" where
  "double_mul a b = round_double (a * b)"

definition double_to_int64 :: "rat \<Rightarrow> fatal + int" where
  "double_to_int64 x =
     (let t = (if 0 \<le> x then \<lfloor>x\<rfloor> else \<lceil>x\<rceil>)
      in if int64 t then Inr t else Inl CastOutOfRange)"

section \<open>Tensors\<close>

text \<open>
  A tensor is its shape and its elements in logical (row-major) order, which is all that
  \<^verbatim>\<open>view\<close>, \<^verbatim>\<open>permute\<close>, \<^verbatim>\<open>reshape\<close>, \<^verbatim>\<open>cat\<close> and \<^verbatim>\<open>copy_\<close> observe. An undefined
  \<^verbatim>\<open>torch::Tensor\<close> is \<open>None\<close>.
\<close>

record 'a tensor =
  sizes :: "nat list"
  elems :: "'a list"

definition numel :: "'a tensor \<Rightarrow> nat" where
  "numel t = prod_list (sizes t)"

definition well_formed :: "'a tensor \<Rightarrow> bool" where
  "well_formed t = (length (elems t) = numel t)"

text \<open>
  libtorch's \<^verbatim>\<open>infer_size\<close>: at most one entry of the requested shape may be \<open>-1\<close>, no
  entry may be below \<open>-1\<close>; without a \<open>-1\<close> the product must be the number of elements,
  with one the product of the others must be positive and divide it.
\<close>

definition infer_size :: "int list \<Rightarrow> nat \<Rightarrow> fatal + nat list" where
  "infer_size shape n =
     (if list_ex (\<lambda>d. d < - 1) shape \<or> 1 < length (filter (\<lambda>d. d = - 1) shape)
      then Inl TorchError
      else
        let newsize = prod_list (map nat (filter (\<lambda>d. d \<noteq> - 1) shape))
        in if \<not> list_ex (\<lambda>d. d = - 1) shape
           then (if n = newsize then Inr (map nat shape) else Inl TorchError)
           else if 0 < newsize \<and> n mod newsize = 0
           then Inr (map (\<lambda>d. if d = - 1 then n div newsize else nat d) shape)
           else Inl TorchError)"

definition view :: "int list \<Rightarrow> 'a tensor \<Rightarrow> fatal + 'a tensor" where
  "view shape t =
     (case infer_size shape (numel t) of
        Inl e \<Rightarrow> Inl e
      | Inr s \<Rightarrow> Inr (t\<lparr>sizes := s\<rparr>))"

definition reshape :: "int list \<Rightarrow> 'a tensor \<Rightarrow> fatal + 'a tensor" where
  "reshape shape t = view shape t"

text \<open>A flat index as a multi-index of a shape, and back.\<close>

fun unravel :: "nat list \<Rightarrow> nat \<Rightarrow> nat list" where
  "unravel [] i = []"
| "unravel (s # ss) i = (i div prod_list ss) # unravel ss (i mod prod_list ss)"

fun ravel :: "nat list \<Rightarrow> nat list \<Rightarrow> nat" where
  "ravel (s # ss) (i # is) = i * prod_list ss + ravel ss is"
| "ravel _ _ = 0"

fun index_of :: "'a \<Rightarrow> 'a list \<Rightarrow> nat" where
  "index_of x [] = 0"
| "index_of x (y # ys) = (if x = y then 0 else Suc (index_of x ys))"

text \<open>
  \<^verbatim>\<open>tensor.permute(dims)\<close>: dimension \<open>p\<close> of the result is dimension \<open>dims[p]\<close> of the
  argument, so the element at multi-index \<open>m\<close> of the result is the argument's element
  whose index in dimension \<open>dims[p]\<close> is \<open>m[p]\<close>.
\<close>

definition permute_source :: "nat list \<Rightarrow> nat list \<Rightarrow> nat \<Rightarrow> nat" where
  "permute_source dims old_sizes j =
     (let m = unravel (map (\<lambda>d. old_sizes ! d) dims) j
      in ravel old_sizes (map (\<lambda>q. m ! index_of q dims) [0..<length old_sizes]))"

definition permute :: "nat list \<Rightarrow> 'a tensor \<Rightarrow> fatal + 'a tensor" where
  "permute dims t =
     (let n = length (sizes t)
      in if length dims = n \<and> distinct dims \<and> list_all (\<lambda>d. d < n) dims
         then
           let new_sizes = map (\<lambda>d. sizes t ! d) dims
           in Inr \<lparr>sizes = new_sizes,
                   elems = map (\<lambda>j. elems t ! permute_source dims (sizes t) j)
                             [0..<prod_list new_sizes]\<rparr>
         else Inl TorchError)"

text \<open>
  \<^verbatim>\<open>torch::cat(tensors, /*dim=*/0)\<close>: the list must not be empty and the tensors must
  agree in every dimension but the first.
\<close>

definition cat0 :: "'a tensor list \<Rightarrow> fatal + 'a tensor" where
  "cat0 ts =
     (case ts of
        [] \<Rightarrow> Inl TorchError
      | t # _ \<Rightarrow>
          if list_all (\<lambda>u. sizes u \<noteq> [] \<and> tl (sizes u) = tl (sizes t)) ts
          then Inr \<lparr>sizes = sum_list (map (\<lambda>u. hd (sizes u)) ts) # tl (sizes t),
                   elems = concat (map elems ts)\<rparr>
          else Inl TorchError)"

section \<open>\<^verbatim>\<open>models/huggingface/mpt.h\<close>: the fused QKV reshapes of MPTAttentionImpl\<close>

text \<open>The members \<^verbatim>\<open>hidden_size_\<close> and \<^verbatim>\<open>head_dim_\<close> of the attention module.\<close>

record MPTAttention =
  self_hidden_size :: int
  self_head_dim :: int

text \<open>The source's comment: \<^verbatim>\<open>reshape qkv tensor from [3, n_heads, ...] => [n_heads, 3, ...]\<close>.\<close>

definition reshape_qkv_before_sharding :: "MPTAttention \<Rightarrow> 'a tensor \<Rightarrow> fatal + 'a tensor" where
  "reshape_qkv_before_sharding self t =
     (if \<not> (length (sizes t) = 2 \<or> length (sizes t) = 1) then Inl CheckFailed
      else if length (sizes t) = 2
      then and_then (view [3, - 1, self_head_dim self, self_hidden_size self] t) (\<lambda>v.
           and_then (permute [1, 0, 2, 3] v) (\<lambda>p.
           reshape [- 1, self_hidden_size self] p))
      else and_then (view [3, - 1, self_head_dim self] t) (\<lambda>v.
           and_then (permute [1, 0, 2] v) (\<lambda>p.
           reshape [- 1] p)))"

text \<open>The source's comment: \<^verbatim>\<open>reshape local qkv tensor from [n_heads, 3, ...] => [3, n_heads, ...]\<close>.\<close>

definition reshape_qkv_after_sharding :: "MPTAttention \<Rightarrow> 'a tensor \<Rightarrow> fatal + 'a tensor" where
  "reshape_qkv_after_sharding self t =
     (if \<not> (length (sizes t) = 2 \<or> length (sizes t) = 1) then Inl CheckFailed
      else if length (sizes t) = 2
      then and_then (view [- 1, 3, self_head_dim self, self_hidden_size self] t) (\<lambda>v.
           and_then (permute [1, 0, 2, 3] v) (\<lambda>p.
           reshape [- 1, self_hidden_size self] p))
      else and_then (view [- 1, 3, self_head_dim self] t) (\<lambda>v.
           and_then (permute [1, 0, 2] v) (\<lambda>p.
           reshape [- 1] p)))"

section \<open>\<^verbatim>\<open>layers/linear_impl.cpp\<close>: ColumnParallelLinearImpl, fused loading\<close>

text \<open>
  \<^verbatim>\<open>StateDict::get_sharded_tensor(name, dim, rank, world_size)\<close> is not part of the
  sources at hand; a state dict is the function it computes, with \<open>None\<close> for the
  undefined tensor it returns for a name it does not hold.
\<close>

type_synonym 'a StateDict = "string \<Rightarrow> nat \<Rightarrow> int \<Rightarrow> int \<Rightarrow> 'a tensor option"

text \<open>
  The members \<^verbatim>\<open>weight_\<close>, \<^verbatim>\<open>weight_list_\<close>, \<^verbatim>\<open>is_loaded_\<close> and the rank and world
  size of \<^verbatim>\<open>parallel_args_\<close>.
\<close>

record 'a ColumnParallelLinear =
  self_weight :: "'a tensor"
  self_weight_list :: "'a tensor option list"
  self_is_loaded :: bool
  self_rank :: int
  self_world_size :: int

text \<open>
  \<^verbatim>\<open>load_weights(weight_list, weight)\<close> takes both by reference; the model returns the
  flag with the two updated.
\<close>

definition load_weights ::
  "'a tensor option list \<Rightarrow> 'a tensor \<Rightarrow> fatal + (bool \<times> 'a tensor option list \<times> 'a tensor)" where
  "load_weights weight_list weight =
     (let all_loaded = list_all (\<lambda>t. t \<noteq> None) weight_list
      in if \<not> all_loaded then Inr (False, weight_list, weight)
         else and_then (cat0 (map the weight_list)) (\<lambda>merged_weight.
              if sizes weight \<noteq> sizes merged_weight then Inl CheckFailed
              else Inr (True, [], weight\<lparr>elems := elems merged_weight\<rparr>)))"

text \<open>The loop over the prefixes, from index \<open>i\<close> on.\<close>

fun load_prefixes ::
  "'a StateDict \<Rightarrow> int \<Rightarrow> int \<Rightarrow> nat \<Rightarrow> string list \<Rightarrow> 'a tensor option list
     \<Rightarrow> fatal + 'a tensor option list" where
  "load_prefixes sd rk ws i [] wl = Inr wl"
| "load_prefixes sd rk ws i (p # ps) wl =
     (case sd (p @ ''weight'') 0 rk ws of
        None \<Rightarrow> load_prefixes sd rk ws (Suc i) ps wl
      | Some w \<Rightarrow>
          if wl ! i \<noteq> None then Inl CheckFailed
          else load_prefixes sd rk ws (Suc i) ps (wl[i := Some w]))"

definition load_state_dict ::
  "'a StateDict \<Rightarrow> string list \<Rightarrow> 'a ColumnParallelLinear \<Rightarrow> fatal + 'a ColumnParallelLinear" where
  "load_state_dict sd prefixes self =
     (let wl = (if length (self_weight_list self) < length prefixes
                then self_weight_list self
                       @ replicate (length prefixes - length (self_weight_list self)) None
                else self_weight_list self)
      in and_then (load_prefixes sd (self_rank self) (self_world_size self) 0 prefixes wl) (\<lambda>wl'.
         and_then (load_weights wl' (self_weight self)) (\<lambda>(ok, wl'', w).
         Inr (self\<lparr>self_weight := w, self_weight_list := wl'',
                   self_is_loaded := (if ok then True else self_is_loaded self)\<rparr>))))"

text \<open>A checkpoint is a sequence of state dicts, loaded one after the other.\<close>

fun load_all ::
  "'a StateDict list \<Rightarrow> string list \<Rightarrow> 'a ColumnParallelLinear \<Rightarrow> fatal + 'a ColumnParallelLinear" where
  "load_all [] prefixes self = Inr self"
| "load_all (sd # sds) prefixes self =
     and_then (load_state_dict sd prefixes self) (load_all sds prefixes)"

text \<open>
  Whether one of the state dicts holds the weight of a prefix, and whether one of them
  holds a given tensor as that weight. The invariant of fused loading with respect to the
  state dicts seen so far: the list is no longer than the prefixes, every shard in it is
  the weight that a seen state dict holds for its prefix, and the weight of a loaded layer
  is the concatenation of such shards, one for every prefix, in the order of the prefixes.
\<close>

definition shard_seen :: "'a StateDict list \<Rightarrow> int \<Rightarrow> int \<Rightarrow> string \<Rightarrow> bool" where
  "shard_seen sds rk ws prefix = list_ex (\<lambda>sd. sd (prefix @ ''weight'') 0 rk ws \<noteq> None) sds"

definition shard_from :: "'a StateDict list \<Rightarrow> int \<Rightarrow> int \<Rightarrow> string \<Rightarrow> 'a tensor \<Rightarrow> bool" where
  "shard_from sds rk ws prefix t = list_ex (\<lambda>sd. sd (prefix @ ''weight'') 0 rk ws = Some t) sds"

definition loading_inv :: "string list \<Rightarrow> 'a StateDict list \<Rightarrow> 'a ColumnParallelLinear \<Rightarrow> bool" where
  "loading_inv prefixes seen self =
     (length (self_weight_list self) \<le> length prefixes \<and>
      (\<forall>j<length (self_weight_list self). \<forall>t. self_weight_list self ! j = Some t \<longrightarrow>
         shard_from seen (self_rank self) (self_world_size self) (prefixes ! j) t) \<and>
      (self_is_loaded self \<longrightarrow>
         (\<exists>ts. length ts = length prefixes \<and>
            (\<forall>j<length prefixes.
               shard_from seen (self_rank self) (self_world_size self) (prefixes ! j) (ts ! j)) \<and>
            cat0 ts = Inr (self_weight self))))"

section \<open>\<^verbatim>\<open>models/model_registry.cpp\<close>: ModelRegistry\<close>

text \<open>
  The four entries of a \<^verbatim>\<open>ModelMeta\<close> are \<^verbatim>\<open>std::function\<close> objects; an empty one
  (the one that compares equal to \<^verbatim>\<open>nullptr\<close>) is \<open>None\<close>.
\<close>

record ('f, 'd, 'm, 'q) ModelMeta =
  causal_lm_factory :: "'f option"
  dialog_factory :: "'d option"
  model_args_loader :: "'m option"
  quant_args_loader :: "'q option"

type_synonym ('f, 'd, 'm, 'q) ModelRegistry = "string \<rightharpoonup> ('f, 'd, 'm, 'q) ModelMeta"

definition empty_meta :: "('f, 'd, 'm, 'q) ModelMeta" where
  "empty_meta =
     \<lparr>causal_lm_factory = None, dialog_factory = None,
      model_args_loader = None, quant_args_loader = None\<rparr>"

text \<open>
  \<^verbatim>\<open>model_registry_[name]\<close>: \<^verbatim>\<open>operator[]\<close> of \<^verbatim>\<open>std::unordered_map\<close> inserts an entry of
  empty functions when the name is absent, and yields the entry.
\<close>

definition subscript ::
  "('f, 'd, 'm, 'q) ModelRegistry \<Rightarrow> string
     \<Rightarrow> ('f, 'd, 'm, 'q) ModelRegistry \<times> ('f, 'd, 'm, 'q) ModelMeta" where
  "subscript reg name =
     (case reg name of
        None \<Rightarrow> (reg(name \<mapsto> empty_meta), empty_meta)
      | Some meta \<Rightarrow> (reg, meta))"

text \<open>Each registration returns the registry and the warnings it logged.\<close>

definition register_causallm_factory ::
  "string \<Rightarrow> 'f option \<Rightarrow> ('f, 'd, 'm, 'q) ModelRegistry
     \<Rightarrow> ('f, 'd, 'm, 'q) ModelRegistry \<times> string list" where
  "register_causallm_factory name factory instance =
     (let (reg, meta) = subscript instance name
      in if causal_lm_factory meta \<noteq> None
         then (reg, [''causal lm factory for '' @ name @ ''already registered.''])
         else (reg(name \<mapsto> meta\<lparr>causal_lm_factory := factory\<rparr>), []))"

definition register_model_args_loader ::
  "string \<Rightarrow> 'm option \<Rightarrow> ('f, 'd, 'm, 'q) ModelRegistry
     \<Rightarrow> ('f, 'd, 'm, 'q) ModelRegistry \<times> string list" where
  "register_model_args_loader name loader instance =
     (let (reg, meta) = subscript instance name
      in if model_args_loader meta \<noteq> None
         then (reg, [''model args loader for '' @ name @ ''already registered.''])
         else (reg(name \<mapsto> meta\<lparr>model_args_loader := loader\<rparr>), []))"

definition register_quant_args_loader ::
  "string \<Rightarrow> 'q option \<Rightarrow> ('f, 'd, 'm, 'q) ModelRegistry
     \<Rightarrow> ('f, 'd, 'm, 'q) ModelRegistry \<times> string list" where
  "register_quant_args_loader name loader instance =
     (let (reg, meta) = subscript instance name
      in if quant_args_loader meta \<noteq> None
         then (reg, [''quant args loader for '' @ name @ ''already registered.''])
         else (reg(name \<mapsto> meta\<lparr>quant_args_loader := loader\<rparr>), []))"

definition register_dialog_factory ::
  "string \<Rightarrow> 'd option \<Rightarrow> ('f, 'd, 'm, 'q) ModelRegistry
     \<Rightarrow> ('f, 'd, 'm, 'q) ModelRegistry \<times> string list" where
  "register_dialog_factory name factory instance =
     (let (reg, meta) = subscript instance name
      in if dialog_factory meta \<noteq> None
         then (reg, [''dialog factory for '' @ name @ ''already registered.''])
         else (reg(name \<mapsto> meta\<lparr>dialog_factory := factory\<rparr>), []))"

text \<open>Each lookup returns the registry (the subscript may have inserted) and the entry.\<close>

definition get_causallm_factory ::
  "string \<Rightarrow> ('f, 'd, 'm, 'q) ModelRegistry \<Rightarrow> ('f, 'd, 'm, 'q) ModelRegistry \<times> 'f option" where
  "get_causallm_factory name instance =
     (let (reg, meta) = subscript instance name in (reg, causal_lm_factory meta))"

definition get_model_args_loader ::
  "string \<Rightarrow> ('f, 'd, 'm, 'q) ModelRegistry \<Rightarrow> ('f, 'd, 'm, 'q) ModelRegistry \<times> 'm option" where
  "get_model_args_loader name instance =
     (let (reg, meta) = subscript instance name in (reg, model_args_loader meta))"

definition get_quant_args_loader ::
  "string \<Rightarrow> ('f, 'd, 'm, 'q) ModelRegistry \<Rightarrow> ('f, 'd, 'm, 'q) ModelRegistry \<times> 'q option" where
  "get_quant_args_loader name instance =
     (let (reg, meta) = subscript instance name in (reg, quant_args_loader meta))"

definition get_dialog_factory ::
  "string \<Rightarrow> ('f, 'd, 'm, 'q) ModelRegistry \<Rightarrow> ('f, 'd, 'm, 'q) ModelRegistry \<times> 'd option" where
  "get_dialog_factory name instance =
     (let (reg, meta) = subscript instance name in (reg, dialog_factory meta))"

text \<open>
  The registry is a process-wide singleton: its history is a sequence of calls of the
  eight static functions, starting from the empty map.
\<close>

datatype ('f, 'd, 'm, 'q) registry_call =
    RegisterCausalLM string "'f option"
  | RegisterModelArgs string "'m option"
  | RegisterQuantArgs string "'q option"
  | RegisterDialog string "'d option"
  | GetCausalLM string
  | GetModelArgs string
  | GetQuantArgs string
  | GetDialog string

fun perform ::
  "('f, 'd, 'm, 'q) registry_call \<Rightarrow> ('f, 'd, 'm, 'q) ModelRegistry
     \<Rightarrow> ('f, 'd, 'm, 'q) ModelRegistry" where
  "perform (RegisterCausalLM name f) reg = fst (register_causallm_factory name f reg)"
| "perform (RegisterModelArgs name l) reg = fst (register_model_args_loader name l reg)"
| "perform (RegisterQuantArgs name l) reg = fst (register_quant_args_loader name l reg)"
| "perform (RegisterDialog name f) reg = fst (register_dialog_factory name f reg)"
| "perform (GetCausalLM name) reg = fst (get_causallm_factory name reg)"
| "perform (GetModelArgs name) reg = fst (get_model_args_loader name reg)"
| "perform (GetQuantArgs name) reg = fst (get_quant_args_loader name reg)"
| "perform (GetDialog name) reg = fst (get_dialog_factory name reg)"

fun perform_all ::
  "('f, 'd, 'm, 'q) registry_call list \<Rightarrow> ('f, 'd, 'm, 'q) ModelRegistry
     \<Rightarrow> ('f, 'd, 'm, 'q) ModelRegistry" where
  "perform_all [] reg = reg"
| "perform_all (c # cs) reg = perform_all cs (perform c reg)"

text \<open>The name a call registers an entry of each kind under, if it registers one.\<close>

fun registers_causallm :: "('f, 'd, 'm, 'q) registry_call \<Rightarrow> string option" where
  "registers_causallm (RegisterCausalLM name f) = Some name"
| "registers_causallm _ = None"

fun registers_model_args :: "('f, 'd, 'm, 'q) registry_call \<Rightarrow> string option" where
  "registers_model_args (RegisterModelArgs name l) = Some name"
| "registers_model_args _ = None"

fun registers_quant_args :: "('f, 'd, 'm, 'q) registry_call \<Rightarrow> string option" where
  "registers_quant_args (RegisterQuantArgs name l) = Some name"
| "registers_quant_args _ = None"

fun registers_dialog :: "('f, 'd, 'm, 'q) registry_call \<Rightarrow> string option" where
  "registers_dialog (RegisterDialog name f) = Some name"
| "registers_dialog _ = None"

section \<open>\<^verbatim>\<open>tokenizer/sentencepiece_tokenizer.cpp\<close>: SentencePieceTokenizer::encode\<close>

text \<open>
  The SentencePiece processor is a library: \<open>Encode text ids\<close> is the status of
  \<^verbatim>\<open>Encode(text, &ids)\<close> (\<open>True\<close> for \<^verbatim>\<open>ok()\<close>) with what it left in \<^verbatim>\<open>ids\<close>.
  Token ids are \<^verbatim>\<open>int32_t\<close>; no arithmetic is done on them.
\<close>

record SentencePieceProcessor =
  Encode :: "string \<Rightarrow> int list \<Rightarrow> bool \<times> int list"
  bos_id :: int

text \<open>The members \<^verbatim>\<open>sp_processor_\<close> and \<^verbatim>\<open>prepend_bos_\<close>.\<close>

record SentencePieceTokenizer =
  sp_processor :: SentencePieceProcessor
  prepend_bos :: bool

definition encode :: "SentencePieceTokenizer \<Rightarrow> string \<Rightarrow> int list \<Rightarrow> bool \<times> int list" where
  "encode self text ids =
     (let (ok, ids') = Encode (sp_processor self) text ids
      in if \<not> ok then (False, ids')
         else if prepend_bos self then (True, bos_id (sp_processor self) # ids')
         else (True, ids'))"

section \<open>\<^verbatim>\<open>engine/engine.cpp\<close>: Engine\<close>

text \<open>
  The command-line flags. \<^verbatim>\<open>FLAGS_block_size\<close> is an \<^verbatim>\<open>int32\<close> and
  \<^verbatim>\<open>FLAGS_max_cache_size\<close> an \<^verbatim>\<open>int64\<close>; the integers of the model arguments are
  \<^verbatim>\<open>int64_t\<close>. \<^verbatim>\<open>FLAGS_max_memory_utilization\<close> is a \<^verbatim>\<open>double\<close>: the field is the
  number written as its default or on the command line, and what the flag holds is the
  double nearest to it.
\<close>

record Flags =
  FLAGS_block_size :: int
  FLAGS_max_cache_size :: int
  FLAGS_max_memory_utilization :: rat

text \<open>The model arguments the engine reads.\<close>

record ModelArgs =
  dtype :: string
  hidden_size :: int
  n_layers :: int
  n_heads :: int
  n_kv_heads :: "int option"
  vocab_size :: int

text \<open>
  A worker is an external collaborator; the record holds its device and what each of its
  operations answers. \<open>worker_load_state_dict_throws\<close> says whether loading a state dict
  raises, \<open>worker_verify_loaded_weights_fails\<close> whether the check of
  \<^verbatim>\<open>verify_loaded_weights\<close> fails after the given state dicts.
\<close>

record ('sd, 'q, 'inp, 'out) Worker =
  worker_device :: device
  worker_init_model :: "scalar_type \<Rightarrow> ModelArgs \<Rightarrow> 'q \<Rightarrow> bool"
  worker_load_state_dict_throws :: "'sd \<Rightarrow> bool"
  worker_verify_loaded_weights_fails :: "'sd list \<Rightarrow> bool"
  worker_init_kv_cache :: "int list \<Rightarrow> int list \<Rightarrow> bool"
  worker_execute_model :: "'inp \<Rightarrow> 'out"

text \<open>
  What \<^verbatim>\<open>ModelLoader\<close> hands over: the tokenizer (a pointer that may be null; only its
  \<^verbatim>\<open>vocab_size()\<close>, a \<^verbatim>\<open>size_t\<close>, is read), the model and quantization arguments and
  the state dicts of the checkpoint.
\<close>

record ('sd, 'q) ModelLoader =
  loader_tokenizer :: "nat option"
  loader_model_args :: ModelArgs
  loader_quant_args :: 'q
  loader_state_dicts :: "'sd list"

datatype log_line = VocabSizeMismatch nat int

text \<open>
  \<^verbatim>\<open>Engine::init_model\<close>: the lines logged at WARNING level and the outcome. The
  comparison of the two vocabulary sizes is between a \<^verbatim>\<open>size_t\<close> and an \<^verbatim>\<open>int64_t\<close>,
  so the latter is converted to unsigned first. \<^verbatim>\<open>devices_[0]\<close> is the device of the
  first worker.
\<close>

definition init_model ::
  "('sd, 'q) ModelLoader \<Rightarrow> ('sd, 'q, 'inp, 'out) Worker list
     \<Rightarrow> log_line list \<times> (fatal + bool)" where
  "init_model model_loader workers =
     (case loader_tokenizer model_loader of
        None \<Rightarrow> ([], Inl CheckFailed)
      | Some tokenizer_vocab_size \<Rightarrow>
          (case workers of
             [] \<Rightarrow> ([], Inl OutOfBounds)
           | worker # _ \<Rightarrow>
               let args = loader_model_args model_loader
               in (case parse_dtype (dtype args) (worker_device worker) of
                    Inl e \<Rightarrow> ([], Inl e)
                  | Inr dt \<Rightarrow>
                      let warnings =
                            (if int tokenizer_vocab_size \<noteq> vocab_size args mod 2 ^ 64
                             then [VocabSizeMismatch tokenizer_vocab_size (vocab_size args)]
                             else []);
                          quant_args = loader_quant_args model_loader;
                          state_dicts = loader_state_dicts model_loader
                      in (warnings,
                          if length workers = 1
                          then
                            if \<not> worker_init_model worker dt args quant_args then Inr False
                            else if list_ex (worker_load_state_dict_throws worker) state_dicts
                            then Inl UncaughtException
                            else if worker_verify_loaded_weights_fails worker state_dicts
                            then Inl CheckFailed
                            else Inr True
                          else
                            if list_ex (\<lambda>w. \<not> worker_init_model w dt args quant_args) workers
                            then Inr False
                            else if list_ex (\<lambda>sd. list_ex (\<lambda>w. worker_load_state_dict_throws w sd)
                                                     workers) state_dicts
                            then Inr False
                            else if list_ex (\<lambda>w. worker_verify_loaded_weights_fails w state_dicts)
                                      workers
                            then Inl CheckFailed
                            else Inr True))))"

text \<open>
  What \<^verbatim>\<open>Engine::init_kv_cache\<close> leaves behind when it returns: the number of blocks and
  the block size given to the \<^verbatim>\<open>BlockManager\<close>, the two shapes, the calls of
  \<^verbatim>\<open>init_kv_cache\<close> made on the workers (rank, key shape, value shape) and the value
  returned.
\<close>

record KVCacheInit =
  num_blocks :: int
  manager_block_size :: int
  key_cache_shape :: "int list"
  value_cache_shape :: "int list"
  init_calls :: "(nat \<times> int list \<times> int list) list"
  returned :: bool

text \<open>
  The bytes of a block. The first four products are of \<^verbatim>\<open>int64_t\<close> values; the last
  factor, \<^verbatim>\<open>dtype_size\<close>, is a \<^verbatim>\<open>size_t\<close>, so the last product is unsigned, modulo
  \<open>2^64\<close>, and is converted back on assignment to the \<^verbatim>\<open>int64_t\<close> variable.
\<close>

definition block_size_in_bytes :: "int \<Rightarrow> int \<Rightarrow> int \<Rightarrow> int \<Rightarrow> int \<Rightarrow> fatal + int" where
  "block_size_in_bytes block_size n_local_kv_heads head_dim layers dtype_size =
     and_then (int64_mul 2 block_size) (\<lambda>p1.
     and_then (int64_mul p1 n_local_kv_heads) (\<lambda>p2.
     and_then (int64_mul p2 head_dim) (\<lambda>p3.
     and_then (int64_mul p3 layers) (\<lambda>p4.
     Inr (to_int64 (to_uint64 p4 * dtype_size))))))"

text \<open>
  The bytes available for the cache on a CUDA device. \<open>allocated_bytes\<close> and
  \<open>total_memory\<close> are the readings of \<^verbatim>\<open>memory::max_memory_allocated\<close> and
  \<^verbatim>\<open>memory::total_memory\<close>, which are not part of the sources at hand; they are
  taken as \<^verbatim>\<open>int64_t\<close> values, the type of \<^verbatim>\<open>max_cache_size\<close>. The product is of
  two doubles and is truncated by the cast.
\<close>

definition cuda_max_cache_size :: "Flags \<Rightarrow> int \<Rightarrow> int \<Rightarrow> fatal + int" where
  "cuda_max_cache_size flags allocated_bytes total_memory =
     and_then
       (double_to_int64
          (double_mul (int64_to_double total_memory)
             (round_double (FLAGS_max_memory_utilization flags)))) (\<lambda>scaled.
     and_then (int64_sub scaled allocated_bytes) (\<lambda>max_cache_size.
     Inr (if 0 < FLAGS_max_cache_size flags
          then min max_cache_size (FLAGS_max_cache_size flags)
          else max_cache_size)))"

text \<open>The number of blocks: the branch on the first worker's device.\<close>

definition profile_num_blocks :: "Flags \<Rightarrow> device \<Rightarrow> int \<Rightarrow> int \<Rightarrow> int \<Rightarrow> fatal + int" where
  "profile_num_blocks flags dev allocated_bytes total_memory bytes_per_block =
     (if is_cpu dev
      then
        and_then (int64_div (FLAGS_max_cache_size flags) bytes_per_block) (\<lambda>num_blocks.
        if \<not> 0 < num_blocks then Inl CheckFailed else Inr num_blocks)
      else if is_cuda dev
      then
        and_then (cuda_max_cache_size flags allocated_bytes total_memory) (\<lambda>max_cache_size.
        if \<not> 0 < max_cache_size then Inl CheckFailed
        else
          and_then (int64_div max_cache_size bytes_per_block) (\<lambda>num_blocks.
          if \<not> 0 < num_blocks then Inl CheckFailed else Inr num_blocks))
      else Inl CheckFailed)"

text \<open>
  \<^verbatim>\<open>Engine::init_kv_cache\<close>. Each worker is called with the two shapes; the record
  keeps what each call was given next to what it answered.
\<close>

definition init_kv_cache ::
  "Flags \<Rightarrow> ModelArgs \<Rightarrow> scalar_type \<Rightarrow> int \<Rightarrow> int \<Rightarrow> ('sd, 'q, 'inp, 'out) Worker list
     \<Rightarrow> fatal + KVCacheInit" where
  "init_kv_cache flags args dt allocated_bytes total_memory workers =
     (let block_size = FLAGS_block_size flags;
          world_size = int (length workers);
          n_kv = (case n_kv_heads args of None \<Rightarrow> n_heads args | Some k \<Rightarrow> k)
      in and_then (int64_div n_kv world_size) (\<lambda>n_local_kv_heads.
         and_then (int64_div (hidden_size args) (n_heads args)) (\<lambda>head_dim.
         let dtype_size = itemsize dt
         in and_then
              (block_size_in_bytes block_size n_local_kv_heads head_dim (n_layers args)
                 dtype_size) (\<lambda>bytes_per_block.
            and_then
              (profile_num_blocks flags (worker_device (workers ! 0)) allocated_bytes
                 total_memory bytes_per_block) (\<lambda>num_blocks.
            let x = tdiv 16 dtype_size;
                key_shape = [num_blocks, n_local_kv_heads, tdiv head_dim x, block_size, x];
                value_shape = [num_blocks, n_local_kv_heads, head_dim, block_size];
                answers =
                  map (\<lambda>(r, w). ((r, key_shape, value_shape),
                                   worker_init_kv_cache w key_shape value_shape))
                    (enumerate 0 workers)
            in Inr \<lparr>num_blocks = num_blocks,
                    manager_block_size = block_size,
                    key_cache_shape = key_shape,
                    value_cache_shape = value_shape,
                    init_calls = map fst answers,
                    returned = list_all snd answers\<rparr>)))))"

text \<open>
  What \<^verbatim>\<open>Utils::prepare_inputs\<close> writes through its five output parameters.
\<close>

record ('t, 'p, 'i, 's) Prepared =
  input_token_ids :: 't
  input_positions :: 'p
  seq_indices :: "nat list"
  input_params :: 'i
  sampling_params :: 's

text \<open>
  Modelled from the spec: \<^verbatim>\<open>OutputParameters\<close> and its \<^verbatim>\<open>index_select\<close> are not part of
  the sources at hand. The output holds "one sampled token id per input sequence, in the
  packed batch order", here a list; \<open>index_select\<close> keeps, at each position, the entry
  that the index names, as \<^verbatim>\<open>torch::index_select\<close> does, and like it rejects an index
  out of range.
\<close>

definition index_select :: "'o list \<Rightarrow> nat list \<Rightarrow> fatal + 'o list" where
  "index_select output index =
     (if list_all (\<lambda>i. i < length output) index
      then Inr (map (\<lambda>i. output ! i) index)
      else Inl TorchError)"

text \<open>
  Modelled from the spec: the packing order of \<^verbatim>\<open>Utils::prepare_inputs\<close>, which is not
  part of the sources at hand. "Prefill sequences are placed first in the packed order,
  decode sequences second. A seq-indices permutation records, for each position in the
  original batch, the position it ended up at in the packed order." \<open>packed_order\<close> lists
  the original positions in packed order, \<open>permute_batch\<close> is the batch in packed order.
\<close>

definition packed_order :: "('seq \<Rightarrow> bool) \<Rightarrow> 'seq list \<Rightarrow> nat list" where
  "packed_order is_prefill batch =
     filter (\<lambda>i. is_prefill (batch ! i)) [0..<length batch]
       @ filter (\<lambda>i. \<not> is_prefill (batch ! i)) [0..<length batch]"

definition permute_batch :: "('seq \<Rightarrow> bool) \<Rightarrow> 'seq list \<Rightarrow> 'seq list" where
  "permute_batch is_prefill batch = map (\<lambda>i. batch ! i) (packed_order is_prefill batch)"

definition spec_seq_indices :: "('seq \<Rightarrow> bool) \<Rightarrow> 'seq list \<Rightarrow> nat list" where
  "spec_seq_indices is_prefill batch =
     map (\<lambda>i. index_of i (packed_order is_prefill batch)) [0..<length batch]"

text \<open>The calls \<^verbatim>\<open>Engine::execute_model\<close> makes on the workers, in order.\<close>

datatype 'inp worker_call =
    ExecuteModel nat 'inp
  | ExecuteModelAsync nat 'inp
  | CollectAll nat

text \<open>
  \<^verbatim>\<open>Engine::execute_model\<close>, with \<^verbatim>\<open>Utils::prepare_inputs\<close> as the parameter \<open>prepare\<close>:
  the trace of worker calls and the output returned. A worker receives the token ids,
  the positions, the input parameters and the sampling parameters.
\<close>

definition execute_model ::
  "('seq list \<Rightarrow> int \<Rightarrow> ('t, 'p, 'i, 's) Prepared) \<Rightarrow> Flags
     \<Rightarrow> ('sd, 'q, 't \<times> 'p \<times> 'i \<times> 's, 'o list) Worker list \<Rightarrow> 'seq list
     \<Rightarrow> ('t \<times> 'p \<times> 'i \<times> 's) worker_call list \<times> (fatal + 'o list)" where
  "execute_model prepare flags workers batch =
     (let prepared = prepare batch (FLAGS_block_size flags);
          inputs = (input_token_ids prepared, input_positions prepared,
                    input_params prepared, sampling_params prepared)
      in if length workers = 1
         then
           let output = worker_execute_model (workers ! 0) inputs
           in ([ExecuteModel 0 inputs], index_select output (seq_indices prepared))
         else
           let results = map (\<lambda>w. worker_execute_model w inputs) workers
           in (map (\<lambda>r. ExecuteModelAsync r inputs) [0..<length workers]
                 @ [CollectAll (length workers)],
               case results of
                 [] \<Rightarrow> Inl OutOfBounds
               | first_output # _ \<Rightarrow> index_select first_output (seq_indices prepared)))"

section \<open>A configuration to evaluate the engine on\<close>

text \<open>
  The default flags; the arguments of a 7B LLaMA checkpoint; a worker on a given device
  all of whose operations succeed and whose step output is a given function of its
  inputs; and a worker that accepts no other cache shapes than the two given.
\<close>

definition default_flags :: Flags where
  "default_flags =
     \<lparr>FLAGS_block_size = 16,
      FLAGS_max_cache_size = 5 * 1024 * 1024 * 1024,
      FLAGS_max_memory_utilization = 9 / 10\<rparr>"

definition llama_args :: ModelArgs where
  "llama_args =
     \<lparr>dtype = ''float16'', hidden_size = 4096, n_layers = 32, n_heads = 32,
      n_kv_heads = None, vocab_size = 32000\<rparr>"

definition sound_worker :: "device \<Rightarrow> ('inp \<Rightarrow> 'out) \<Rightarrow> (unit, unit, 'inp, 'out) Worker" where
  "sound_worker dev step =
     \<lparr>worker_device = dev,
      worker_init_model = (\<lambda>dt args quant_args. True),
      worker_load_state_dict_throws = (\<lambda>sd. False),
      worker_verify_loaded_weights_fails = (\<lambda>sds. False),
      worker_init_kv_cache = (\<lambda>key_shape value_shape. True),
      worker_execute_model = step\<rparr>"

definition strict_worker :: "device \<Rightarrow> int list \<Rightarrow> int list \<Rightarrow> (unit, unit, unit, unit) Worker" where
  "strict_worker dev key_shape value_shape =
     \<lparr>worker_device = dev,
      worker_init_model = (\<lambda>dt args quant_args. True),
      worker_load_state_dict_throws = (\<lambda>sd. False),
      worker_verify_loaded_weights_fails = (\<lambda>sds. False),
      worker_init_kv_cache = (\<lambda>k v. k = key_shape \<and> v = value_shape),
      worker_execute_model = (\<lambda>inputs. ())\<rparr>"

section \<open>A fused layer to evaluate the loading on\<close>

text \<open>
  A fused layer of three prefixes whose weight has three rows of two columns, all zero
  and not yet loaded; one shard of one row for each prefix; a checkpoint that holds the
  shards of "q." and "v." in one state dict and that of "k." in another, and a state dict
  that holds all three.
\<close>

definition qkv_prefixes :: "string list" where
  "qkv_prefixes = [''q.'', ''k.'', ''v.'']"

definition q_shard :: "int tensor" where
  "q_shard = \<lparr>sizes = [1, 2], elems = [1, 2]\<rparr>"

definition k_shard :: "int tensor" where
  "k_shard = \<lparr>sizes = [1, 2], elems = [3, 4]\<rparr>"

definition v_shard :: "int tensor" where
  "v_shard = \<lparr>sizes = [1, 2], elems = [5, 6]\<rparr>"

definition fresh_layer :: "int ColumnParallelLinear" where
  "fresh_layer =
     \<lparr>self_weight = \<lparr>sizes = [3, 2], elems = [0, 0, 0, 0, 0, 0]\<rparr>,
      self_weight_list = [], self_is_loaded = False, self_rank = 0, self_world_size = 1\<rparr>"

definition sd_qv :: "int StateDict" where
  "sd_qv name dm rk ws =
     (if name = ''q.weight'' then Some q_shard
      else if name = ''v.weight'' then Some v_shard else None)"

definition sd_k :: "int StateDict" where
  "sd_k name dm rk ws = (if name = ''k.weight'' then Some k_shard else None)"

definition sd_qkv :: "int StateDict" where
  "sd_qkv name dm rk ws =
     (if name = ''q.weight'' then Some q_shard
      else if name = ''k.weight'' then Some k_shard
      else if name = ''v.weight'' then Some v_shard else None)"
section \<open>Dtype derivation\<close>


lemma iequals_same_ignoring_case: "iequals s t = same_ignoring_case s t"
  unfolding same_ignoring_case_def
  by (induction s t rule: iequals.induct) simp_all

lemma is_cpu_iff: "is_cpu d \<longleftrightarrow> d = CPU"
  by (cases d) simp_all

lemma upper_half: "map to_upper ''half'' = ''HALF''" by code_simp
lemma upper_float16: "map to_upper ''float16'' = ''FLOAT16''" by code_simp
lemma upper_bfloat16: "map to_upper ''bfloat16'' = ''BFLOAT16''" by code_simp
lemma upper_float: "map to_upper ''float'' = ''FLOAT''" by code_simp
lemma upper_float32: "map to_upper ''float32'' = ''FLOAT32''" by code_simp
lemma upper_auto: "map to_upper ''auto'' = ''AUTO''" by code_simp

lemmas upper_names =
  upper_half upper_float16 upper_bfloat16 upper_float upper_float32 upper_auto

lemma parse_dtype_refines_table: "parse_dtype s d = dtype_of_table s d"
  unfolding parse_dtype_def dtype_of_table_def dtype_table_def
    iequals_same_ignoring_case same_ignoring_case_def upper_names is_cpu_iff
  by simp

text \<open>
  C2. For every configuration string \<open>s\<close> and device \<open>d\<close>: on the CPU the dtype is 32-bit
  float whatever \<open>s\<close> is; on any other device it is 16-bit float for \<open>s\<close> equal, ignoring
  case, to "half" or "float16", bfloat16 for "bfloat16", 32-bit float for "float" or
  "float32", 16-bit float for the empty string or "auto", and the check fails for every
  other string.
\<close>

theorem parse_dtype_cases:
  "(d = CPU \<longrightarrow> parse_dtype s d = Inr kFloat32) \<and>
   (d \<noteq> CPU \<longrightarrow>
      (same_ignoring_case s ''half'' \<or> same_ignoring_case s ''float16''
         \<longrightarrow> parse_dtype s d = Inr kHalf) \<and>
      (same_ignoring_case s ''bfloat16'' \<longrightarrow> parse_dtype s d = Inr kBFloat16) \<and>
      (same_ignoring_case s ''float'' \<or> same_ignoring_case s ''float32''
         \<longrightarrow> parse_dtype s d = Inr kFloat32) \<and>
      (s = [] \<or> same_ignoring_case s ''auto'' \<longrightarrow> parse_dtype s d = Inr kHalf) \<and>
      (\<not> (same_ignoring_case s ''half'' \<or> same_ignoring_case s ''float16'' \<or>
           same_ignoring_case s ''bfloat16'' \<or> same_ignoring_case s ''float'' \<or>
           same_ignoring_case s ''float32'' \<or> s = [] \<or> same_ignoring_case s ''auto'')
         \<longrightarrow> parse_dtype s d = Inl CheckFailed))"
  unfolding parse_dtype_refines_table dtype_of_table_def dtype_table_def
    same_ignoring_case_def upper_names
  by auto

text \<open>
  The table at work: the CPU with an unknown name, mixed-case names on a CUDA device,
  the empty string, and an unknown name on a CUDA device.
\<close>

lemma fold_HaLf: "map to_upper ''HaLf'' = ''HALF''" by code_simp
lemma fold_BFloat16: "map to_upper ''BFloat16'' = ''BFLOAT16''" by code_simp
lemma fold_Float32: "map to_upper ''Float32'' = ''FLOAT32''" by code_simp
lemma fold_int8: "map to_upper ''int8'' = ''INT8''" by code_simp

theorem parse_dtype_cases_witness:
  "parse_dtype ''int8'' CPU = Inr kFloat32 \<and>
   CUDA 0 \<noteq> CPU \<and>
   same_ignoring_case ''HaLf'' ''half'' \<and> parse_dtype ''HaLf'' (CUDA 0) = Inr kHalf \<and>
   same_ignoring_case ''BFloat16'' ''bfloat16'' \<and> parse_dtype ''BFloat16'' (CUDA 0) = Inr kBFloat16 \<and>
   same_ignoring_case ''Float32'' ''float32'' \<and> parse_dtype ''Float32'' (CUDA 0) = Inr kFloat32 \<and>
   parse_dtype [] (CUDA 0) = Inr kHalf \<and>
   \<not> (same_ignoring_case ''int8'' ''half'' \<or> same_ignoring_case ''int8'' ''float16'' \<or>
      same_ignoring_case ''int8'' ''bfloat16'' \<or> same_ignoring_case ''int8'' ''float'' \<or>
      same_ignoring_case ''int8'' ''float32'' \<or> ''int8'' = [] \<or>
      same_ignoring_case ''int8'' ''auto'') \<and>
   parse_dtype ''int8'' (CUDA 0) = Inl CheckFailed"
proof -
  have a: "same_ignoring_case ''HaLf'' ''half''"
    and b: "same_ignoring_case ''BFloat16'' ''bfloat16''"
    and c: "same_ignoring_case ''Float32'' ''float32''"
    and d: "\<not> (same_ignoring_case ''int8'' ''half'' \<or> same_ignoring_case ''int8'' ''float16'' \<or>
      same_ignoring_case ''int8'' ''bfloat16'' \<or> same_ignoring_case ''int8'' ''float'' \<or>
      same_ignoring_case ''int8'' ''float32'' \<or> ''int8'' = [] \<or>
      same_ignoring_case ''int8'' ''auto'')"
    unfolding same_ignoring_case_def upper_names fold_HaLf fold_BFloat16 fold_Float32 fold_int8
    by simp_all
  have e: "CUDA 0 \<noteq> CPU" by simp
  have 1: "parse_dtype ''int8'' CPU = Inr kFloat32"
    using parse_dtype_cases [of CPU "''int8''"] by simp
  have 2: "parse_dtype ''HaLf'' (CUDA 0) = Inr kHalf"
    using parse_dtype_cases [of "CUDA 0" "''HaLf''"] a e by simp
  have 3: "parse_dtype ''BFloat16'' (CUDA 0) = Inr kBFloat16"
    using parse_dtype_cases [of "CUDA 0" "''BFloat16''"] b e by simp
  have 4: "parse_dtype ''Float32'' (CUDA 0) = Inr kFloat32"
    using parse_dtype_cases [of "CUDA 0" "''Float32''"] c e by simp
  have 5: "parse_dtype [] (CUDA 0) = Inr kHalf"
    using parse_dtype_cases [of "CUDA 0" "[]"] e by simp
  have 6: "parse_dtype ''int8'' (CUDA 0) = Inl CheckFailed"
    using parse_dtype_cases [of "CUDA 0" "''int8''"] d e by simp
  show ?thesis
    using a b c d e 1 2 3 4 5 6 by simp
qed

section \<open>Facts of the machine arithmetic\<close>


lemma bit_length_pos: "0 < n \<Longrightarrow> 1 \<le> bit_length n"
proof (induction n rule: bit_length.induct)
  case (1 n)
  show ?case
  proof (cases "0 < n div 2")
    case True
    with 1 have "1 \<le> bit_length (n div 2)" by simp
    with 1 show ?thesis by (simp add: bit_length.simps [of n])
  next
    case False
    then have "bit_length (n div 2) = 0" by (simp add: bit_length.simps [of "n div 2"])
    with 1 show ?thesis by (simp add: bit_length.simps [of n])
  qed
qed

lemma bit_length_bounds:
  "0 < n \<Longrightarrow> 2 ^ nat (bit_length n - 1) \<le> n \<and> n < 2 ^ nat (bit_length n)"
proof (induction n rule: bit_length.induct)
  case (1 n)
  show ?case
  proof (cases "0 < n div 2")
    case True
    with 1 have ih: "2 ^ nat (bit_length (n div 2) - 1) \<le> n div 2"
      "n div 2 < 2 ^ nat (bit_length (n div 2))" by simp_all
    from True have pos: "1 \<le> bit_length (n div 2)" by (rule bit_length_pos)
    have eq: "bit_length n = 1 + bit_length (n div 2)"
      using 1 by (simp add: bit_length.simps [of n])
    have e1: "nat (bit_length n - 1) = Suc (nat (bit_length (n div 2) - 1))"
      using pos eq by simp
    have e2: "nat (bit_length n) = Suc (nat (bit_length (n div 2)))"
      using pos eq by simp
    from ih show ?thesis unfolding e1 e2 by simp linarith
  next
    case False
    with 1 have "n = 1" by linarith
    then show ?thesis by (simp add: bit_length.simps [of 1] bit_length.simps [of 0])
  qed
qed


lemma exponent_bounds:
  assumes "x \<noteq> 0"
  shows "2 powi exponent x \<le> \<bar>x\<bar>" and "\<bar>x\<bar> < 2 powi (exponent x + 1)"
proof -
  obtain p q where pq: "quotient_of \<bar>x\<bar> = (p, q)" by (cases "quotient_of \<bar>x\<bar>")
  then have q: "0 < q" by (rule quotient_of_denom_pos)
  from pq have a: "\<bar>x\<bar> = of_int p / of_int q" by (rule quotient_of_div)
  from assms have "0 < \<bar>x\<bar>" by simp
  with a q have p: "0 < p" by (simp add: zero_less_divide_iff)
  define bp where "bp = bit_length p"
  define bq where "bq = bit_length q"
  define P where "P = (of_int p :: rat)"
  define Q where "Q = (of_int q :: rat)"
  have Qpos: "0 < Q" using q by (simp add: Q_def)
  from bit_length_pos [OF p] bit_length_pos [OF q] have b1: "1 \<le> bp" "1 \<le> bq"
    by (simp_all add: bp_def bq_def)
  have conv: "(2 :: rat) powi k = of_int (2 ^ nat k)" if "0 \<le> k" for k
    using that by (simp add: power_int_nonneg_exp)
  from bit_length_bounds [OF p] have "2 ^ nat (bp - 1) \<le> p" "p < 2 ^ nat bp"
    by (simp_all add: bp_def)
  then have A: "2 powi (bp - 1) \<le> P" "P < 2 powi bp"
    unfolding P_def using b1 by (simp_all only: conv of_int_le_iff of_int_less_iff)
  from bit_length_bounds [OF q] have "2 ^ nat (bq - 1) \<le> q" "q < 2 ^ nat bq"
    by (simp_all add: bq_def)
  then have B: "2 powi (bq - 1) \<le> Q" "Q < 2 powi bq"
    unfolding Q_def using b1 by (simp_all only: conv of_int_le_iff of_int_less_iff)
  define d where "d = bp - bq"
  have lower: "2 powi (d - 1) < P / Q"
  proof -
    have "2 powi (d - 1) * Q < 2 powi (d - 1) * 2 powi bq"
      using B(2) by simp
    also have "\<dots> = 2 powi (bp - 1)"
      by (simp add: d_def power_int_add [symmetric])
    also have "\<dots> \<le> P" by (rule A(1))
    finally show ?thesis using Qpos by (simp add: pos_less_divide_eq)
  qed
  have upper: "P / Q < 2 powi (d + 1)"
  proof -
    have "P < 2 powi bp" by (rule A(2))
    also have "\<dots> = 2 powi (d + 1) * 2 powi (bq - 1)"
      by (simp add: d_def power_int_add [symmetric])
    also have "\<dots> \<le> 2 powi (d + 1) * Q"
      using B(1) by simp
    finally show ?thesis using Qpos by (simp add: pos_divide_less_eq)
  qed
  have e: "exponent x = (if 2 powi d \<le> \<bar>x\<bar> then d else d - 1)"
    by (simp add: exponent_def pq d_def bp_def bq_def)
  from lower upper show "2 powi exponent x \<le> \<bar>x\<bar>" and "\<bar>x\<bar> < 2 powi (exponent x + 1)"
    unfolding e a P_def [symmetric] Q_def [symmetric] by (auto simp: not_le)
qed

lemma round_half_even_error: "\<bar>of_int (round_half_even q) - q\<bar> \<le> 1 / 2"
proof -
  have "of_int \<lfloor>q\<rfloor> \<le> q" "q < of_int \<lfloor>q\<rfloor> + 1" by linarith+
  then show ?thesis
    by (auto simp: round_half_even_def Let_def abs_le_iff)
qed


lemma round_half_even_of_int: "round_half_even (of_int k) = k"
  by (simp add: round_half_even_def)

lemma round_double_error:
  "\<bar>round_double x - x\<bar> \<le> \<bar>x\<bar> / 2 ^ 53 + 2 powi (- 1075)"
proof (cases "x = 0")
  case True
  then show ?thesis by (simp add: round_double_def del: power_int_numeral_neg_numeral)
next
  case False
  define e where "e = max (exponent x) (- 1022)"
  define ulp where "ulp = (2 :: rat) powi (e - 52)"
  have ulp: "0 < ulp" by (simp add: ulp_def)
  have rd: "round_double x = of_int (round_half_even (x / ulp)) * ulp"
    using False by (simp add: round_double_def ulp_def e_def Let_def)
  have "\<bar>of_int (round_half_even (x / ulp)) * ulp - x\<bar>
      = \<bar>of_int (round_half_even (x / ulp)) - x / ulp\<bar> * ulp"
  proof -
    have "of_int (round_half_even (x / ulp)) * ulp - x
        = (of_int (round_half_even (x / ulp)) - x / ulp) * ulp"
      using ulp by (simp add: left_diff_distrib)
    then show ?thesis using ulp by (simp add: abs_mult)
  qed
  also have "\<dots> \<le> (1 / 2) * ulp"
    using round_half_even_error [of "x / ulp"] ulp by (intro mult_right_mono) simp_all
  also have "(1 / 2) * ulp = 2 powi (e - 53)"
  proof -
    have "(2 :: rat) powi (e - 52) = 2 powi ((e - 53) + 1)" by simp
    also have "\<dots> = 2 powi (e - 53) * 2" by (subst power_int_add) simp_all
    finally show ?thesis by (simp add: ulp_def)
  qed
  also have "\<dots> \<le> \<bar>x\<bar> / 2 ^ 53 + 2 powi (- 1075)"
  proof (cases "- 1022 \<le> exponent x")
    case True
    then have e: "e = exponent x" by (simp add: e_def)
    have "(2 :: rat) powi (e - 53) = 2 powi e / 2 ^ 53"
      by (subst power_int_diff) simp_all
    also have "\<dots> \<le> \<bar>x\<bar> / 2 ^ 53"
      using exponent_bounds(1) [OF False] by (simp add: e divide_right_mono)
    also have "\<dots> \<le> \<bar>x\<bar> / 2 ^ 53 + 2 powi (- 1075)"
      by (simp del: power_int_numeral_neg_numeral)
    finally show ?thesis .
  next
    case False
    then have "e - 53 = - 1075" by (simp add: e_def)
    then have "(2 :: rat) powi (e - 53) = 2 powi (- 1075)" by (simp only:)
    also have "\<dots> \<le> \<bar>x\<bar> / 2 ^ 53 + 2 powi (- 1075)"
      by (simp del: power_int_numeral_neg_numeral)
    finally show ?thesis .
  qed
  finally show ?thesis by (simp only: rd)
qed

lemma round_double_of_int:
  assumes "\<bar>i\<bar> \<le> 2 ^ 53"
  shows "round_double (of_int i) = of_int i"
proof (cases "i = 0")
  case True
  then show ?thesis by (simp add: round_double_def)
next
  case False
  define x where "x = (of_int i :: rat)"
  have x0: "x \<noteq> 0" using False by (simp add: x_def)
  define e where "e = exponent x"
  have ge1: "1 \<le> \<bar>x\<bar>" using False by (simp add: x_def flip: of_int_abs)
  have le53: "\<bar>x\<bar> \<le> 2 powi 53"
    using assms by (simp add: x_def flip: of_int_abs)
  have lt: "(2 :: rat) powi 0 < 2 powi (e + 1)"
    using ge1 exponent_bounds(2) [OF x0] by (simp add: e_def)
  have e0: "0 \<le> e"
  proof (rule ccontr)
    assume "\<not> 0 \<le> e"
    then have "e + 1 \<le> 0" by simp
    then have "(2 :: rat) powi (e + 1) \<le> 2 powi 0" by (rule power_int_increasing) simp
    with lt show False by simp
  qed
  have "(2 :: rat) powi e \<le> 2 powi 53"
    using exponent_bounds(1) [OF x0] le53 by (simp add: e_def)
  then have e53: "e \<le> 53" by (rule power_int_le_imp_le_exp [of "2 :: rat", rotated]) simp_all
  define ulp where "ulp = (2 :: rat) powi (e - 52)"
  have rd: "round_double x = of_int (round_half_even (x / ulp)) * ulp"
    using x0 e0 by (simp add: round_double_def ulp_def e_def Let_def max_def)
  have "\<exists>k. x / ulp = of_int k"
  proof (cases "e \<le> 52")
    case True
    then have "ulp = 1 / 2 ^ nat (52 - e)"
      by (simp add: ulp_def power_int_def nat_diff_distrib inverse_eq_divide power_divide)
    then have "x / ulp = of_int (i * 2 ^ nat (52 - e))" by (simp add: x_def)
    then show ?thesis ..
  next
    case False
    with e53 have e: "e = 53" by simp
    then have "(2 :: rat) powi 53 \<le> \<bar>x\<bar>"
      using exponent_bounds(1) [OF x0] by (simp add: e_def)
    with le53 have "\<bar>x\<bar> = 2 ^ 53" by simp
    then have "x = 2 ^ 53 \<or> x = - (2 ^ 53)" by (auto simp: abs_if split: if_splits)
    moreover have "ulp = 2" by (simp add: ulp_def e)
    ultimately have "x / ulp = of_int (2 ^ 52) \<or> x / ulp = of_int (- (2 ^ 52))" by auto
    then show ?thesis by blast
  qed
  then obtain k where k: "x / ulp = of_int k" ..
  have "0 < ulp" by (simp add: ulp_def)
  with k have "of_int k * ulp = x" by (simp add: field_simps)
  then show ?thesis by (simp add: rd k round_half_even_of_int x_def [symmetric])
qed

lemma double_to_int64_Inr:
  "double_to_int64 x = Inr t \<Longrightarrow> int64 t \<and> \<bar>of_int t - x\<bar> < 1"
  by (auto simp: double_to_int64_def Let_def split: if_splits) linarith+

section \<open>Sizing the KV cache\<close>

lemma int64_mul_Inr: "int64_mul a b = Inr c \<longleftrightarrow> int64 (a * b) \<and> c = a * b"
  by (auto simp: int64_mul_def)

lemma int64_sub_Inr: "int64_sub a b = Inr c \<longleftrightarrow> int64 (a - b) \<and> c = a - b"
  by (auto simp: int64_sub_def)

lemma int64_div_Inr: "int64_div a b = Inr c \<longleftrightarrow> b \<noteq> 0 \<and> int64 (tdiv a b) \<and> c = tdiv a b"
  by (auto simp: int64_div_def)

lemma and_then_Inr: "and_then r f = Inr y \<longleftrightarrow> (\<exists>v. r = Inr v \<and> f v = Inr y)"
  by (cases r) (simp_all add: and_then_def)

lemma to_int64_exact:
  assumes "int64 z"
  shows "to_int64 z = z"
proof (cases "0 \<le> z")
  case True
  with assms have "z mod 2 ^ 64 = z" by (simp add: int64_def)
  with assms show ?thesis by (simp add: to_int64_def int64_def)
next
  case False
  with assms have range: "0 \<le> z + 2 ^ 64" "z + 2 ^ 64 < 2 ^ 64" by (simp_all add: int64_def)
  have "z mod 2 ^ 64 = (z + 2 ^ 64) mod 2 ^ 64" by simp
  also have "\<dots> = z + 2 ^ 64" using range by (rule mod_pos_pos_trivial)
  finally have "z mod 2 ^ 64 = z + 2 ^ 64" .
  with assms show ?thesis by (simp add: to_int64_def int64_def)
qed

lemma to_int64_mod: "to_int64 (to_uint64 a * b) = to_int64 (a * b)"
proof -
  have "(a mod 2 ^ 64 * b) mod 2 ^ 64 = (a * b) mod 2 ^ 64" by (rule mod_mult_left_eq)
  then show ?thesis unfolding to_int64_def to_uint64_def by (simp only:)
qed

lemma block_size_in_bytes_Inr:
  "block_size_in_bytes bs nl hdim l ds = Inr b \<longleftrightarrow>
     int64 (2 * bs) \<and> int64 (2 * bs * nl) \<and> int64 (2 * bs * nl * hdim) \<and>
     int64 (2 * bs * nl * hdim * l) \<and> b = to_int64 (2 * bs * nl * hdim * l * ds)"
  by (auto simp: block_size_in_bytes_def and_then_Inr int64_mul_Inr to_int64_mod)

lemma cuda_max_cache_size_Inr:
  "cuda_max_cache_size flags allocated_bytes total_memory = Inr m \<longleftrightarrow>
     (\<exists>scaled.
        double_to_int64 (double_mul (int64_to_double total_memory)
          (round_double (FLAGS_max_memory_utilization flags))) = Inr scaled \<and>
        int64 (scaled - allocated_bytes) \<and>
        m = (if 0 < FLAGS_max_cache_size flags
             then min (scaled - allocated_bytes) (FLAGS_max_cache_size flags)
             else scaled - allocated_bytes))"
  by (auto simp: cuda_max_cache_size_def and_then_Inr int64_sub_Inr)

lemma profile_num_blocks_Inr:
  "profile_num_blocks flags dev allocated_bytes total_memory b = Inr n \<longleftrightarrow>
     b \<noteq> 0 \<and> 0 < n \<and> int64 n \<and>
     (if is_cpu dev then n = tdiv (FLAGS_max_cache_size flags) b
      else is_cuda dev \<and>
           (\<exists>m. cuda_max_cache_size flags allocated_bytes total_memory = Inr m \<and> 0 < m \<and>
                n = tdiv m b))"
  by (auto simp: profile_num_blocks_def and_then_Inr int64_div_Inr)


lemma answers_calls:
  "map fst (map (\<lambda>(r, w). ((r, k, v), f w)) (enumerate 0 ws)) = map (\<lambda>r. (r, k, v)) [0..<length ws]"
  by (rule nth_equalityI) (simp_all add: nth_enumerate_eq)

lemma answers_returned:
  "list_all snd (map (\<lambda>(r, w). ((r, k, v), f w)) (enumerate 0 ws)) = list_all f ws"
  by (simp add: list_all_length nth_enumerate_eq)

lemma init_kv_cache_Inr:
  assumes "nl = tdiv (case n_kv_heads args of None \<Rightarrow> n_heads args | Some k \<Rightarrow> k) (int (length workers))"
    and "hdim = tdiv (hidden_size args) (n_heads args)"
    and "x = tdiv 16 (itemsize dt)"
  shows "init_kv_cache flags args dt allocated_bytes total_memory workers = Inr res \<longleftrightarrow>
     workers \<noteq> [] \<and> n_heads args \<noteq> 0 \<and> int64 nl \<and> int64 hdim \<and>
     (\<exists>b n. block_size_in_bytes (FLAGS_block_size flags) nl hdim (n_layers args) (itemsize dt) = Inr b \<and>
        profile_num_blocks flags (worker_device (workers ! 0)) allocated_bytes total_memory b = Inr n \<and>
        res = \<lparr>num_blocks = n,
               manager_block_size = FLAGS_block_size flags,
               key_cache_shape = [n, nl, tdiv hdim x, FLAGS_block_size flags, x],
               value_cache_shape = [n, nl, hdim, FLAGS_block_size flags],
               init_calls =
                 map (\<lambda>r. (r, [n, nl, tdiv hdim x, FLAGS_block_size flags, x],
                            [n, nl, hdim, FLAGS_block_size flags])) [0..<length workers],
               returned =
                 list_all (\<lambda>w. worker_init_kv_cache w
                              [n, nl, tdiv hdim x, FLAGS_block_size flags, x]
                              [n, nl, hdim, FLAGS_block_size flags]) workers\<rparr>)"
  unfolding init_kv_cache_def Let_def and_then_Inr int64_div_Inr answers_calls answers_returned
    assms [symmetric]
  by auto

lemma tdiv_nonpos: "0 < b \<Longrightarrow> a \<le> 0 \<Longrightarrow> tdiv a b \<le> 0"
  by (simp add: tdiv_def mult_le_0_iff sgn_if pos_imp_zdiv_nonneg_iff)

lemma tiny_le: "(2 :: rat) powi (- 1075) \<le> 1 / 2 ^ 60"
proof -
  have "(2 :: rat) powi (- 1075) \<le> 2 powi (- 60)"
    by (rule power_int_increasing) simp_all
  also have "\<dots> = 1 / 2 ^ 60"
    by (simp add: power_int_minus field_simps)
  finally show ?thesis .
qed

lemma tiny_nonneg: "0 \<le> (2 :: rat) powi (- 1075)"
  by simp

lemma scaled_accuracy:
  fixes u :: rat
  assumes T: "0 \<le> total_memory" "total_memory \<le> 2 ^ 53" and U: "0 \<le> u" "u \<le> 1"
  shows "\<exists>scaled. double_to_int64 (double_mul (int64_to_double total_memory) (round_double u)) = Inr scaled \<and>
           \<bar>of_int scaled - of_int total_memory * u\<bar> < 4"
proof -
  define T :: rat where "T = of_int total_memory"
  define ud where "ud = round_double u"
  define p where "p = round_double (T * ud)"
  define d :: rat where "d = 2 powi (- 1075)"
  have d: "0 \<le> d" "d \<le> 1 / 2 ^ 60"
    unfolding d_def by (rule tiny_nonneg, rule tiny_le)
  have T0: "0 \<le> T" "T \<le> 2 ^ 53"
    using T by (simp_all add: T_def)
  have conv: "int64_to_double total_memory = T"
    unfolding int64_to_double_def T_def using T by (intro round_double_of_int) simp
  have e1: "\<bar>ud - u\<bar> \<le> u / 2 ^ 53 + d"
    using round_double_error [of u] U by (simp add: ud_def d_def)
  have "u / 2 ^ 53 \<le> 1 / 2 ^ 53"
    using U by (simp add: divide_right_mono)
  with e1 have e1': "\<bar>ud - u\<bar> \<le> 1 / 2 ^ 53 + d"
    by linarith
  have ud: "\<bar>ud\<bar> \<le> 1 + 1 / 2 ^ 53 + d"
    using e1' U by linarith
  have "\<bar>T * ud - T * u\<bar> = T * \<bar>ud - u\<bar>"
    using T0 by (simp add: abs_mult right_diff_distrib [symmetric])
  also have "\<dots> \<le> 2 ^ 53 * (1 / 2 ^ 53 + d)"
    using T0 e1' by (intro mult_mono) simp_all
  finally have a: "\<bar>T * ud - T * u\<bar> \<le> 1 + 2 ^ 53 * d"
    by (simp add: distrib_left)
  have "\<bar>T * ud\<bar> = T * \<bar>ud\<bar>"
    using T0 by (simp add: abs_mult)
  also have "\<dots> \<le> 2 ^ 53 * (1 + 1 / 2 ^ 53 + d)"
    using T0 ud by (intro mult_mono) simp_all
  finally have "\<bar>T * ud\<bar> / 2 ^ 53 \<le> (2 ^ 53 * (1 + 1 / 2 ^ 53 + d)) / 2 ^ 53"
    by (rule divide_right_mono) simp
  then have b: "\<bar>T * ud\<bar> / 2 ^ 53 \<le> 1 + 1 / 2 ^ 53 + d"
    by simp
  have e2: "\<bar>p - T * ud\<bar> \<le> \<bar>T * ud\<bar> / 2 ^ 53 + d"
    using round_double_error [of "T * ud"] by (simp add: p_def d_def)
  have "2 ^ 53 * d \<le> 2 ^ 53 * (1 / 2 ^ 60 :: rat)"
    using d by (intro mult_left_mono) simp_all
  then have s: "2 ^ 53 * d \<le> 1 / 128"
    by simp
  have d1: "d \<le> 1 / 4"
    using d by simp
  have k: "(1 :: rat) / 2 ^ 53 \<le> 1 / 4"
    by simp
  have pe: "\<bar>p - T * u\<bar> < 3"
    using a b e2 d1 k s by linarith
  define t where "t = (if 0 \<le> p then \<lfloor>p\<rfloor> else \<lceil>p\<rceil>)"
  have tp: "\<bar>of_int t - p\<bar> < 1"
    unfolding t_def by (simp add: abs_less_iff) linarith
  have "T * u \<le> 2 ^ 53 * 1"
    using T0 U by (intro mult_mono) simp_all
  moreover have "0 \<le> T * u"
    using T0 U by simp
  ultimately have "\<bar>of_int t :: rat\<bar> < 2 ^ 53 + 4"
    using tp pe by linarith
  then have "(of_int \<bar>t\<bar> :: rat) < of_int (2 ^ 53 + 4)"
    by simp
  then have "\<bar>t\<bar> < 2 ^ 53 + 4"
    by (simp only: of_int_less_iff)
  then have "int64 t"
    by (simp add: int64_def) arith
  then have r: "double_to_int64 p = Inr t"
    by (simp add: double_to_int64_def t_def Let_def)
  have "\<bar>of_int t - T * u\<bar> < 4"
    using tp pe by linarith
  with r show ?thesis
    unfolding double_mul_def conv p_def ud_def T_def by blast
qed

lemmas example_defs = default_flags_def llama_args_def sound_worker_def strict_worker_def

text \<open>
  C1. The bytes of a block are the product \<open>2 * block_size * n_local_kv_heads * head_dim *
  n_layers * dtype_size\<close> as the machine computes it: the first five factors are multiplied
  in signed 64-bit arithmetic, where every partial product has to fit, and the product with
  the unsigned \<open>dtype_size\<close> wraps modulo \<open>2 ^ 64\<close>; whenever the whole product fits in 64
  bits, it is the plain product. On a CUDA device the cache size is the total memory times
  the utilization, multiplied as doubles and truncated to an integer, less the allocated
  bytes, clamped by the configured cap when that is positive; for a total of at most
  \<open>2 ^ 53\<close> bytes and a utilization between 0 and 1 the truncated product exists and is
  within 4 bytes of the exact one. When initialization returns, the bytes of a block are
  those of \<open>n_local_kv_heads = n_kv_heads / world_size\<close>, with \<open>n_kv_heads\<close> defaulting to
  \<open>n_heads\<close>, and \<open>head_dim = hidden_size / n_heads\<close>; the number of blocks is positive and
  is the quotient of the cache size (CUDA, where that size is positive too) or of the
  configured cap (CPU) by the bytes of a block. Whenever these quantities are positive,
  fit in 64 bits and no division is by zero, it does return, with that number of blocks.
  It fails whenever the quotient is not positive, whenever the cache size on a CUDA device
  is not positive, and on every device that is neither; and on the CPU a cap that is not
  positive, with blocks of positive size, makes it fail.
\<close>

theorem kv_cache_sizing:
  "(block_size_in_bytes bs nl hdim layers ds = Inr b \<longleftrightarrow>
      int64 (2 * bs) \<and> int64 (2 * bs * nl) \<and> int64 (2 * bs * nl * hdim) \<and>
      int64 (2 * bs * nl * hdim * layers) \<and>
      b = to_int64 (2 * bs * nl * hdim * layers * ds)) \<and>
   (int64 (2 * bs) \<and> int64 (2 * bs * nl) \<and> int64 (2 * bs * nl * hdim) \<and>
    int64 (2 * bs * nl * hdim * layers) \<and> int64 (2 * bs * nl * hdim * layers * ds)
      \<longrightarrow> block_size_in_bytes bs nl hdim layers ds = Inr (2 * bs * nl * hdim * layers * ds)) \<and>
   (cuda_max_cache_size flags allocated_bytes total_memory = Inr m \<longleftrightarrow>
      (\<exists>scaled.
         double_to_int64 (double_mul (int64_to_double total_memory)
                            (round_double (FLAGS_max_memory_utilization flags))) = Inr scaled \<and>
         int64 (scaled - allocated_bytes) \<and>
         m = (if 0 < FLAGS_max_cache_size flags
              then min (scaled - allocated_bytes) (FLAGS_max_cache_size flags)
              else scaled - allocated_bytes))) \<and>
   (0 \<le> total_memory \<and> total_memory \<le> 2 ^ 53 \<and>
    0 \<le> FLAGS_max_memory_utilization flags \<and> FLAGS_max_memory_utilization flags \<le> 1
      \<longrightarrow> (\<exists>scaled.
             double_to_int64 (double_mul (int64_to_double total_memory)
                                (round_double (FLAGS_max_memory_utilization flags))) = Inr scaled \<and>
             \<bar>of_int scaled - of_int total_memory * FLAGS_max_memory_utilization flags\<bar> < 4)) \<and>
   (init_kv_cache flags args dt allocated_bytes total_memory workers = Inr res \<longrightarrow>
      (\<exists>bytes_per_block.
         block_size_in_bytes (FLAGS_block_size flags)
           (tdiv (case n_kv_heads args of None \<Rightarrow> n_heads args | Some k \<Rightarrow> k) (int (length workers)))
           (tdiv (hidden_size args) (n_heads args)) (n_layers args) (itemsize dt)
           = Inr bytes_per_block \<and>
         0 < num_blocks res \<and>
         (if is_cpu (worker_device (workers ! 0))
          then num_blocks res = tdiv (FLAGS_max_cache_size flags) bytes_per_block
          else is_cuda (worker_device (workers ! 0)) \<and>
               (\<exists>max_cache_size.
                  cuda_max_cache_size flags allocated_bytes total_memory = Inr max_cache_size \<and>
                  0 < max_cache_size \<and>
                  num_blocks res = tdiv max_cache_size bytes_per_block)))) \<and>
   (workers \<noteq> [] \<and> n_heads args \<noteq> 0 \<and>
    int64 (tdiv (case n_kv_heads args of None \<Rightarrow> n_heads args | Some k \<Rightarrow> k) (int (length workers))) \<and>
    int64 (tdiv (hidden_size args) (n_heads args)) \<and>
    block_size_in_bytes (FLAGS_block_size flags)
      (tdiv (case n_kv_heads args of None \<Rightarrow> n_heads args | Some k \<Rightarrow> k) (int (length workers)))
      (tdiv (hidden_size args) (n_heads args)) (n_layers args) (itemsize dt) = Inr bytes \<and>
    bytes \<noteq> 0 \<and>
    (if is_cpu (worker_device (workers ! 0))
     then 0 < tdiv (FLAGS_max_cache_size flags) bytes \<and>
          int64 (tdiv (FLAGS_max_cache_size flags) bytes)
     else is_cuda (worker_device (workers ! 0)) \<and>
          cuda_max_cache_size flags allocated_bytes total_memory = Inr cache \<and>
          0 < cache \<and> 0 < tdiv cache bytes \<and> int64 (tdiv cache bytes))
      \<longrightarrow> (\<exists>r. init_kv_cache flags args dt allocated_bytes total_memory workers = Inr r \<and>
               num_blocks r = (if is_cpu (worker_device (workers ! 0))
                               then tdiv (FLAGS_max_cache_size flags) bytes
                               else tdiv cache bytes))) \<and>
   ((\<forall>bytes_per_block.
       block_size_in_bytes (FLAGS_block_size flags)
         (tdiv (case n_kv_heads args of None \<Rightarrow> n_heads args | Some k \<Rightarrow> k) (int (length workers)))
         (tdiv (hidden_size args) (n_heads args)) (n_layers args) (itemsize dt)
         = Inr bytes_per_block \<longrightarrow>
       (if is_cpu (worker_device (workers ! 0))
        then tdiv (FLAGS_max_cache_size flags) bytes_per_block \<le> 0
        else is_cuda (worker_device (workers ! 0)) \<longrightarrow>
             (\<forall>max_cache_size.
                cuda_max_cache_size flags allocated_bytes total_memory = Inr max_cache_size \<longrightarrow>
                max_cache_size \<le> 0 \<or> tdiv max_cache_size bytes_per_block \<le> 0)))
      \<longrightarrow> (\<exists>e. init_kv_cache flags args dt allocated_bytes total_memory workers = Inl e)) \<and>
   (is_cpu (worker_device (workers ! 0)) \<and>
    block_size_in_bytes (FLAGS_block_size flags)
      (tdiv (case n_kv_heads args of None \<Rightarrow> n_heads args | Some k \<Rightarrow> k) (int (length workers)))
      (tdiv (hidden_size args) (n_heads args)) (n_layers args) (itemsize dt) = Inr bytes \<and>
    0 < bytes \<and> FLAGS_max_cache_size flags \<le> 0
      \<longrightarrow> (\<exists>e. init_kv_cache flags args dt allocated_bytes total_memory workers = Inl e))"
  (is "?c1 \<and> ?c2 \<and> ?c3 \<and> ?c4 \<and> ?c5 \<and> ?c6 \<and> ?c7 \<and> ?c8")
proof -
  note chr = init_kv_cache_Inr [OF refl refl refl]
  have not_Inr: "\<exists>e. init_kv_cache flags args dt allocated_bytes total_memory workers = Inl e"
    if "\<And>r. init_kv_cache flags args dt allocated_bytes total_memory workers \<noteq> Inr r"
    using that by (cases "init_kv_cache flags args dt allocated_bytes total_memory workers") auto
  have ?c1
    by (rule block_size_in_bytes_Inr)
  moreover have ?c2
    by (simp add: block_size_in_bytes_Inr to_int64_exact)
  moreover have ?c3
    by (rule cuda_max_cache_size_Inr)
  moreover have ?c4
    using scaled_accuracy [of total_memory "FLAGS_max_memory_utilization flags"] by blast
  moreover have ?c5
  proof
    assume "init_kv_cache flags args dt allocated_bytes total_memory workers = Inr res"
    then obtain bytes n where
      bytes: "block_size_in_bytes (FLAGS_block_size flags)
           (tdiv (case n_kv_heads args of None \<Rightarrow> n_heads args | Some k \<Rightarrow> k) (int (length workers)))
           (tdiv (hidden_size args) (n_heads args)) (n_layers args) (itemsize dt) = Inr bytes"
      and p: "profile_num_blocks flags (worker_device (workers ! 0)) allocated_bytes total_memory bytes = Inr n"
      and n: "num_blocks res = n"
      unfolding chr by auto
    from p [unfolded profile_num_blocks_Inr] n bytes
    show "\<exists>bytes_per_block.
         block_size_in_bytes (FLAGS_block_size flags)
           (tdiv (case n_kv_heads args of None \<Rightarrow> n_heads args | Some k \<Rightarrow> k) (int (length workers)))
           (tdiv (hidden_size args) (n_heads args)) (n_layers args) (itemsize dt)
           = Inr bytes_per_block \<and>
         0 < num_blocks res \<and>
         (if is_cpu (worker_device (workers ! 0))
          then num_blocks res = tdiv (FLAGS_max_cache_size flags) bytes_per_block
          else is_cuda (worker_device (workers ! 0)) \<and>
               (\<exists>max_cache_size.
                  cuda_max_cache_size flags allocated_bytes total_memory = Inr max_cache_size \<and>
                  0 < max_cache_size \<and>
                  num_blocks res = tdiv max_cache_size bytes_per_block))"
      by (auto split: if_splits)
  qed
  moreover have ?c6
  proof
    assume a: "workers \<noteq> [] \<and> n_heads args \<noteq> 0 \<and>
    int64 (tdiv (case n_kv_heads args of None \<Rightarrow> n_heads args | Some k \<Rightarrow> k) (int (length workers))) \<and>
    int64 (tdiv (hidden_size args) (n_heads args)) \<and>
    block_size_in_bytes (FLAGS_block_size flags)
      (tdiv (case n_kv_heads args of None \<Rightarrow> n_heads args | Some k \<Rightarrow> k) (int (length workers)))
      (tdiv (hidden_size args) (n_heads args)) (n_layers args) (itemsize dt) = Inr bytes \<and>
    bytes \<noteq> 0 \<and>
    (if is_cpu (worker_device (workers ! 0))
     then 0 < tdiv (FLAGS_max_cache_size flags) bytes \<and>
          int64 (tdiv (FLAGS_max_cache_size flags) bytes)
     else is_cuda (worker_device (workers ! 0)) \<and>
          cuda_max_cache_size flags allocated_bytes total_memory = Inr cache \<and>
          0 < cache \<and> 0 < tdiv cache bytes \<and> int64 (tdiv cache bytes))"
    define n where "n = (if is_cpu (worker_device (workers ! 0))
                               then tdiv (FLAGS_max_cache_size flags) bytes
                               else tdiv cache bytes)"
    from a have "profile_num_blocks flags (worker_device (workers ! 0)) allocated_bytes total_memory bytes = Inr n"
      unfolding profile_num_blocks_Inr n_def by (simp split: if_splits)
    with a have "\<exists>r. init_kv_cache flags args dt allocated_bytes total_memory workers = Inr r \<and> num_blocks r = n"
      unfolding chr by simp
    then show "\<exists>r. init_kv_cache flags args dt allocated_bytes total_memory workers = Inr r \<and>
               num_blocks r = (if is_cpu (worker_device (workers ! 0))
                               then tdiv (FLAGS_max_cache_size flags) bytes
                               else tdiv cache bytes)"
      unfolding n_def .
  qed
  moreover have ?c7
  proof
    assume a: "\<forall>bytes_per_block.
       block_size_in_bytes (FLAGS_block_size flags)
         (tdiv (case n_kv_heads args of None \<Rightarrow> n_heads args | Some k \<Rightarrow> k) (int (length workers)))
         (tdiv (hidden_size args) (n_heads args)) (n_layers args) (itemsize dt)
         = Inr bytes_per_block \<longrightarrow>
       (if is_cpu (worker_device (workers ! 0))
        then tdiv (FLAGS_max_cache_size flags) bytes_per_block \<le> 0
        else is_cuda (worker_device (workers ! 0)) \<longrightarrow>
             (\<forall>max_cache_size.
                cuda_max_cache_size flags allocated_bytes total_memory = Inr max_cache_size \<longrightarrow>
                max_cache_size \<le> 0 \<or> tdiv max_cache_size bytes_per_block \<le> 0))"
    show "\<exists>e. init_kv_cache flags args dt allocated_bytes total_memory workers = Inl e"
    proof (rule not_Inr)
      fix r
      show "init_kv_cache flags args dt allocated_bytes total_memory workers \<noteq> Inr r"
      proof
        assume "init_kv_cache flags args dt allocated_bytes total_memory workers = Inr r"
        then obtain bytes n where
          bytes: "block_size_in_bytes (FLAGS_block_size flags)
           (tdiv (case n_kv_heads args of None \<Rightarrow> n_heads args | Some k \<Rightarrow> k) (int (length workers)))
           (tdiv (hidden_size args) (n_heads args)) (n_layers args) (itemsize dt) = Inr bytes"
          and p: "profile_num_blocks flags (worker_device (workers ! 0)) allocated_bytes total_memory bytes = Inr n"
          unfolding init_kv_cache_Inr [OF refl refl refl] by auto
        from a [rule_format, OF bytes] p [unfolded profile_num_blocks_Inr]
        show False
          by (auto split: if_splits)
      qed
    qed
  qed
  moreover have ?c8
  proof
    assume a: "is_cpu (worker_device (workers ! 0)) \<and>
    block_size_in_bytes (FLAGS_block_size flags)
      (tdiv (case n_kv_heads args of None \<Rightarrow> n_heads args | Some k \<Rightarrow> k) (int (length workers)))
      (tdiv (hidden_size args) (n_heads args)) (n_layers args) (itemsize dt) = Inr bytes \<and>
    0 < bytes \<and> FLAGS_max_cache_size flags \<le> 0"
    then have le: "tdiv (FLAGS_max_cache_size flags) bytes \<le> 0"
      by (simp add: tdiv_nonpos)
    show "\<exists>e. init_kv_cache flags args dt allocated_bytes total_memory workers = Inl e"
    proof (rule not_Inr)
      fix r
      show "init_kv_cache flags args dt allocated_bytes total_memory workers \<noteq> Inr r"
      proof
        assume "init_kv_cache flags args dt allocated_bytes total_memory workers = Inr r"
        then obtain bytes' n where
          bytes: "block_size_in_bytes (FLAGS_block_size flags)
           (tdiv (case n_kv_heads args of None \<Rightarrow> n_heads args | Some k \<Rightarrow> k) (int (length workers)))
           (tdiv (hidden_size args) (n_heads args)) (n_layers args) (itemsize dt) = Inr bytes'"
          and p: "profile_num_blocks flags (worker_device (workers ! 0)) allocated_bytes total_memory bytes' = Inr n"
          unfolding init_kv_cache_Inr [OF refl refl refl] by auto
        from a bytes have "bytes' = bytes"
          by simp
        with a le p [unfolded profile_num_blocks_Inr]
        show False
          by (auto split: if_splits)
      qed
    qed
  qed
  ultimately show ?thesis
    by (intro conjI)
qed

text \<open>
  A 7B LLaMA in half precision on one CUDA device with 24 GiB of which 14 GiB are
  allocated: a block takes 8 MiB, the doubles give 23192823398 usable bytes, the 5 GiB cap
  applies, and there are 640 blocks. With 23 GiB allocated the cache size is negative and
  the initialization fails, as it does on the CPU with the cap set to 0. With a hidden size
  of 131072 and \<open>2 ^ 40 + 1\<close> layers in single precision on the CPU, the product with the
  item size wraps to 16 MiB and there are 320 blocks. Without a cap, 90 percent of
  1291860990365001 bytes are 1162674891328501 bytes in double arithmetic.
\<close>

theorem kv_cache_sizing_witness:
  "block_size_in_bytes 16 32 128 32 2 = Inr 8388608 \<and>
   block_size_in_bytes 16 32 4096 1099511627777 4 = Inr 16777216 \<and>
   cuda_max_cache_size default_flags 15032385536 25769803776 = Inr 5368709120 \<and>
   cuda_max_cache_size (default_flags\<lparr>FLAGS_max_cache_size := 0\<rparr>) 0 1291860990365001
     = Inr 1162674891328501 \<and>
   (\<exists>scaled.
      double_to_int64 (double_mul (int64_to_double 25769803776)
                         (round_double (FLAGS_max_memory_utilization default_flags))) = Inr scaled \<and>
      \<bar>of_int scaled - of_int 25769803776 * FLAGS_max_memory_utilization default_flags\<bar> < 4) \<and>
   (\<exists>r. init_kv_cache default_flags llama_args kHalf 15032385536 25769803776
           [sound_worker (CUDA 0) (\<lambda>x :: unit. ())] = Inr r \<and> num_blocks r = 640) \<and>
   init_kv_cache default_flags (llama_args\<lparr>hidden_size := 131072, n_layers := 1099511627777\<rparr>)
       kFloat32 0 0 [sound_worker CPU (\<lambda>x :: unit. ())]
     = Inr \<lparr>num_blocks = 320, manager_block_size = 16,
          key_cache_shape = [320, 32, 1024, 16, 4], value_cache_shape = [320, 32, 4096, 16],
          init_calls = [(0, [320, 32, 1024, 16, 4], [320, 32, 4096, 16])], returned = True\<rparr> \<and>
   (\<exists>bytes_per_block.
      block_size_in_bytes 16 32 4096 1099511627777 4 = Inr bytes_per_block \<and>
      320 = tdiv 5368709120 bytes_per_block) \<and>
   cuda_max_cache_size default_flags 24696061952 25769803776 = Inr (- 1503238554) \<and>
   (\<exists>e. init_kv_cache default_flags llama_args kHalf 24696061952 25769803776
           [sound_worker (CUDA 0) (\<lambda>x :: unit. ())] = Inl e) \<and>
   (\<exists>e. init_kv_cache (default_flags\<lparr>FLAGS_max_cache_size := 0\<rparr>) llama_args kFloat32 0 0
           [sound_worker CPU (\<lambda>x :: unit. ())] = Inl e)"
proof -
  have r1: "int64 (2 * 16) \<and> int64 (2 * 16 * 32) \<and> int64 (2 * 16 * 32 * 128) \<and>
    int64 (2 * 16 * 32 * 128 * 32) \<and> int64 (2 * 16 * 32 * 128 * 32 * 2)"
    by (simp add: int64_def)
  note b1 = kv_cache_sizing [THEN conjunct2, THEN conjunct1, rule_format, OF r1]
  have r2: "int64 (2 * 16) \<and> int64 (2 * 16 * 32) \<and> int64 (2 * 16 * 32 * 4096) \<and>
    int64 (2 * 16 * 32 * 4096 * 1099511627777) \<and>
    16777216 = to_int64 (2 * 16 * 32 * 4096 * 1099511627777 * 4)"
    by (simp add: int64_def to_int64_def)
  note b2 = kv_cache_sizing [THEN conjunct1, THEN iffD2, OF r2]
  have r3: "int64 (2 * 16) \<and> int64 (2 * 16 * 32) \<and> int64 (2 * 16 * 32 * 128) \<and>
    int64 (2 * 16 * 32 * 128 * 32) \<and> int64 (2 * 16 * 32 * 128 * 32 * 4)"
    by (simp add: int64_def)
  note b3 = kv_cache_sizing [THEN conjunct2, THEN conjunct1, rule_format, OF r3]
  have s1: "double_to_int64 (double_mul (int64_to_double 25769803776)
              (round_double (FLAGS_max_memory_utilization default_flags))) = Inr 23192823398"
    by code_simp
  have s2: "double_to_int64 (double_mul (int64_to_double 1291860990365001)
              (round_double (FLAGS_max_memory_utilization (default_flags\<lparr>FLAGS_max_cache_size := 0\<rparr>))))
              = Inr 1162674891328501"
    by code_simp
  have m1: "cuda_max_cache_size default_flags 15032385536 25769803776 = Inr 5368709120"
    unfolding kv_cache_sizing [THEN conjunct2, THEN conjunct2, THEN conjunct1] s1
    by (simp add: int64_def default_flags_def)
  have m2: "cuda_max_cache_size (default_flags\<lparr>FLAGS_max_cache_size := 0\<rparr>) 0 1291860990365001
     = Inr 1162674891328501"
    unfolding kv_cache_sizing [THEN conjunct2, THEN conjunct2, THEN conjunct1] s2
    by (simp add: int64_def default_flags_def)
  have m3: "cuda_max_cache_size default_flags 24696061952 25769803776 = Inr (- 1503238554)"
    unfolding kv_cache_sizing [THEN conjunct2, THEN conjunct2, THEN conjunct1] s1
    by (simp add: int64_def default_flags_def)
  have r4: "0 \<le> (25769803776 :: int) \<and> (25769803776 :: int) \<le> 2 ^ 53 \<and>
    0 \<le> FLAGS_max_memory_utilization default_flags \<and> FLAGS_max_memory_utilization default_flags \<le> 1"
    by (simp add: default_flags_def)
  note acc = kv_cache_sizing [THEN conjunct2, THEN conjunct2, THEN conjunct2, THEN conjunct1,
      rule_format, OF r4]
  have a6: "[sound_worker (CUDA 0) (\<lambda>x :: unit. ())] \<noteq> [] \<and> n_heads llama_args \<noteq> 0 \<and>
    int64 (tdiv (case n_kv_heads llama_args of None \<Rightarrow> n_heads llama_args | Some k \<Rightarrow> k)
             (int (length [sound_worker (CUDA 0) (\<lambda>x :: unit. ())]))) \<and>
    int64 (tdiv (hidden_size llama_args) (n_heads llama_args)) \<and>
    block_size_in_bytes (FLAGS_block_size default_flags)
      (tdiv (case n_kv_heads llama_args of None \<Rightarrow> n_heads llama_args | Some k \<Rightarrow> k)
         (int (length [sound_worker (CUDA 0) (\<lambda>x :: unit. ())])))
      (tdiv (hidden_size llama_args) (n_heads llama_args)) (n_layers llama_args) (itemsize kHalf)
      = Inr 8388608 \<and>
    (8388608 :: int) \<noteq> 0 \<and>
    (if is_cpu (worker_device ([sound_worker (CUDA 0) (\<lambda>x :: unit. ())] ! 0))
     then 0 < tdiv (FLAGS_max_cache_size default_flags) 8388608 \<and>
          int64 (tdiv (FLAGS_max_cache_size default_flags) 8388608)
     else is_cuda (worker_device ([sound_worker (CUDA 0) (\<lambda>x :: unit. ())] ! 0)) \<and>
          cuda_max_cache_size default_flags 15032385536 25769803776 = Inr 5368709120 \<and>
          0 < (5368709120 :: int) \<and> 0 < tdiv 5368709120 8388608 \<and> int64 (tdiv 5368709120 8388608))"
    using b1 by (simp add: m1 sound_worker_def llama_args_def tdiv_def int64_def)
      (simp add: default_flags_def)
  note ok = kv_cache_sizing [THEN conjunct2, THEN conjunct2, THEN conjunct2, THEN conjunct2,
      THEN conjunct2, THEN conjunct1, rule_format, OF a6]
  have run: "init_kv_cache default_flags (llama_args\<lparr>hidden_size := 131072, n_layers := 1099511627777\<rparr>)
       kFloat32 0 0 [sound_worker CPU (\<lambda>x :: unit. ())]
     = Inr \<lparr>num_blocks = 320, manager_block_size = 16,
          key_cache_shape = [320, 32, 1024, 16, 4], value_cache_shape = [320, 32, 4096, 16],
          init_calls = [(0, [320, 32, 1024, 16, 4], [320, 32, 4096, 16])], returned = True\<rparr>"
    using b2 by (simp add: init_kv_cache_def profile_num_blocks_def and_then_def int64_div_def
          int64_def example_defs tdiv_def Let_def)
  note sized = kv_cache_sizing [THEN conjunct2, THEN conjunct2, THEN conjunct2, THEN conjunct2,
      THEN conjunct1, rule_format, OF run]
  have a7: "\<forall>bytes_per_block.
       block_size_in_bytes (FLAGS_block_size default_flags)
         (tdiv (case n_kv_heads llama_args of None \<Rightarrow> n_heads llama_args | Some k \<Rightarrow> k)
            (int (length [sound_worker (CUDA 0) (\<lambda>x :: unit. ())])))
         (tdiv (hidden_size llama_args) (n_heads llama_args)) (n_layers llama_args) (itemsize kHalf)
         = Inr bytes_per_block \<longrightarrow>
       (if is_cpu (worker_device ([sound_worker (CUDA 0) (\<lambda>x :: unit. ())] ! 0))
        then tdiv (FLAGS_max_cache_size default_flags) bytes_per_block \<le> 0
        else is_cuda (worker_device ([sound_worker (CUDA 0) (\<lambda>x :: unit. ())] ! 0)) \<longrightarrow>
             (\<forall>max_cache_size.
                cuda_max_cache_size default_flags 24696061952 25769803776 = Inr max_cache_size \<longrightarrow>
                max_cache_size \<le> 0 \<or> tdiv max_cache_size bytes_per_block \<le> 0))"
    by (simp add: m3 sound_worker_def)
  note exhausted = kv_cache_sizing [THEN conjunct2, THEN conjunct2, THEN conjunct2, THEN conjunct2,
      THEN conjunct2, THEN conjunct2, THEN conjunct1, THEN mp, OF a7]
  have a8: "is_cpu (worker_device ([sound_worker CPU (\<lambda>x :: unit. ())] ! 0)) \<and>
    block_size_in_bytes (FLAGS_block_size (default_flags\<lparr>FLAGS_max_cache_size := 0\<rparr>))
      (tdiv (case n_kv_heads llama_args of None \<Rightarrow> n_heads llama_args | Some k \<Rightarrow> k)
         (int (length [sound_worker CPU (\<lambda>x :: unit. ())])))
      (tdiv (hidden_size llama_args) (n_heads llama_args)) (n_layers llama_args) (itemsize kFloat32)
      = Inr 16777216 \<and>
    0 < (16777216 :: int) \<and> FLAGS_max_cache_size (default_flags\<lparr>FLAGS_max_cache_size := 0\<rparr>) \<le> 0"
    using b3 by (simp add: example_defs tdiv_def)
  note uncapped = kv_cache_sizing [THEN conjunct2, THEN conjunct2, THEN conjunct2, THEN conjunct2,
      THEN conjunct2, THEN conjunct2, THEN conjunct2, rule_format, OF a8]
  have c1: "block_size_in_bytes 16 32 128 32 2 = Inr 8388608"
    using b1 by simp
  have c6: "\<exists>r. init_kv_cache default_flags llama_args kHalf 15032385536 25769803776
           [sound_worker (CUDA 0) (\<lambda>x :: unit. ())] = Inr r \<and> num_blocks r = 640"
    using ok by (simp add: sound_worker_def tdiv_def)
  have c8: "\<exists>bytes_per_block.
      block_size_in_bytes 16 32 4096 1099511627777 4 = Inr bytes_per_block \<and>
      320 = tdiv 5368709120 bytes_per_block"
    using sized by (simp add: example_defs tdiv_def)
  show ?thesis
    by (intro conjI) (rule c1 b2 m1 m2 acc c6 run c8 m3 exhausted uncapped)+
qed
section \<open>The shapes of the KV cache\<close>

text \<open>
  C3. When \<open>init_kv_cache\<close> returns, the key shape is \<open>[N, n_local_kv_heads, head_dim / x,
  block_size, x]\<close> with \<open>x = 16 / dtype_size\<close> and the value shape is \<open>[N, n_local_kv_heads,
  head_dim, block_size]\<close>; every worker, in rank order, is called with exactly these two
  shapes, and the engine reports success exactly when every worker accepts them; with two
  workers the second dimension of the key shape is \<open>n_kv_heads / 2\<close>.
\<close>

theorem kv_cache_shapes:
  "init_kv_cache flags args dt allocated_bytes total_memory workers = Inr res \<longrightarrow>
     key_cache_shape res =
       [num_blocks res, tdiv (case n_kv_heads args of None \<Rightarrow> n_heads args | Some k \<Rightarrow> k) (int (length workers)),
        tdiv (tdiv (hidden_size args) (n_heads args)) (tdiv 16 (itemsize dt)),
        FLAGS_block_size flags, tdiv 16 (itemsize dt)] \<and>
     value_cache_shape res =
       [num_blocks res, tdiv (case n_kv_heads args of None \<Rightarrow> n_heads args | Some k \<Rightarrow> k) (int (length workers)),
        tdiv (hidden_size args) (n_heads args), FLAGS_block_size flags] \<and>
     init_calls res =
       map (\<lambda>r. (r,
              [num_blocks res, tdiv (case n_kv_heads args of None \<Rightarrow> n_heads args | Some k \<Rightarrow> k) (int (length workers)),
               tdiv (tdiv (hidden_size args) (n_heads args)) (tdiv 16 (itemsize dt)),
               FLAGS_block_size flags, tdiv 16 (itemsize dt)],
              [num_blocks res, tdiv (case n_kv_heads args of None \<Rightarrow> n_heads args | Some k \<Rightarrow> k) (int (length workers)),
               tdiv (hidden_size args) (n_heads args), FLAGS_block_size flags]))
         [0..<length workers] \<and>
     returned res =
       list_all (\<lambda>w. worker_init_kv_cache w
              [num_blocks res, tdiv (case n_kv_heads args of None \<Rightarrow> n_heads args | Some k \<Rightarrow> k) (int (length workers)),
               tdiv (tdiv (hidden_size args) (n_heads args)) (tdiv 16 (itemsize dt)),
               FLAGS_block_size flags, tdiv 16 (itemsize dt)]
              [num_blocks res, tdiv (case n_kv_heads args of None \<Rightarrow> n_heads args | Some k \<Rightarrow> k) (int (length workers)),
               tdiv (hidden_size args) (n_heads args), FLAGS_block_size flags])
         workers \<and>
     (length workers = 2 \<longrightarrow>
        key_cache_shape res ! 1 = tdiv (case n_kv_heads args of None \<Rightarrow> n_heads args | Some k \<Rightarrow> k) 2)"
  unfolding init_kv_cache_Inr [OF refl refl refl] by auto

text \<open>
  Workers that accept nothing but the shapes they expect. On the CPU, with a hidden size of
  131072 and \<open>2 ^ 40 + 1\<close> layers in single precision, the worker is handed the key shape
  \<open>[320, 32, 1024, 16, 4]\<close>. The 7B LLaMA in half precision on two CUDA devices: 16 of the
  32 heads on each, \<open>x = 8\<close>, and both workers get the key shape \<open>[1280, 16, 16, 16, 8]\<close>;
  a second worker expecting the shapes of a single device refuses them, and the engine
  reports the failure.
\<close>

theorem kv_cache_shapes_witness:
  "init_kv_cache default_flags (llama_args\<lparr>hidden_size := 131072, n_layers := 1099511627777\<rparr>)
       kFloat32 0 0 [strict_worker CPU [320, 32, 1024, 16, 4] [320, 32, 4096, 16]]
     = Inr \<lparr>num_blocks = 320, manager_block_size = 16,
          key_cache_shape = [320, 32, 1024, 16, 4], value_cache_shape = [320, 32, 4096, 16],
          init_calls = [(0, [320, 32, 1024, 16, 4], [320, 32, 4096, 16])], returned = True\<rparr> \<and>
   list_all (\<lambda>w. worker_init_kv_cache w [320, 32, 1024, 16, 4] [320, 32, 4096, 16])
     [strict_worker CPU [320, 32, 1024, 16, 4] [320, 32, 4096, 16]] \<and>
   init_kv_cache default_flags llama_args kHalf 15032385536 25769803776
     [strict_worker (CUDA 0) [1280, 16, 16, 16, 8] [1280, 16, 128, 16],
      strict_worker (CUDA 1) [1280, 16, 16, 16, 8] [1280, 16, 128, 16]]
     = Inr \<lparr>num_blocks = 1280, manager_block_size = 16,
          key_cache_shape = [1280, 16, 16, 16, 8], value_cache_shape = [1280, 16, 128, 16],
          init_calls = [(0, [1280, 16, 16, 16, 8], [1280, 16, 128, 16]),
                        (1, [1280, 16, 16, 16, 8], [1280, 16, 128, 16])],
          returned = True\<rparr> \<and>
   list_all (\<lambda>w. worker_init_kv_cache w [1280, 16, 16, 16, 8] [1280, 16, 128, 16])
     [strict_worker (CUDA 0) [1280, 16, 16, 16, 8] [1280, 16, 128, 16],
      strict_worker (CUDA 1) [1280, 16, 16, 16, 8] [1280, 16, 128, 16]] \<and>
   tdiv 16 (itemsize kHalf) = 8 \<and>
   [1280, 16, 16, 16, 8] ! 1 = tdiv 32 2 \<and>
   (\<exists>r. init_kv_cache default_flags llama_args kHalf 15032385536 25769803776
           [strict_worker (CUDA 0) [1280, 16, 16, 16, 8] [1280, 16, 128, 16],
            strict_worker (CUDA 1) [640, 32, 16, 16, 8] [640, 32, 128, 16]] = Inr r \<and>
         \<not> returned r)"
proof -
  have deep: "block_size_in_bytes 16 32 4096 1099511627777 4 = Inr 16777216"
    unfolding block_size_in_bytes_Inr by (simp add: int64_def to_int64_def)
  have half: "block_size_in_bytes 16 16 128 32 2 = Inr 4194304"
    unfolding block_size_in_bytes_Inr by (simp add: int64_def to_int64_def)
  have cache: "cuda_max_cache_size default_flags 15032385536 25769803776 = Inr 5368709120"
    by code_simp
  have run1: "init_kv_cache default_flags (llama_args\<lparr>hidden_size := 131072, n_layers := 1099511627777\<rparr>)
       kFloat32 0 0 [strict_worker CPU [320, 32, 1024, 16, 4] [320, 32, 4096, 16]]
     = Inr \<lparr>num_blocks = 320, manager_block_size = 16,
          key_cache_shape = [320, 32, 1024, 16, 4], value_cache_shape = [320, 32, 4096, 16],
          init_calls = [(0, [320, 32, 1024, 16, 4], [320, 32, 4096, 16])], returned = True\<rparr>"
    using deep by (simp add: init_kv_cache_def profile_num_blocks_def and_then_def int64_div_def
          int64_def example_defs tdiv_def Let_def)
  have run2: "init_kv_cache default_flags llama_args kHalf 15032385536 25769803776
     [strict_worker (CUDA 0) [1280, 16, 16, 16, 8] [1280, 16, 128, 16],
      strict_worker (CUDA 1) [1280, 16, 16, 16, 8] [1280, 16, 128, 16]]
     = Inr \<lparr>num_blocks = 1280, manager_block_size = 16,
          key_cache_shape = [1280, 16, 16, 16, 8], value_cache_shape = [1280, 16, 128, 16],
          init_calls = [(0, [1280, 16, 16, 16, 8], [1280, 16, 128, 16]),
                        (1, [1280, 16, 16, 16, 8], [1280, 16, 128, 16])],
          returned = True\<rparr>"
    using half cache by (simp add: init_kv_cache_def profile_num_blocks_def and_then_def int64_div_def
          int64_def example_defs tdiv_def Let_def)
  have run3: "init_kv_cache default_flags llama_args kHalf 15032385536 25769803776
     [strict_worker (CUDA 0) [1280, 16, 16, 16, 8] [1280, 16, 128, 16],
      strict_worker (CUDA 1) [640, 32, 16, 16, 8] [640, 32, 128, 16]]
     = Inr \<lparr>num_blocks = 1280, manager_block_size = 16,
          key_cache_shape = [1280, 16, 16, 16, 8], value_cache_shape = [1280, 16, 128, 16],
          init_calls = [(0, [1280, 16, 16, 16, 8], [1280, 16, 128, 16]),
                        (1, [1280, 16, 16, 16, 8], [1280, 16, 128, 16])],
          returned = False\<rparr>"
    using half cache by (simp add: init_kv_cache_def profile_num_blocks_def and_then_def int64_div_def
          int64_def example_defs tdiv_def Let_def)
  note shapes1 = kv_cache_shapes [rule_format, OF run1]
  note shapes2 = kv_cache_shapes [rule_format, OF run2]
  note shapes3 = kv_cache_shapes [rule_format, OF run3]
  from run1 run2 run3 shapes1 shapes2 shapes3 show ?thesis
    by (simp add: example_defs tdiv_def)
qed
section \<open>Restoring the order of the batch\<close>


lemma index_of_nth: "x \<in> set xs \<Longrightarrow> index_of x xs < length xs \<and> xs ! index_of x xs = x"
  by (induction xs) auto

lemma set_packed_order: "set (packed_order p batch) = {0..<length batch}"
  by (auto simp: packed_order_def)

lemma distinct_packed_order: "distinct (packed_order p batch)"
  by (auto simp: packed_order_def)

lemma length_packed_order: "length (packed_order p batch) = length batch"
proof -
  have "length (packed_order p batch) = card (set (packed_order p batch))"
    by (simp add: distinct_card distinct_packed_order)
  then show ?thesis by (simp add: set_packed_order)
qed

lemma permute_batch_prefill_first:
  "permute_batch p batch = filter p batch @ filter (\<lambda>s. \<not> p s) batch"
proof -
  have "map (\<lambda>i. batch ! i) (filter (\<lambda>i. q (batch ! i)) [0..<length batch]) = filter q batch" for q
    using filter_map [of q "\<lambda>i. batch ! i" "[0..<length batch]"]
    by (simp add: comp_def map_nth)
  then show ?thesis by (simp add: permute_batch_def packed_order_def)
qed

lemma seq_indices_position:
  assumes "i < length batch"
  shows "spec_seq_indices p batch ! i < length batch"
    and "packed_order p batch ! (spec_seq_indices p batch ! i) = i"
    and "permute_batch p batch ! (spec_seq_indices p batch ! i) = batch ! i"
proof -
  from assms have mem: "i \<in> set (packed_order p batch)" by (simp add: set_packed_order)
  from index_of_nth [OF mem] assms
  show 1: "spec_seq_indices p batch ! i < length batch"
    and 2: "packed_order p batch ! (spec_seq_indices p batch ! i) = i"
    by (simp_all add: spec_seq_indices_def length_packed_order)
  from 1 2 show "permute_batch p batch ! (spec_seq_indices p batch ! i) = batch ! i"
    by (simp add: permute_batch_def length_packed_order)
qed

lemma unpermute_permute:
  "index_select (map f (permute_batch p batch)) (spec_seq_indices p batch) = Inr (map f batch)"
proof -
  have len: "length (permute_batch p batch) = length batch"
    by (simp add: permute_batch_def length_packed_order)
  have len': "length (spec_seq_indices p batch) = length batch"
    by (simp add: spec_seq_indices_def)
  have range: "list_all (\<lambda>i. i < length (map f (permute_batch p batch))) (spec_seq_indices p batch)"
    using seq_indices_position(1) [of _ batch p] len len'
    by (auto simp: list_all_length)
  have "map (\<lambda>i. map f (permute_batch p batch) ! i) (spec_seq_indices p batch) = map f batch"
  proof (rule nth_equalityI)
    show "length (map (\<lambda>i. map f (permute_batch p batch) ! i) (spec_seq_indices p batch))
        = length (map f batch)"
      by (simp add: len')
  next
    fix i assume "i < length (map (\<lambda>i. map f (permute_batch p batch) ! i) (spec_seq_indices p batch))"
    then have i: "i < length batch" by (simp add: len')
    from seq_indices_position [OF i, of p] i len len'
    show "map (\<lambda>i. map f (permute_batch p batch) ! i) (spec_seq_indices p batch) ! i
        = map f batch ! i"
      by simp
  qed
  with range show ?thesis by (simp add: index_select_def)
qed

lemma execute_model_output:
  "workers \<noteq> [] \<Longrightarrow>
     snd (execute_model prepare flags workers batch) =
       index_select
         (worker_execute_model (workers ! 0)
            (input_token_ids (prepare batch (FLAGS_block_size flags)),
             input_positions (prepare batch (FLAGS_block_size flags)),
             input_params (prepare batch (FLAGS_block_size flags)),
             sampling_params (prepare batch (FLAGS_block_size flags))))
         (seq_indices (prepare batch (FLAGS_block_size flags)))"
  by (cases workers) (simp_all add: execute_model_def Let_def)


text \<open>
  C4. With the packing order of the specification (prefill sequences first, decode
  sequences second, each group in batch order), \<open>seq_indices\<close> holds for each original
  position its position in the packed order, selecting the packed batch at
  \<open>seq_indices\<close> gives the batch back, and when the packer's \<open>seq_indices\<close> is that of
  the specification and the first worker's output lists one value per sequence in packed
  order, \<open>execute_model\<close> returns these values in the order of the batch.
\<close>

theorem output_order_round_trip:
  "index_select (permute_batch is_prefill batch) (spec_seq_indices is_prefill batch) = Inr batch \<and>
   permute_batch is_prefill batch = filter is_prefill batch @ filter (\<lambda>s. \<not> is_prefill s) batch \<and>
   (\<forall>i<length batch.
      spec_seq_indices is_prefill batch ! i < length batch \<and>
      permute_batch is_prefill batch ! (spec_seq_indices is_prefill batch ! i) = batch ! i) \<and>
   (workers \<noteq> [] \<and>
    seq_indices (prepare batch (FLAGS_block_size flags)) = spec_seq_indices is_prefill batch \<and>
    worker_execute_model (workers ! 0)
        (input_token_ids (prepare batch (FLAGS_block_size flags)),
             input_positions (prepare batch (FLAGS_block_size flags)),
             input_params (prepare batch (FLAGS_block_size flags)),
             sampling_params (prepare batch (FLAGS_block_size flags)))
      = map sampled (permute_batch is_prefill batch)
    \<longrightarrow> snd (execute_model prepare flags workers batch) = Inr (map sampled batch))"
proof (intro conjI allI impI)
  show "index_select (permute_batch is_prefill batch) (spec_seq_indices is_prefill batch) = Inr batch"
    using unpermute_permute [of "\<lambda>s. s" is_prefill batch] by simp
next
  show "permute_batch is_prefill batch = filter is_prefill batch @ filter (\<lambda>s. \<not> is_prefill s) batch"
    by (rule permute_batch_prefill_first)
next
  fix i assume "i < length batch"
  then show "spec_seq_indices is_prefill batch ! i < length batch"
    and "permute_batch is_prefill batch ! (spec_seq_indices is_prefill batch ! i) = batch ! i"
    by (rule seq_indices_position)+
next
  assume a: "workers \<noteq> [] \<and>
    seq_indices (prepare batch (FLAGS_block_size flags)) = spec_seq_indices is_prefill batch \<and>
    worker_execute_model (workers ! 0)
        (input_token_ids (prepare batch (FLAGS_block_size flags)),
             input_positions (prepare batch (FLAGS_block_size flags)),
             input_params (prepare batch (FLAGS_block_size flags)),
             sampling_params (prepare batch (FLAGS_block_size flags)))
      = map sampled (permute_batch is_prefill batch)"
  then show "snd (execute_model prepare flags workers batch) = Inr (map sampled batch)"
    by (simp add: execute_model_output unpermute_permute)
qed

text \<open>
  A batch of two decode and two prefill sequences, interleaved, each carrying the token
  it will be given; the packer passes the packed batch on and the worker answers with
  the tokens in packed order. The packed order is positions 1, 3, 0, 2, \<open>seq_indices\<close>
  is \<open>[2, 0, 3, 1]\<close>, and the engine returns the tokens in batch order.
\<close>

theorem output_order_round_trip_witness:
  "spec_seq_indices fst [(False, 10), (True, 11), (False, 12), (True, 13 :: nat)] = [2, 0, 3, 1] \<and>
   permute_batch fst [(False, 10), (True, 11), (False, 12), (True, 13 :: nat)] = [(True, 11), (True, 13), (False, 10), (False, 12)] \<and>
   index_select (permute_batch fst [(False, 10), (True, 11), (False, 12), (True, 13 :: nat)]) (spec_seq_indices fst [(False, 10), (True, 11), (False, 12), (True, 13 :: nat)]) = Inr [(False, 10), (True, 11), (False, 12), (True, 13 :: nat)] \<and>
   (2 :: nat) < length [(False, 10), (True, 11), (False, 12), (True, 13 :: nat)] \<and>
   permute_batch fst [(False, 10), (True, 11), (False, 12), (True, 13 :: nat)] ! (spec_seq_indices fst [(False, 10), (True, 11), (False, 12), (True, 13 :: nat)] ! 2) = (False, 12) \<and>
   snd (execute_model (\<lambda>b bs. \<lparr>input_token_ids = (), input_positions = (), seq_indices = spec_seq_indices fst b, input_params = permute_batch fst b, sampling_params = ()\<rparr>) default_flags
          [sound_worker (CUDA 0) (\<lambda>(t, p, i, s). map snd i)] [(False, 10), (True, 11), (False, 12), (True, 13 :: nat)]) = Inr [10, 11, 12, 13]"
proof -
  have order: "packed_order fst [(False, 10), (True, 11), (False, 12), (True, 13 :: nat)] = [1, 3, 0, 2]"
    by (simp add: packed_order_def)
  have idx: "spec_seq_indices fst [(False, 10), (True, 11), (False, 12), (True, 13 :: nat)] = [2, 0, 3, 1]"
    by (simp add: spec_seq_indices_def order)
  have packed: "permute_batch fst [(False, 10), (True, 11), (False, 12), (True, 13 :: nat)] = [(True, 11), (True, 13), (False, 10), (False, 12)]"
    by (simp add: permute_batch_def order)
  note round_trip = output_order_round_trip
    [where is_prefill = fst and batch = "[(False, 10), (True, 11), (False, 12), (True, 13 :: nat)]" and sampled = snd
       and prepare = "(\<lambda>b bs. \<lparr>input_token_ids = (), input_positions = (), seq_indices = spec_seq_indices fst b, input_params = permute_batch fst b, sampling_params = ()\<rparr>)"
       and flags = default_flags
       and workers = "[sound_worker (CUDA 0) (\<lambda>(t, p, i, s). map snd i)]"]
  have r1: "index_select [(True, 11), (True, 13), (False, 10), (False, 12)] [2, 0, 3, 1]
      = Inr [(False, 10), (True, 11), (False, 12), (True, 13 :: nat)]"
    using round_trip [THEN conjunct1] unfolding idx packed .
  have r2: "snd (execute_model (\<lambda>b bs. \<lparr>input_token_ids = (), input_positions = (), seq_indices = spec_seq_indices fst b, input_params = permute_batch fst b, sampling_params = ()\<rparr>) default_flags
          [sound_worker (CUDA 0) (\<lambda>(t, p, i, s). map snd i)] [(False, 10), (True, 11), (False, 12), (True, 13 :: nat)]) = Inr [10, 11, 12, 13]"
    using round_trip [THEN conjunct2, THEN conjunct2, THEN conjunct2] 
    by (simp add: sound_worker_def packed)
  have r3: "permute_batch fst [(False, 10), (True, 11), (False, 12), (True, 13 :: nat)] ! (spec_seq_indices fst [(False, 10), (True, 11), (False, 12), (True, 13 :: nat)] ! 2) = (False, 12)"
    using round_trip [THEN conjunct2, THEN conjunct2, THEN conjunct1, rule_format, of 2]
    by simp
  show ?thesis
    using r1 r2 r3 unfolding idx packed by simp
qed

section \<open>Dispatching a step\<close>

text \<open>
  C5. With exactly one worker the engine makes a single blocking \<open>execute_model\<close> call,
  on that worker; with \<open>W > 1\<close> workers it calls the asynchronous \<open>execute_model\<close> of every
  worker, in rank order, with the same token ids, positions, input parameters and
  sampling parameters, then waits for the \<open>W\<close> futures; in both cases what it returns is
  the output of the first worker, selected at \<open>seq_indices\<close>.
\<close>

theorem step_dispatch:
  "(length workers = 1 \<longrightarrow>
      fst (execute_model prepare flags workers batch) =
        [ExecuteModel 0
          (input_token_ids (prepare batch (FLAGS_block_size flags)),
           input_positions (prepare batch (FLAGS_block_size flags)),
           input_params (prepare batch (FLAGS_block_size flags)),
           sampling_params (prepare batch (FLAGS_block_size flags)))]) \<and>
   (1 < length workers \<longrightarrow>
      fst (execute_model prepare flags workers batch) =
        map (\<lambda>r. ExecuteModelAsync r
          (input_token_ids (prepare batch (FLAGS_block_size flags)),
           input_positions (prepare batch (FLAGS_block_size flags)),
           input_params (prepare batch (FLAGS_block_size flags)),
           sampling_params (prepare batch (FLAGS_block_size flags))))
          [0..<length workers]
        @ [CollectAll (length workers)]) \<and>
   (1 \<le> length workers \<longrightarrow>
      snd (execute_model prepare flags workers batch) =
        index_select
          (worker_execute_model (workers ! 0)
          (input_token_ids (prepare batch (FLAGS_block_size flags)),
           input_positions (prepare batch (FLAGS_block_size flags)),
           input_params (prepare batch (FLAGS_block_size flags)),
           sampling_params (prepare batch (FLAGS_block_size flags))))
          (seq_indices (prepare batch (FLAGS_block_size flags))))"
proof (intro conjI impI)
  assume "1 \<le> length workers"
  then have "workers \<noteq> []" by auto
  then show "snd (execute_model prepare flags workers batch) =
        index_select
          (worker_execute_model (workers ! 0)
          (input_token_ids (prepare batch (FLAGS_block_size flags)),
           input_positions (prepare batch (FLAGS_block_size flags)),
           input_params (prepare batch (FLAGS_block_size flags)),
           sampling_params (prepare batch (FLAGS_block_size flags))))
          (seq_indices (prepare batch (FLAGS_block_size flags)))"
    by (rule execute_model_output)
qed (simp_all add: execute_model_def Let_def)

text \<open>
  Two workers that disagree (the second answers in reverse): both are called with the
  same inputs, the futures are collected, and the answer of rank 0 is returned, selected
  at \<open>seq_indices = [1, 0]\<close>. A single worker is called once, blocking.
\<close>

theorem step_dispatch_witness:
  "length [sound_worker (CUDA 0) (\<lambda>(t, p, i, s). t)] = 1 \<and>
   execute_model (\<lambda>b bs. \<lparr>input_token_ids = b, input_positions = (), seq_indices = [1, 0], input_params = (), sampling_params = ()\<rparr>) default_flags [sound_worker (CUDA 0) (\<lambda>(t, p, i, s). t)] [7, 8 :: nat]
     = ([ExecuteModel 0 ([7, 8], (), (), ())], Inr [8, 7]) \<and>
   1 < length [sound_worker (CUDA 0) (\<lambda>(t, p, i, s). t), sound_worker (CUDA 1) (\<lambda>(t, p, i, s). rev t)] \<and>
   execute_model (\<lambda>b bs. \<lparr>input_token_ids = b, input_positions = (), seq_indices = [1, 0], input_params = (), sampling_params = ()\<rparr>) default_flags [sound_worker (CUDA 0) (\<lambda>(t, p, i, s). t), sound_worker (CUDA 1) (\<lambda>(t, p, i, s). rev t)] [7, 8 :: nat]
     = ([ExecuteModelAsync 0 ([7, 8], (), (), ()), ExecuteModelAsync 1 ([7, 8], (), (), ()),
         CollectAll 2], Inr [8, 7])"
proof -
  note one = step_dispatch [where workers = "[sound_worker (CUDA 0) (\<lambda>(t, p, i, s). t)]" and batch = "[7, 8 :: nat]"
      and flags = default_flags and prepare = "(\<lambda>b bs. \<lparr>input_token_ids = b, input_positions = (), seq_indices = [1, 0], input_params = (), sampling_params = ()\<rparr>)"]
  note two = step_dispatch [where workers = "[sound_worker (CUDA 0) (\<lambda>(t, p, i, s). t), sound_worker (CUDA 1) (\<lambda>(t, p, i, s). rev t)]" and batch = "[7, 8 :: nat]"
      and flags = default_flags and prepare = "(\<lambda>b bs. \<lparr>input_token_ids = b, input_positions = (), seq_indices = [1, 0], input_params = (), sampling_params = ()\<rparr>)"]
  have a: "execute_model (\<lambda>b bs. \<lparr>input_token_ids = b, input_positions = (), seq_indices = [1, 0], input_params = (), sampling_params = ()\<rparr>) default_flags [sound_worker (CUDA 0) (\<lambda>(t, p, i, s). t)] [7, 8 :: nat]
     = ([ExecuteModel 0 ([7, 8], (), (), ())], Inr [8, 7])"
    using one by (simp add: prod_eq_iff sound_worker_def index_select_def)
  have b: "execute_model (\<lambda>b bs. \<lparr>input_token_ids = b, input_positions = (), seq_indices = [1, 0], input_params = (), sampling_params = ()\<rparr>) default_flags [sound_worker (CUDA 0) (\<lambda>(t, p, i, s). t), sound_worker (CUDA 1) (\<lambda>(t, p, i, s). rev t)] [7, 8 :: nat]
     = ([ExecuteModelAsync 0 ([7, 8], (), (), ()), ExecuteModelAsync 1 ([7, 8], (), (), ()),
         CollectAll 2], Inr [8, 7])"
    using two by (simp add: prod_eq_iff sound_worker_def index_select_def)
  from a b show ?thesis by simp
qed

section \<open>A vocabulary size that disagrees\<close>

lemma init_model_outcome_any_vocab:
  "snd (init_model (model_loader\<lparr>loader_tokenizer := Some v\<rparr>) workers)
     = snd (init_model (model_loader\<lparr>loader_tokenizer := Some v'\<rparr>) workers)"
  by (simp add: init_model_def Let_def split: list.splits sum.splits)

lemma init_model_warnings:
  "workers \<noteq> [] \<Longrightarrow>
   parse_dtype (dtype (loader_model_args model_loader)) (worker_device (workers ! 0)) = Inr dt \<Longrightarrow>
   fst (init_model (model_loader\<lparr>loader_tokenizer := Some v\<rparr>) workers) =
     (if int v \<noteq> vocab_size (loader_model_args model_loader) mod 2 ^ 64
      then [VocabSizeMismatch v (vocab_size (loader_model_args model_loader))]
      else [])"
  by (cases workers) (simp_all add: init_model_def Let_def)

text \<open>
  C6. The outcome of \<open>init_model\<close> is the same for every vocabulary size of the
  tokenizer, so a mismatch with the model's vocabulary size never makes it fail; and
  once the dtype has been derived, the warnings logged are the mismatch warning when
  the two sizes differ and nothing when they agree.
\<close>

theorem vocab_mismatch_only_warns:
  "snd (init_model (model_loader\<lparr>loader_tokenizer := Some v\<rparr>) workers)
     = snd (init_model (model_loader\<lparr>loader_tokenizer := Some v'\<rparr>) workers) \<and>
   (workers \<noteq> [] \<and>
    parse_dtype (dtype (loader_model_args model_loader)) (worker_device (workers ! 0)) = Inr dt
    \<longrightarrow> fst (init_model (model_loader\<lparr>loader_tokenizer := Some v\<rparr>) workers) =
          (if int v \<noteq> vocab_size (loader_model_args model_loader) mod 2 ^ 64
           then [VocabSizeMismatch v (vocab_size (loader_model_args model_loader))]
           else []))"
  using init_model_outcome_any_vocab [where model_loader = model_loader and v = v
      and workers = workers and v' = v']
    init_model_warnings [where model_loader = model_loader and v = v
      and workers = workers and dt = dt]
  by blast

text \<open>
  The 7B LLaMA, whose model vocabulary is 32000, with a tokenizer of 32001 pieces, on
  one CUDA worker: the warning is logged and the initialization succeeds, as it does
  with a tokenizer of 32000 pieces.
\<close>

theorem vocab_mismatch_only_warns_witness:
  "[sound_worker (CUDA 0) (\<lambda>x :: unit. ())] \<noteq> [] \<and>
   parse_dtype (dtype llama_args)
     (worker_device ([sound_worker (CUDA 0) (\<lambda>x :: unit. ())] ! 0)) = Inr kHalf \<and>
   init_model \<lparr>loader_tokenizer = Some 32001, loader_model_args = llama_args,
                loader_quant_args = (), loader_state_dicts = [(), ()]\<rparr>
       [sound_worker (CUDA 0) (\<lambda>x :: unit. ())]
     = ([VocabSizeMismatch 32001 32000], Inr True) \<and>
   init_model \<lparr>loader_tokenizer = Some 32000, loader_model_args = llama_args,
                loader_quant_args = (), loader_state_dicts = [(), ()]\<rparr>
       [sound_worker (CUDA 0) (\<lambda>x :: unit. ())]
     = ([], Inr True)"
proof -
  have dt: "parse_dtype (dtype llama_args)
     (worker_device ([sound_worker (CUDA 0) (\<lambda>x :: unit. ())] ! 0)) = Inr kHalf"
  proof -
    have "parse_dtype ''float16'' (CUDA 0) = Inr kHalf"
      unfolding parse_dtype_refines_table dtype_of_table_def dtype_table_def upper_float16
      by simp
    then show ?thesis by (simp add: llama_args_def sound_worker_def)
  qed
  have ok: "snd (init_model \<lparr>loader_tokenizer = Some 32000, loader_model_args = llama_args,
                loader_quant_args = (), loader_state_dicts = [(), ()]\<rparr>
       [sound_worker (CUDA 0) (\<lambda>x :: unit. ())]) = Inr True"
    using dt by (simp add: init_model_def sound_worker_def)
  note inst = vocab_mismatch_only_warns
    [where model_loader = "\<lparr>loader_tokenizer = Some 32000, loader_model_args = llama_args,
                loader_quant_args = (), loader_state_dicts = [(), ()]\<rparr>"
       and workers = "[sound_worker (CUDA 0) (\<lambda>x :: unit. ())]" and dt = kHalf]
  have same: "snd (init_model \<lparr>loader_tokenizer = Some 32001, loader_model_args = llama_args,
                loader_quant_args = (), loader_state_dicts = [(), ()]\<rparr>
       [sound_worker (CUDA 0) (\<lambda>x :: unit. ())]) = Inr True"
    using inst [where v = 32001 and v' = 32000, THEN conjunct1] ok by simp
  have w1: "fst (init_model \<lparr>loader_tokenizer = Some 32001, loader_model_args = llama_args,
                loader_quant_args = (), loader_state_dicts = [(), ()]\<rparr>
       [sound_worker (CUDA 0) (\<lambda>x :: unit. ())]) = [VocabSizeMismatch 32001 32000]"
    using inst [where v = 32001, THEN conjunct2] dt by (simp add: llama_args_def)
  have w0: "fst (init_model \<lparr>loader_tokenizer = Some 32000, loader_model_args = llama_args,
                loader_quant_args = (), loader_state_dicts = [(), ()]\<rparr>
       [sound_worker (CUDA 0) (\<lambda>x :: unit. ())]) = []"
    using inst [where v = 32000, THEN conjunct2] dt by (simp add: llama_args_def)
  from dt ok same w1 w0 show ?thesis by (simp add: prod_eq_iff)
qed

section \<open>The fused QKV reshapes of MPT\<close>


lemma length_unravel: "length (unravel ss i) = length ss"
  by (induction ss arbitrary: i) simp_all

lemma unravel_bound: "i < prod_list ss \<Longrightarrow> list_all2 (<) (unravel ss i) ss"
proof (induction ss arbitrary: i)
  case Nil
  then show ?case by simp
next
  case (Cons s ss)
  from Cons.prems have pos: "0 < prod_list ss"
    by (cases "prod_list ss = 0") simp_all
  from Cons.prems have "i div prod_list ss < s"
    by (simp add: less_mult_imp_div_less mult.commute)
  moreover from pos have "i mod prod_list ss < prod_list ss" by simp
  ultimately show ?case using Cons.IH by simp
qed

lemma ravel_unravel: "i < prod_list ss \<Longrightarrow> ravel ss (unravel ss i) = i"
proof (induction ss arbitrary: i)
  case Nil
  then show ?case by simp
next
  case (Cons s ss)
  from Cons.prems have pos: "0 < prod_list ss"
    by (cases "prod_list ss = 0") simp_all
  then have "i mod prod_list ss < prod_list ss" by simp
  with Cons.IH show ?case by simp
qed

lemma ravel_bound: "list_all2 (<) m ss \<Longrightarrow> ravel ss m < prod_list ss"
proof (induction ss arbitrary: m)
  case Nil
  then show ?case by simp
next
  case (Cons s ss)
  then obtain i m' where m: "m = i # m'" and i: "i < s" and rest: "list_all2 (<) m' ss"
    by (auto simp: list_all2_Cons2)
  from Cons.IH [OF rest] have r: "ravel ss m' < prod_list ss" .
  have "i * prod_list ss + ravel ss m' < Suc i * prod_list ss"
    using r by simp
  also have "\<dots> \<le> s * prod_list ss"
    using i by (intro mult_le_mono1) simp
  finally show ?case by (simp add: m)
qed

lemma unravel_ravel: "list_all2 (<) m ss \<Longrightarrow> unravel ss (ravel ss m) = m"
proof (induction ss arbitrary: m)
  case Nil
  then show ?case by simp
next
  case (Cons s ss)
  then obtain i m' where m: "m = i # m'" and i: "i < s" and rest: "list_all2 (<) m' ss"
    by (auto simp: list_all2_Cons2)
  from ravel_bound [OF rest] have r: "ravel ss m' < prod_list ss" .
  with Cons.IH [OF rest] show ?case by (simp add: m)
qed


lemma upt_4: "[0..<4] = [0, 1, 2, 3]" and upt_3: "[0..<3] = [0, 1, 2]"
  by (simp_all add: upt_rec)

lemma permute_source_swap4:
  "unravel [b, a, c, d] j = [u0, u1, u2, u3] \<Longrightarrow>
     permute_source [1, 0, 2, 3] [a, b, c, d] j = ravel [a, b, c, d] [u1, u0, u2, u3]"
  by (simp add: permute_source_def upt_4 del: unravel.simps ravel.simps)

lemma permute_source_swap3:
  "unravel [b, a, c] j = [u0, u1, u2] \<Longrightarrow>
     permute_source [1, 0, 2] [a, b, c] j = ravel [a, b, c] [u1, u0, u2]"
  by (simp add: permute_source_def upt_3 del: unravel.simps ravel.simps)

lemma list4: "length xs = 4 \<Longrightarrow> \<exists>x0 x1 x2 x3. xs = [x0, x1, x2, x3]"
  by (cases xs; simp; cases "tl xs"; simp; cases "tl (tl xs)"; simp; cases "tl (tl (tl xs))"; simp)

lemma list3: "length xs = 3 \<Longrightarrow> \<exists>x0 x1 x2. xs = [x0, x1, x2]"
  by (cases xs; simp; cases "tl xs"; simp; cases "tl (tl xs)"; simp)

lemma swap4_twice:
  assumes k: "k < prod_list [a, b, c, d]"
  shows "permute_source [1, 0, 2, 3] [b, a, c, d] k < prod_list [b, a, c, d]"
    and "permute_source [1, 0, 2, 3] [a, b, c, d] (permute_source [1, 0, 2, 3] [b, a, c, d] k) = k"
proof -
  from list4 [of "unravel [a, b, c, d] k"] obtain v0 v1 v2 v3
    where v: "unravel [a, b, c, d] k = [v0, v1, v2, v3]"
    by (auto simp: length_unravel simp del: unravel.simps)
  from unravel_bound [OF k] v have bounds: "v0 < a" "v1 < b" "v2 < c" "v3 < d"
    by (simp_all del: unravel.simps)
  have src: "permute_source [1, 0, 2, 3] [b, a, c, d] k = ravel [b, a, c, d] [v1, v0, v2, v3]"
    using v by (rule permute_source_swap4)
  have in_range: "list_all2 (<) [v1, v0, v2, v3] [b, a, c, d]"
    using bounds by simp
  from ravel_bound [OF in_range] src
  show "permute_source [1, 0, 2, 3] [b, a, c, d] k < prod_list [b, a, c, d]"
    by (simp del: ravel.simps)
  have "unravel [b, a, c, d] (ravel [b, a, c, d] [v1, v0, v2, v3]) = [v1, v0, v2, v3]"
    using in_range by (rule unravel_ravel)
  then have "permute_source [1, 0, 2, 3] [a, b, c, d] (ravel [b, a, c, d] [v1, v0, v2, v3])
      = ravel [a, b, c, d] [v0, v1, v2, v3]"
    by (rule permute_source_swap4)
  also have "\<dots> = ravel [a, b, c, d] (unravel [a, b, c, d] k)"
    by (simp only: v)
  also have "\<dots> = k" using k by (rule ravel_unravel)
  finally show "permute_source [1, 0, 2, 3] [a, b, c, d] (permute_source [1, 0, 2, 3] [b, a, c, d] k) = k"
    by (simp only: src)
qed

lemma swap3_twice:
  assumes k: "k < prod_list [a, b, c]"
  shows "permute_source [1, 0, 2] [b, a, c] k < prod_list [b, a, c]"
    and "permute_source [1, 0, 2] [a, b, c] (permute_source [1, 0, 2] [b, a, c] k) = k"
proof -
  from list3 [of "unravel [a, b, c] k"] obtain v0 v1 v2
    where v: "unravel [a, b, c] k = [v0, v1, v2]"
    by (auto simp: length_unravel simp del: unravel.simps)
  from unravel_bound [OF k] v have bounds: "v0 < a" "v1 < b" "v2 < c"
    by (simp_all del: unravel.simps)
  have src: "permute_source [1, 0, 2] [b, a, c] k = ravel [b, a, c] [v1, v0, v2]"
    using v by (rule permute_source_swap3)
  have in_range: "list_all2 (<) [v1, v0, v2] [b, a, c]"
    using bounds by simp
  from ravel_bound [OF in_range] src
  show "permute_source [1, 0, 2] [b, a, c] k < prod_list [b, a, c]"
    by (simp del: ravel.simps)
  have "unravel [b, a, c] (ravel [b, a, c] [v1, v0, v2]) = [v1, v0, v2]"
    using in_range by (rule unravel_ravel)
  then have "permute_source [1, 0, 2] [a, b, c] (ravel [b, a, c] [v1, v0, v2])
      = ravel [a, b, c] [v0, v1, v2]"
    by (rule permute_source_swap3)
  also have "\<dots> = ravel [a, b, c] (unravel [a, b, c] k)"
    by (simp only: v)
  also have "\<dots> = k" using k by (rule ravel_unravel)
  finally show "permute_source [1, 0, 2] [a, b, c] (permute_source [1, 0, 2] [b, a, c] k) = k"
    by (simp only: src)
qed


lemma permute_swap4:
  "sizes t = [a, b, c, d] \<Longrightarrow>
     permute [1, 0, 2, 3] t =
       Inr \<lparr>sizes = [b, a, c, d],
            elems = map (\<lambda>j. elems t ! permute_source [1, 0, 2, 3] [a, b, c, d] j)
                      [0..<prod_list [b, a, c, d]]\<rparr>"
  by (simp add: permute_def)

lemma permute_swap3:
  "sizes t = [a, b, c] \<Longrightarrow>
     permute [1, 0, 2] t =
       Inr \<lparr>sizes = [b, a, c],
            elems = map (\<lambda>j. elems t ! permute_source [1, 0, 2] [a, b, c] j)
                      [0..<prod_list [b, a, c]]\<rparr>"
  by (simp add: permute_def)

lemma infer_4_second:
  assumes "0 < hdim" "0 < hsz"
  shows "infer_size [3, - 1, hdim, hsz] (3 * n * nat hdim * nat hsz) = Inr [3, n, nat hdim, nat hsz]"
proof -
  have "3 * n * nat hdim * nat hsz = n * (3 * (nat hdim * nat hsz))" by simp
  then show ?thesis using assms by (simp add: infer_size_def)
qed

lemma infer_4_first:
  assumes "0 < hdim" "0 < hsz"
  shows "infer_size [- 1, 3, hdim, hsz] (n * 3 * nat hdim * nat hsz) = Inr [n, 3, nat hdim, nat hsz]"
proof -
  have "n * 3 * nat hdim * nat hsz = n * (3 * (nat hdim * nat hsz))" by simp
  then show ?thesis using assms by (simp add: infer_size_def)
qed

lemma infer_2:
  assumes "0 < hsz"
  shows "infer_size [- 1, hsz] (m * nat hsz) = Inr [m, nat hsz]"
  using assms by (simp add: infer_size_def)

lemma infer_3_second:
  assumes "0 < hdim"
  shows "infer_size [3, - 1, hdim] (3 * n * nat hdim) = Inr [3, n, nat hdim]"
proof -
  have "3 * n * nat hdim = n * (3 * nat hdim)" by simp
  then show ?thesis using assms by (simp add: infer_size_def)
qed

lemma infer_3_first:
  assumes "0 < hdim"
  shows "infer_size [- 1, 3, hdim] (n * 3 * nat hdim) = Inr [n, 3, nat hdim]"
proof -
  have "n * 3 * nat hdim = n * (3 * nat hdim)" by simp
  then show ?thesis using assms by (simp add: infer_size_def)
qed

lemma infer_1: "infer_size [- 1] m = Inr [m]"
  by (simp add: infer_size_def)


lemma before_2d:
  assumes "0 < self_head_dim self" "0 < self_hidden_size self"
    and "sizes t = [3 * n * nat (self_head_dim self), nat (self_hidden_size self)]"
  shows "reshape_qkv_before_sharding self t =
    Inr \<lparr>sizes = [n * 3 * nat (self_head_dim self), nat (self_hidden_size self)],
         elems = map (\<lambda>j. elems t ! permute_source [1, 0, 2, 3]
                              [3, n, nat (self_head_dim self), nat (self_hidden_size self)] j)
                   [0..<prod_list [n, 3, nat (self_head_dim self), nat (self_hidden_size self)]]\<rparr>"
proof -
  have v: "view [3, - 1, self_head_dim self, self_hidden_size self] t =
      Inr (t\<lparr>sizes := [3, n, nat (self_head_dim self), nat (self_hidden_size self)]\<rparr>)"
    using infer_4_second [OF assms(1,2), of n] assms(3)
    by (simp add: view_def numel_def)
  have r: "reshape [- 1, self_hidden_size self] (p :: 'a tensor) =
      Inr (p\<lparr>sizes := [n * 3 * nat (self_head_dim self), nat (self_hidden_size self)]\<rparr>)"
    if "sizes p = [n, 3, nat (self_head_dim self), nat (self_hidden_size self)]" for p
    using infer_2 [OF assms(2), of "n * 3 * nat (self_head_dim self)"] that
    by (simp add: reshape_def view_def numel_def mult.assoc)
  show ?thesis
    using assms(3)
    by (simp add: reshape_qkv_before_sharding_def v and_then_def permute_swap4 [unfolded One_nat_def] r
          del: prod_list.Cons)
qed

lemma after_2d:
  assumes "0 < self_head_dim self" "0 < self_hidden_size self"
    and "sizes t = [n * 3 * nat (self_head_dim self), nat (self_hidden_size self)]"
  shows "reshape_qkv_after_sharding self t =
    Inr \<lparr>sizes = [3 * n * nat (self_head_dim self), nat (self_hidden_size self)],
         elems = map (\<lambda>j. elems t ! permute_source [1, 0, 2, 3]
                              [n, 3, nat (self_head_dim self), nat (self_hidden_size self)] j)
                   [0..<prod_list [3, n, nat (self_head_dim self), nat (self_hidden_size self)]]\<rparr>"
proof -
  have v: "view [- 1, 3, self_head_dim self, self_hidden_size self] t =
      Inr (t\<lparr>sizes := [n, 3, nat (self_head_dim self), nat (self_hidden_size self)]\<rparr>)"
    using infer_4_first [OF assms(1,2), of n] assms(3)
    by (simp add: view_def numel_def)
  have r: "reshape [- 1, self_hidden_size self] (p :: 'a tensor) =
      Inr (p\<lparr>sizes := [3 * n * nat (self_head_dim self), nat (self_hidden_size self)]\<rparr>)"
    if "sizes p = [3, n, nat (self_head_dim self), nat (self_hidden_size self)]" for p
    using infer_2 [OF assms(2), of "3 * n * nat (self_head_dim self)"] that
    by (simp add: reshape_def view_def numel_def mult.assoc)
  show ?thesis
    using assms(3)
    by (simp add: reshape_qkv_after_sharding_def v and_then_def permute_swap4 [unfolded One_nat_def] r
          del: prod_list.Cons)
qed

lemma before_1d:
  assumes "0 < self_head_dim self"
    and "sizes t = [3 * n * nat (self_head_dim self)]"
  shows "reshape_qkv_before_sharding self t =
    Inr \<lparr>sizes = [n * 3 * nat (self_head_dim self)],
         elems = map (\<lambda>j. elems t ! permute_source [1, 0, 2] [3, n, nat (self_head_dim self)] j)
                   [0..<prod_list [n, 3, nat (self_head_dim self)]]\<rparr>"
proof -
  have v: "view [3, - 1, self_head_dim self] t =
      Inr (t\<lparr>sizes := [3, n, nat (self_head_dim self)]\<rparr>)"
    using infer_3_second [OF assms(1), of n] assms(2)
    by (simp add: view_def numel_def)
  have r: "reshape [- 1] (p :: 'a tensor) = Inr (p\<lparr>sizes := [n * 3 * nat (self_head_dim self)]\<rparr>)"
    if "sizes p = [n, 3, nat (self_head_dim self)]" for p
    using that by (simp add: reshape_def view_def numel_def infer_1 mult.assoc)
  show ?thesis
    using assms(2)
    by (simp add: reshape_qkv_before_sharding_def v and_then_def permute_swap3 [unfolded One_nat_def] r
          del: prod_list.Cons)
qed

lemma after_1d:
  assumes "0 < self_head_dim self"
    and "sizes t = [n * 3 * nat (self_head_dim self)]"
  shows "reshape_qkv_after_sharding self t =
    Inr \<lparr>sizes = [3 * n * nat (self_head_dim self)],
         elems = map (\<lambda>j. elems t ! permute_source [1, 0, 2] [n, 3, nat (self_head_dim self)] j)
                   [0..<prod_list [3, n, nat (self_head_dim self)]]\<rparr>"
proof -
  have v: "view [- 1, 3, self_head_dim self] t =
      Inr (t\<lparr>sizes := [n, 3, nat (self_head_dim self)]\<rparr>)"
    using infer_3_first [OF assms(1), of n] assms(2)
    by (simp add: view_def numel_def)
  have r: "reshape [- 1] (p :: 'a tensor) = Inr (p\<lparr>sizes := [3 * n * nat (self_head_dim self)]\<rparr>)"
    if "sizes p = [3, n, nat (self_head_dim self)]" for p
    using that by (simp add: reshape_def view_def numel_def infer_1 mult.assoc)
  show ?thesis
    using assms(2)
    by (simp add: reshape_qkv_after_sharding_def v and_then_def permute_swap3 [unfolded One_nat_def] r
          del: prod_list.Cons)
qed


lemma gather_twice:
  assumes "length xs = N" and "\<And>k. k < N \<Longrightarrow> g k < M \<and> f (g k) = k"
  shows "map (\<lambda>k. map (\<lambda>j. xs ! f j) [0..<M] ! g k) [0..<N] = xs"
proof (rule nth_equalityI)
  show "length (map (\<lambda>k. map (\<lambda>j. xs ! f j) [0..<M] ! g k) [0..<N]) = length xs"
    using assms(1) by simp
next
  fix i assume "i < length (map (\<lambda>k. map (\<lambda>j. xs ! f j) [0..<M] ! g k) [0..<N])"
  then have i: "i < N" by simp
  from assms(2) [OF i] i
  show "map (\<lambda>k. map (\<lambda>j. xs ! f j) [0..<M] ! g k) [0..<N] ! i = xs ! i"
    by simp
qed

lemma round_trip_2d:
  assumes pos: "0 < self_head_dim self" "0 < self_hidden_size self"
    and wf: "well_formed t"
    and shape: "sizes t = [3 * n * nat (self_head_dim self), nat (self_hidden_size self)]"
  shows "\<exists>t'. reshape_qkv_before_sharding self t = Inr t' \<and>
     sizes t' = [n * 3 * nat (self_head_dim self), nat (self_hidden_size self)] \<and>
     (\<forall>h<n. \<forall>q<3. \<forall>x<nat (self_head_dim self). \<forall>y<nat (self_hidden_size self).
        elems t' ! ravel [n, 3, nat (self_head_dim self), nat (self_hidden_size self)] [h, q, x, y]
          = elems t ! ravel [3, n, nat (self_head_dim self), nat (self_hidden_size self)] [q, h, x, y]) \<and>
     reshape_qkv_after_sharding self t' = Inr t"
proof -
  define HD where "HD = nat (self_head_dim self)"
  define HS where "HS = nat (self_hidden_size self)"
  define t' where "t' = \<lparr>sizes = [n * 3 * HD, HS],
         elems = map (\<lambda>j. elems t ! permute_source [1, 0, 2, 3] [3, n, HD, HS] j)
                   [0..<prod_list [n, 3, HD, HS]]\<rparr>"
  have before: "reshape_qkv_before_sharding self t = Inr t'"
    unfolding t'_def HD_def HS_def using pos shape by (rule before_2d)
  have size': "sizes t' = [n * 3 * HD, HS]" by (simp add: t'_def)
  have layout: "elems t' ! ravel [n, 3, HD, HS] [h, q, x, y] = elems t ! ravel [3, n, HD, HS] [q, h, x, y]"
    if "h < n" "q < 3" "x < HD" "y < HS" for h q x y
  proof -
    from that have in_range: "list_all2 (<) [h, q, x, y] [n, 3, HD, HS]" by simp
    from ravel_bound [OF in_range]
    have "elems t' ! ravel [n, 3, HD, HS] [h, q, x, y]
        = elems t ! permute_source [1, 0, 2, 3] [3, n, HD, HS] (ravel [n, 3, HD, HS] [h, q, x, y])"
      by (simp add: t'_def del: ravel.simps prod_list.Cons)
    also have "permute_source [1, 0, 2, 3] [3, n, HD, HS] (ravel [n, 3, HD, HS] [h, q, x, y])
        = ravel [3, n, HD, HS] [q, h, x, y]"
      using unravel_ravel [OF in_range] by (rule permute_source_swap4)
    finally show ?thesis .
  qed
  have after: "reshape_qkv_after_sharding self t' =
      Inr \<lparr>sizes = [3 * n * HD, HS],
         elems = map (\<lambda>j. elems t' ! permute_source [1, 0, 2, 3] [n, 3, HD, HS] j)
                   [0..<prod_list [3, n, HD, HS]]\<rparr>"
    unfolding HD_def HS_def using pos size' [unfolded HD_def HS_def] by (rule after_2d)
  have len: "length (elems t) = prod_list [3, n, HD, HS]"
    using wf shape by (simp add: well_formed_def numel_def HD_def HS_def mult.assoc)
  have "map (\<lambda>k. elems t' ! permute_source [1, 0, 2, 3] [n, 3, HD, HS] k)
          [0..<prod_list [3, n, HD, HS]] = elems t"
    unfolding t'_def tensor.simps
  proof (rule gather_twice [OF len])
    fix k assume "k < prod_list [3, n, HD, HS]"
    then show "permute_source [1, 0, 2, 3] [n, 3, HD, HS] k < prod_list [n, 3, HD, HS] \<and>
      permute_source [1, 0, 2, 3] [3, n, HD, HS] (permute_source [1, 0, 2, 3] [n, 3, HD, HS] k) = k"
      by (intro conjI swap4_twice)
  qed
  with after shape have "reshape_qkv_after_sharding self t' = Inr t"
    by (simp add: HD_def HS_def)
  with before size' layout show ?thesis
    unfolding HD_def HS_def by blast
qed


lemma round_trip_1d:
  assumes pos: "0 < self_head_dim self"
    and wf: "well_formed t"
    and shape: "sizes t = [3 * n * nat (self_head_dim self)]"
  shows "\<exists>t'. reshape_qkv_before_sharding self t = Inr t' \<and>
     sizes t' = [n * 3 * nat (self_head_dim self)] \<and>
     (\<forall>h<n. \<forall>q<3. \<forall>x<nat (self_head_dim self).
        elems t' ! ravel [n, 3, nat (self_head_dim self)] [h, q, x]
          = elems t ! ravel [3, n, nat (self_head_dim self)] [q, h, x]) \<and>
     reshape_qkv_after_sharding self t' = Inr t"
proof -
  define HD where "HD = nat (self_head_dim self)"
  define t' where "t' = \<lparr>sizes = [n * 3 * HD],
         elems = map (\<lambda>j. elems t ! permute_source [1, 0, 2] [3, n, HD] j)
                   [0..<prod_list [n, 3, HD]]\<rparr>"
  have before: "reshape_qkv_before_sharding self t = Inr t'"
    unfolding t'_def HD_def using pos shape by (rule before_1d)
  have size': "sizes t' = [n * 3 * HD]" by (simp add: t'_def)
  have layout: "elems t' ! ravel [n, 3, HD] [h, q, x] = elems t ! ravel [3, n, HD] [q, h, x]"
    if "h < n" "q < 3" "x < HD" for h q x
  proof -
    from that have in_range: "list_all2 (<) [h, q, x] [n, 3, HD]" by simp
    from ravel_bound [OF in_range]
    have "elems t' ! ravel [n, 3, HD] [h, q, x]
        = elems t ! permute_source [1, 0, 2] [3, n, HD] (ravel [n, 3, HD] [h, q, x])"
      by (simp add: t'_def del: ravel.simps prod_list.Cons)
    also have "permute_source [1, 0, 2] [3, n, HD] (ravel [n, 3, HD] [h, q, x])
        = ravel [3, n, HD] [q, h, x]"
      using unravel_ravel [OF in_range] by (rule permute_source_swap3)
    finally show ?thesis .
  qed
  have after: "reshape_qkv_after_sharding self t' =
      Inr \<lparr>sizes = [3 * n * HD],
         elems = map (\<lambda>j. elems t' ! permute_source [1, 0, 2] [n, 3, HD] j)
                   [0..<prod_list [3, n, HD]]\<rparr>"
    unfolding HD_def using pos size' [unfolded HD_def] by (rule after_1d)
  have len: "length (elems t) = prod_list [3, n, HD]"
    using wf shape by (simp add: well_formed_def numel_def HD_def mult.assoc)
  have "map (\<lambda>k. elems t' ! permute_source [1, 0, 2] [n, 3, HD] k)
          [0..<prod_list [3, n, HD]] = elems t"
    unfolding t'_def tensor.simps
  proof (rule gather_twice [OF len])
    fix k assume "k < prod_list [3, n, HD]"
    then show "permute_source [1, 0, 2] [n, 3, HD] k < prod_list [n, 3, HD] \<and>
      permute_source [1, 0, 2] [3, n, HD] (permute_source [1, 0, 2] [n, 3, HD] k) = k"
      by (intro conjI swap3_twice)
  qed
  with after shape have "reshape_qkv_after_sharding self t' = Inr t"
    by (simp add: HD_def)
  with before size' layout show ?thesis
    unfolding HD_def by blast
qed

text \<open>
  C7. For positive head dimension and hidden size and every number \<open>n\<close> of heads: on a
  well-formed 2-D weight of shape \<open>[3 * n * head_dim, hidden_size]\<close> and on a well-formed
  1-D bias of shape \<open>[3 * n * head_dim]\<close>, \<open>reshape_qkv_before_sharding\<close> succeeds, its
  result has the element that the \<open>[3, n, \<dots>]\<close> layout holds at \<open>(q, h, \<dots>)\<close> at position
  \<open>(h, q, \<dots>)\<close> of the \<open>[n, 3, \<dots>]\<close> layout, and \<open>reshape_qkv_after_sharding\<close> maps that
  result back to the original tensor.
\<close>

theorem qkv_reshape_round_trip:
  "(0 < self_head_dim self \<and> 0 < self_hidden_size self \<and> well_formed t \<and>
    sizes t = [3 * n * nat (self_head_dim self), nat (self_hidden_size self)] \<longrightarrow>
      (\<exists>t'. reshape_qkv_before_sharding self t = Inr t' \<and>
         sizes t' = [n * 3 * nat (self_head_dim self), nat (self_hidden_size self)] \<and>
         (\<forall>h<n. \<forall>q<3. \<forall>x<nat (self_head_dim self). \<forall>y<nat (self_hidden_size self).
            elems t' ! ravel [n, 3, nat (self_head_dim self), nat (self_hidden_size self)] [h, q, x, y]
              = elems t ! ravel [3, n, nat (self_head_dim self), nat (self_hidden_size self)] [q, h, x, y]) \<and>
         reshape_qkv_after_sharding self t' = Inr t)) \<and>
   (0 < self_head_dim self \<and> well_formed t \<and>
    sizes t = [3 * n * nat (self_head_dim self)] \<longrightarrow>
      (\<exists>t'. reshape_qkv_before_sharding self t = Inr t' \<and>
         sizes t' = [n * 3 * nat (self_head_dim self)] \<and>
         (\<forall>h<n. \<forall>q<3. \<forall>x<nat (self_head_dim self).
            elems t' ! ravel [n, 3, nat (self_head_dim self)] [h, q, x]
              = elems t ! ravel [3, n, nat (self_head_dim self)] [q, h, x]) \<and>
         reshape_qkv_after_sharding self t' = Inr t))"
  using round_trip_2d [of self t n] round_trip_1d [of self t n] by blast

text \<open>
  Two heads of dimension 1 and hidden size 2: the rows \<open>q0, q1, k0, k1, v0, v1\<close> of the
  weight become \<open>q0, k0, v0, q1, k1, v1\<close>, likewise the entries of the bias, and the
  second reshape restores both.
\<close>

theorem qkv_reshape_round_trip_witness:
  "0 < self_head_dim \<lparr>self_hidden_size = 2, self_head_dim = 1\<rparr> \<and> 0 < self_hidden_size \<lparr>self_hidden_size = 2, self_head_dim = 1\<rparr> \<and>
   well_formed \<lparr>sizes = [6, 2], elems = [0, 1, 2, 3, 4, 5, 6, 7, 8, 9, 10, 11 :: nat]\<rparr> \<and>
   sizes \<lparr>sizes = [6, 2], elems = [0, 1, 2, 3, 4, 5, 6, 7, 8, 9, 10, 11 :: nat]\<rparr> = [3 * 2 * nat (self_head_dim \<lparr>self_hidden_size = 2, self_head_dim = 1\<rparr>), nat (self_hidden_size \<lparr>self_hidden_size = 2, self_head_dim = 1\<rparr>)] \<and>
   reshape_qkv_before_sharding \<lparr>self_hidden_size = 2, self_head_dim = 1\<rparr> \<lparr>sizes = [6, 2], elems = [0, 1, 2, 3, 4, 5, 6, 7, 8, 9, 10, 11 :: nat]\<rparr>
     = Inr \<lparr>sizes = [6, 2], elems = [0, 1, 4, 5, 8, 9, 2, 3, 6, 7, 10, 11 :: nat]\<rparr> \<and>
   reshape_qkv_after_sharding \<lparr>self_hidden_size = 2, self_head_dim = 1\<rparr> \<lparr>sizes = [6, 2], elems = [0, 1, 4, 5, 8, 9, 2, 3, 6, 7, 10, 11 :: nat]\<rparr>
     = Inr \<lparr>sizes = [6, 2], elems = [0, 1, 2, 3, 4, 5, 6, 7, 8, 9, 10, 11 :: nat]\<rparr> \<and>
   well_formed \<lparr>sizes = [6], elems = [0, 1, 2, 3, 4, 5 :: nat]\<rparr> \<and>
   sizes \<lparr>sizes = [6], elems = [0, 1, 2, 3, 4, 5 :: nat]\<rparr> = [3 * 2 * nat (self_head_dim \<lparr>self_hidden_size = 2, self_head_dim = 1\<rparr>)] \<and>
   reshape_qkv_before_sharding \<lparr>self_hidden_size = 2, self_head_dim = 1\<rparr> \<lparr>sizes = [6], elems = [0, 1, 2, 3, 4, 5 :: nat]\<rparr> = Inr \<lparr>sizes = [6], elems = [0, 2, 4, 1, 3, 5 :: nat]\<rparr> \<and>
   reshape_qkv_after_sharding \<lparr>self_hidden_size = 2, self_head_dim = 1\<rparr> \<lparr>sizes = [6], elems = [0, 2, 4, 1, 3, 5 :: nat]\<rparr> = Inr \<lparr>sizes = [6], elems = [0, 1, 2, 3, 4, 5 :: nat]\<rparr>"
proof -
  have pre2: "0 < self_head_dim \<lparr>self_hidden_size = 2, self_head_dim = 1\<rparr> \<and> 0 < self_hidden_size \<lparr>self_hidden_size = 2, self_head_dim = 1\<rparr> \<and>
      well_formed \<lparr>sizes = [6, 2], elems = [0, 1, 2, 3, 4, 5, 6, 7, 8, 9, 10, 11 :: nat]\<rparr> \<and>
      sizes \<lparr>sizes = [6, 2], elems = [0, 1, 2, 3, 4, 5, 6, 7, 8, 9, 10, 11 :: nat]\<rparr> = [3 * 2 * nat (self_head_dim \<lparr>self_hidden_size = 2, self_head_dim = 1\<rparr>), nat (self_hidden_size \<lparr>self_hidden_size = 2, self_head_dim = 1\<rparr>)]"
    by (simp add: well_formed_def numel_def)
  have pre1: "0 < self_head_dim \<lparr>self_hidden_size = 2, self_head_dim = 1\<rparr> \<and> well_formed \<lparr>sizes = [6], elems = [0, 1, 2, 3, 4, 5 :: nat]\<rparr> \<and>
      sizes \<lparr>sizes = [6], elems = [0, 1, 2, 3, 4, 5 :: nat]\<rparr> = [3 * 2 * nat (self_head_dim \<lparr>self_hidden_size = 2, self_head_dim = 1\<rparr>)]"
    by (simp add: well_formed_def numel_def)
  have b2: "reshape_qkv_before_sharding \<lparr>self_hidden_size = 2, self_head_dim = 1\<rparr> \<lparr>sizes = [6, 2], elems = [0, 1, 2, 3, 4, 5, 6, 7, 8, 9, 10, 11 :: nat]\<rparr>
     = Inr \<lparr>sizes = [6, 2], elems = [0, 1, 4, 5, 8, 9, 2, 3, 6, 7, 10, 11 :: nat]\<rparr>"
    by code_simp
  have b1: "reshape_qkv_before_sharding \<lparr>self_hidden_size = 2, self_head_dim = 1\<rparr> \<lparr>sizes = [6], elems = [0, 1, 2, 3, 4, 5 :: nat]\<rparr> = Inr \<lparr>sizes = [6], elems = [0, 2, 4, 1, 3, 5 :: nat]\<rparr>"
    by code_simp
  from qkv_reshape_round_trip [THEN conjunct1, rule_format, OF pre2] b2
  have a2: "reshape_qkv_after_sharding \<lparr>self_hidden_size = 2, self_head_dim = 1\<rparr> \<lparr>sizes = [6, 2], elems = [0, 1, 4, 5, 8, 9, 2, 3, 6, 7, 10, 11 :: nat]\<rparr>
     = Inr \<lparr>sizes = [6, 2], elems = [0, 1, 2, 3, 4, 5, 6, 7, 8, 9, 10, 11 :: nat]\<rparr>"
    by auto
  from qkv_reshape_round_trip [THEN conjunct2, rule_format, OF pre1] b1
  have a1: "reshape_qkv_after_sharding \<lparr>self_hidden_size = 2, self_head_dim = 1\<rparr> \<lparr>sizes = [6], elems = [0, 2, 4, 1, 3, 5 :: nat]\<rparr> = Inr \<lparr>sizes = [6], elems = [0, 1, 2, 3, 4, 5 :: nat]\<rparr>"
    by auto
  from pre2 pre1 b2 b1 a2 a1 show ?thesis by simp
qed

section \<open>Registry: the first registration wins\<close>


lemmas registry_defs =
  register_causallm_factory_def register_model_args_loader_def
  register_quant_args_loader_def register_dialog_factory_def
  get_causallm_factory_def get_model_args_loader_def
  get_quant_args_loader_def get_dialog_factory_def
  subscript_def empty_meta_def

lemma perform_keeps_causallm:
  "snd (get_causallm_factory name reg) = Some f
   \<Longrightarrow> snd (get_causallm_factory name (perform c reg)) = Some f"
  by (cases c) (auto simp: registry_defs split: option.splits)

lemma perform_keeps_model_args:
  "snd (get_model_args_loader name reg) = Some f
   \<Longrightarrow> snd (get_model_args_loader name (perform c reg)) = Some f"
  by (cases c) (auto simp: registry_defs split: option.splits)

lemma perform_keeps_quant_args:
  "snd (get_quant_args_loader name reg) = Some f
   \<Longrightarrow> snd (get_quant_args_loader name (perform c reg)) = Some f"
  by (cases c) (auto simp: registry_defs split: option.splits)

lemma perform_keeps_dialog:
  "snd (get_dialog_factory name reg) = Some f
   \<Longrightarrow> snd (get_dialog_factory name (perform c reg)) = Some f"
  by (cases c) (auto simp: registry_defs split: option.splits)

lemma perform_all_keeps_causallm:
  "snd (get_causallm_factory name reg) = Some f
   \<Longrightarrow> snd (get_causallm_factory name (perform_all cs reg)) = Some f"
  by (induction cs arbitrary: reg) (simp_all add: perform_keeps_causallm)

lemma perform_all_keeps_model_args:
  "snd (get_model_args_loader name reg) = Some f
   \<Longrightarrow> snd (get_model_args_loader name (perform_all cs reg)) = Some f"
  by (induction cs arbitrary: reg) (simp_all add: perform_keeps_model_args)

lemma perform_all_keeps_quant_args:
  "snd (get_quant_args_loader name reg) = Some f
   \<Longrightarrow> snd (get_quant_args_loader name (perform_all cs reg)) = Some f"
  by (induction cs arbitrary: reg) (simp_all add: perform_keeps_quant_args)

lemma perform_all_keeps_dialog:
  "snd (get_dialog_factory name reg) = Some f
   \<Longrightarrow> snd (get_dialog_factory name (perform_all cs reg)) = Some f"
  by (induction cs arbitrary: reg) (simp_all add: perform_keeps_dialog)

lemma perform_keeps_null_causallm:
  "snd (get_causallm_factory name reg) = None \<Longrightarrow> registers_causallm c \<noteq> Some name
   \<Longrightarrow> snd (get_causallm_factory name (perform c reg)) = None"
  by (cases c) (auto simp: registry_defs split: option.splits)

lemma perform_keeps_null_model_args:
  "snd (get_model_args_loader name reg) = None \<Longrightarrow> registers_model_args c \<noteq> Some name
   \<Longrightarrow> snd (get_model_args_loader name (perform c reg)) = None"
  by (cases c) (auto simp: registry_defs split: option.splits)

lemma perform_keeps_null_quant_args:
  "snd (get_quant_args_loader name reg) = None \<Longrightarrow> registers_quant_args c \<noteq> Some name
   \<Longrightarrow> snd (get_quant_args_loader name (perform c reg)) = None"
  by (cases c) (auto simp: registry_defs split: option.splits)

lemma perform_keeps_null_dialog:
  "snd (get_dialog_factory name reg) = None \<Longrightarrow> registers_dialog c \<noteq> Some name
   \<Longrightarrow> snd (get_dialog_factory name (perform c reg)) = None"
  by (cases c) (auto simp: registry_defs split: option.splits)

lemma perform_all_keeps_null_causallm:
  "snd (get_causallm_factory name reg) = None
   \<Longrightarrow> list_all (\<lambda>c. registers_causallm c \<noteq> Some name) cs
   \<Longrightarrow> snd (get_causallm_factory name (perform_all cs reg)) = None"
  by (induction cs arbitrary: reg) (simp_all add: perform_keeps_null_causallm)

lemma perform_all_keeps_null_model_args:
  "snd (get_model_args_loader name reg) = None
   \<Longrightarrow> list_all (\<lambda>c. registers_model_args c \<noteq> Some name) cs
   \<Longrightarrow> snd (get_model_args_loader name (perform_all cs reg)) = None"
  by (induction cs arbitrary: reg) (simp_all add: perform_keeps_null_model_args)

lemma perform_all_keeps_null_quant_args:
  "snd (get_quant_args_loader name reg) = None
   \<Longrightarrow> list_all (\<lambda>c. registers_quant_args c \<noteq> Some name) cs
   \<Longrightarrow> snd (get_quant_args_loader name (perform_all cs reg)) = None"
  by (induction cs arbitrary: reg) (simp_all add: perform_keeps_null_quant_args)

lemma perform_all_keeps_null_dialog:
  "snd (get_dialog_factory name reg) = None
   \<Longrightarrow> list_all (\<lambda>c. registers_dialog c \<noteq> Some name) cs
   \<Longrightarrow> snd (get_dialog_factory name (perform_all cs reg)) = None"
  by (induction cs arbitrary: reg) (simp_all add: perform_keeps_null_dialog)

lemma empty_registry_null:
  "snd (get_causallm_factory name Map.empty) = None"
  "snd (get_model_args_loader name Map.empty) = None"
  "snd (get_quant_args_loader name Map.empty) = None"
  "snd (get_dialog_factory name Map.empty) = None"
  by (simp_all add: registry_defs)

lemma register_again:
  "snd (get_causallm_factory name reg) = Some f \<Longrightarrow>
     register_causallm_factory name g reg
       = (reg, [''causal lm factory for '' @ name @ ''already registered.''])"
  "snd (get_model_args_loader name reg) = Some m \<Longrightarrow>
     register_model_args_loader name g' reg
       = (reg, [''model args loader for '' @ name @ ''already registered.''])"
  "snd (get_quant_args_loader name reg) = Some q \<Longrightarrow>
     register_quant_args_loader name g'' reg
       = (reg, [''quant args loader for '' @ name @ ''already registered.''])"
  "snd (get_dialog_factory name reg) = Some d \<Longrightarrow>
     register_dialog_factory name g''' reg
       = (reg, [''dialog factory for '' @ name @ ''already registered.''])"
  by (auto simp: registry_defs split: option.splits)

lemma register_first:
  "snd (get_causallm_factory name reg) = None \<Longrightarrow>
     snd (get_causallm_factory name (fst (register_causallm_factory name x reg))) = x"
  "snd (get_model_args_loader name reg) = None \<Longrightarrow>
     snd (get_model_args_loader name (fst (register_model_args_loader name y reg))) = y"
  "snd (get_quant_args_loader name reg) = None \<Longrightarrow>
     snd (get_quant_args_loader name (fst (register_quant_args_loader name z reg))) = z"
  "snd (get_dialog_factory name reg) = None \<Longrightarrow>
     snd (get_dialog_factory name (fst (register_dialog_factory name u reg))) = u"
  by (auto simp: registry_defs split: option.splits)

text \<open>
  C8. For each of the four kinds of entry: once a non-null entry has been registered
  under a name whose entry of that kind was null, then after any further calls \<open>cs\<close> of
  the registry's functions (registrations under the same name among them) the lookup
  returns that first entry, and one more registration under the name returns the
  registry as it was, with one warning; and after a history of calls none of which
  registers an entry of that kind under a name, starting from the empty registry, the
  lookup of the name returns the null entry.
\<close>

theorem first_registration_wins:
  fixes reg :: "('f, 'd, 'm, 'q) ModelRegistry"
    and cs :: "('f, 'd, 'm, 'q) registry_call list"
  shows
  "(snd (get_causallm_factory name reg) = None \<longrightarrow>
      snd (get_causallm_factory name
             (perform_all cs (fst (register_causallm_factory name (Some f) reg)))) = Some f \<and>
      register_causallm_factory name g
          (perform_all cs (fst (register_causallm_factory name (Some f) reg)))
        = (perform_all cs (fst (register_causallm_factory name (Some f) reg)),
           [''causal lm factory for '' @ name @ ''already registered.''])) \<and>
   (list_all (\<lambda>c. registers_causallm c \<noteq> Some name) cs \<longrightarrow>
      snd (get_causallm_factory name (perform_all cs Map.empty)) = None) \<and>
   (snd (get_model_args_loader name reg) = None \<longrightarrow>
      snd (get_model_args_loader name
             (perform_all cs (fst (register_model_args_loader name (Some m) reg)))) = Some m \<and>
      register_model_args_loader name gm
          (perform_all cs (fst (register_model_args_loader name (Some m) reg)))
        = (perform_all cs (fst (register_model_args_loader name (Some m) reg)),
           [''model args loader for '' @ name @ ''already registered.''])) \<and>
   (list_all (\<lambda>c. registers_model_args c \<noteq> Some name) cs \<longrightarrow>
      snd (get_model_args_loader name (perform_all cs Map.empty)) = None) \<and>
   (snd (get_quant_args_loader name reg) = None \<longrightarrow>
      snd (get_quant_args_loader name
             (perform_all cs (fst (register_quant_args_loader name (Some q) reg)))) = Some q \<and>
      register_quant_args_loader name gq
          (perform_all cs (fst (register_quant_args_loader name (Some q) reg)))
        = (perform_all cs (fst (register_quant_args_loader name (Some q) reg)),
           [''quant args loader for '' @ name @ ''already registered.''])) \<and>
   (list_all (\<lambda>c. registers_quant_args c \<noteq> Some name) cs \<longrightarrow>
      snd (get_quant_args_loader name (perform_all cs Map.empty)) = None) \<and>
   (snd (get_dialog_factory name reg) = None \<longrightarrow>
      snd (get_dialog_factory name
             (perform_all cs (fst (register_dialog_factory name (Some d) reg)))) = Some d \<and>
      register_dialog_factory name gd
          (perform_all cs (fst (register_dialog_factory name (Some d) reg)))
        = (perform_all cs (fst (register_dialog_factory name (Some d) reg)),
           [''dialog factory for '' @ name @ ''already registered.''])) \<and>
   (list_all (\<lambda>c. registers_dialog c \<noteq> Some name) cs \<longrightarrow>
      snd (get_dialog_factory name (perform_all cs Map.empty)) = None)"
proof -
  show ?thesis
    by (intro conjI impI
          perform_all_keeps_null_causallm perform_all_keeps_null_model_args
          perform_all_keeps_null_quant_args perform_all_keeps_null_dialog
          empty_registry_null
          register_again(1) [of _ _ f] register_again(2) [of _ _ m]
          register_again(3) [of _ _ q] register_again(4) [of _ _ d]
          perform_all_keeps_causallm perform_all_keeps_model_args
          perform_all_keeps_quant_args perform_all_keeps_dialog
          register_first)
qed


text \<open>
  The empty registry; "llama" is registered with entry 1 of each kind, then again with
  entry 2 of each kind, and "mpt" is looked up: the lookups of "llama" return 1, a third
  registration only warns, and "mpt", never registered, has null entries.
\<close>

theorem first_registration_wins_witness:
  "snd (get_causallm_factory ''llama'' (Map.empty :: (nat, nat, nat, nat) ModelRegistry)) = None \<and>
   snd (get_causallm_factory ''llama''
          (perform_all [RegisterCausalLM ''llama'' (Some 2), RegisterModelArgs ''llama'' (Some 2), RegisterQuantArgs ''llama'' (Some 2), RegisterDialog ''llama'' (Some 2), GetCausalLM ''mpt'']
             (fst (register_causallm_factory ''llama'' (Some 1) (Map.empty :: (nat, nat, nat, nat) ModelRegistry))))) = Some 1 \<and>
   snd (get_model_args_loader ''llama'' (Map.empty :: (nat, nat, nat, nat) ModelRegistry)) = None \<and>
   snd (get_model_args_loader ''llama''
          (perform_all [RegisterCausalLM ''llama'' (Some 2), RegisterModelArgs ''llama'' (Some 2), RegisterQuantArgs ''llama'' (Some 2), RegisterDialog ''llama'' (Some 2), GetCausalLM ''mpt'']
             (fst (register_model_args_loader ''llama'' (Some 1) (Map.empty :: (nat, nat, nat, nat) ModelRegistry))))) = Some 1 \<and>
   snd (get_quant_args_loader ''llama'' (Map.empty :: (nat, nat, nat, nat) ModelRegistry)) = None \<and>
   snd (get_quant_args_loader ''llama''
          (perform_all [RegisterCausalLM ''llama'' (Some 2), RegisterModelArgs ''llama'' (Some 2), RegisterQuantArgs ''llama'' (Some 2), RegisterDialog ''llama'' (Some 2), GetCausalLM ''mpt'']
             (fst (register_quant_args_loader ''llama'' (Some 1) (Map.empty :: (nat, nat, nat, nat) ModelRegistry))))) = Some 1 \<and>
   snd (get_dialog_factory ''llama'' (Map.empty :: (nat, nat, nat, nat) ModelRegistry)) = None \<and>
   snd (get_dialog_factory ''llama''
          (perform_all [RegisterCausalLM ''llama'' (Some 2), RegisterModelArgs ''llama'' (Some 2), RegisterQuantArgs ''llama'' (Some 2), RegisterDialog ''llama'' (Some 2), GetCausalLM ''mpt'']
             (fst (register_dialog_factory ''llama'' (Some 1) (Map.empty :: (nat, nat, nat, nat) ModelRegistry))))) = Some 1 \<and>
   list_all (\<lambda>c. registers_causallm c \<noteq> Some ''mpt'') [RegisterCausalLM ''llama'' (Some 2), RegisterModelArgs ''llama'' (Some 2), RegisterQuantArgs ''llama'' (Some 2), RegisterDialog ''llama'' (Some 2), GetCausalLM ''mpt''] \<and>
   list_all (\<lambda>c. registers_model_args c \<noteq> Some ''mpt'') [RegisterCausalLM ''llama'' (Some 2), RegisterModelArgs ''llama'' (Some 2), RegisterQuantArgs ''llama'' (Some 2), RegisterDialog ''llama'' (Some 2), GetCausalLM ''mpt''] \<and>
   list_all (\<lambda>c. registers_quant_args c \<noteq> Some ''mpt'') [RegisterCausalLM ''llama'' (Some 2), RegisterModelArgs ''llama'' (Some 2), RegisterQuantArgs ''llama'' (Some 2), RegisterDialog ''llama'' (Some 2), GetCausalLM ''mpt''] \<and>
   list_all (\<lambda>c. registers_dialog c \<noteq> Some ''mpt'') [RegisterCausalLM ''llama'' (Some 2), RegisterModelArgs ''llama'' (Some 2), RegisterQuantArgs ''llama'' (Some 2), RegisterDialog ''llama'' (Some 2), GetCausalLM ''mpt''] \<and>
   snd (get_causallm_factory ''mpt'' (perform_all [RegisterCausalLM ''llama'' (Some 2), RegisterModelArgs ''llama'' (Some 2), RegisterQuantArgs ''llama'' (Some 2), RegisterDialog ''llama'' (Some 2), GetCausalLM ''mpt''] (Map.empty :: (nat, nat, nat, nat) ModelRegistry))) = None \<and>
   snd (get_model_args_loader ''mpt'' (perform_all [RegisterCausalLM ''llama'' (Some 2), RegisterModelArgs ''llama'' (Some 2), RegisterQuantArgs ''llama'' (Some 2), RegisterDialog ''llama'' (Some 2), GetCausalLM ''mpt''] (Map.empty :: (nat, nat, nat, nat) ModelRegistry))) = None \<and>
   snd (get_quant_args_loader ''mpt'' (perform_all [RegisterCausalLM ''llama'' (Some 2), RegisterModelArgs ''llama'' (Some 2), RegisterQuantArgs ''llama'' (Some 2), RegisterDialog ''llama'' (Some 2), GetCausalLM ''mpt''] (Map.empty :: (nat, nat, nat, nat) ModelRegistry))) = None \<and>
   snd (get_dialog_factory ''mpt'' (perform_all [RegisterCausalLM ''llama'' (Some 2), RegisterModelArgs ''llama'' (Some 2), RegisterQuantArgs ''llama'' (Some 2), RegisterDialog ''llama'' (Some 2), GetCausalLM ''mpt''] (Map.empty :: (nat, nat, nat, nat) ModelRegistry))) = None"
proof -
  have null: "snd (get_causallm_factory ''llama'' (Map.empty :: (nat, nat, nat, nat) ModelRegistry)) = None"
    "snd (get_model_args_loader ''llama'' (Map.empty :: (nat, nat, nat, nat) ModelRegistry)) = None"
    "snd (get_quant_args_loader ''llama'' (Map.empty :: (nat, nat, nat, nat) ModelRegistry)) = None"
    "snd (get_dialog_factory ''llama'' (Map.empty :: (nat, nat, nat, nat) ModelRegistry)) = None"
    by (simp_all add: registry_defs)
  have unregistered:
    "list_all (\<lambda>c. registers_causallm c \<noteq> Some ''mpt'') [RegisterCausalLM ''llama'' (Some 2), RegisterModelArgs ''llama'' (Some 2), RegisterQuantArgs ''llama'' (Some 2), RegisterDialog ''llama'' (Some 2), GetCausalLM ''mpt'']"
    "list_all (\<lambda>c. registers_model_args c \<noteq> Some ''mpt'') [RegisterCausalLM ''llama'' (Some 2), RegisterModelArgs ''llama'' (Some 2), RegisterQuantArgs ''llama'' (Some 2), RegisterDialog ''llama'' (Some 2), GetCausalLM ''mpt'']"
    "list_all (\<lambda>c. registers_quant_args c \<noteq> Some ''mpt'') [RegisterCausalLM ''llama'' (Some 2), RegisterModelArgs ''llama'' (Some 2), RegisterQuantArgs ''llama'' (Some 2), RegisterDialog ''llama'' (Some 2), GetCausalLM ''mpt'']"
    "list_all (\<lambda>c. registers_dialog c \<noteq> Some ''mpt'') [RegisterCausalLM ''llama'' (Some 2), RegisterModelArgs ''llama'' (Some 2), RegisterQuantArgs ''llama'' (Some 2), RegisterDialog ''llama'' (Some 2), GetCausalLM ''mpt'']"
    by simp_all
  show ?thesis
    using null unregistered
      first_registration_wins [where name = "''llama''" and reg = "(Map.empty :: (nat, nat, nat, nat) ModelRegistry)" and cs = "[RegisterCausalLM ''llama'' (Some 2), RegisterModelArgs ''llama'' (Some 2), RegisterQuantArgs ''llama'' (Some 2), RegisterDialog ''llama'' (Some 2), GetCausalLM ''mpt'']"
          and f = 1 and m = 1 and q = 1 and d = 1]
      first_registration_wins [where name = "''mpt''" and reg = "(Map.empty :: (nat, nat, nat, nat) ModelRegistry)" and cs = "[RegisterCausalLM ''llama'' (Some 2), RegisterModelArgs ''llama'' (Some 2), RegisterQuantArgs ''llama'' (Some 2), RegisterDialog ''llama'' (Some 2), GetCausalLM ''mpt'']"
          and f = 1 and m = 1 and q = 1 and d = 1]
    by simp
qed

section \<open>Fused loading of a column-parallel layer\<close>

lemma load_weights_incomplete:
  "\<not> list_all (\<lambda>t. t \<noteq> None) wl \<Longrightarrow> load_weights wl w = Inr (False, wl, w)"
  by (simp add: load_weights_def)

lemma load_weights_complete:
  "list_all (\<lambda>t. t \<noteq> None) wl \<Longrightarrow> cat0 (map the wl) = Inr merged \<Longrightarrow> sizes w = sizes merged
   \<Longrightarrow> load_weights wl w = Inr (True, [], w\<lparr>elems := elems merged\<rparr>)"
  by (simp add: load_weights_def and_then_def)

lemma load_weights_True:
  "load_weights wl w = Inr (True, wl', w') \<Longrightarrow>
     list_all (\<lambda>t. t \<noteq> None) wl \<and> wl' = [] \<and> cat0 (map the wl) = Inr w'"
  by (auto simp: load_weights_def and_then_def Let_def split: if_splits sum.splits)

lemma load_weights_False:
  "load_weights wl w = Inr (False, wl', w') \<Longrightarrow>
     \<not> list_all (\<lambda>t. t \<noteq> None) wl \<and> wl' = wl \<and> w' = w"
  by (auto simp: load_weights_def and_then_def Let_def split: if_splits sum.splits)

lemma cat0_Inr:
  "cat0 ts = Inr m \<Longrightarrow> ts \<noteq> [] \<and> elems m = concat (map elems ts)
     \<and> sizes m = sum_list (map (\<lambda>u. hd (sizes u)) ts) # tl (sizes (hd ts))"
  by (auto simp: cat0_def split: list.splits if_splits)

lemma load_prefixes_exact:
  assumes "load_prefixes sd rk ws i ps wl = Inr wl'" and "i + length ps \<le> length wl"
  shows "length wl' = length wl \<and>
     (\<forall>j<length wl. wl' ! j =
        (if i \<le> j \<and> j < i + length ps
         then (case sd (ps ! (j - i) @ ''weight'') 0 rk ws of None \<Rightarrow> wl ! j | Some w \<Rightarrow> Some w)
         else wl ! j))"
  using assms
proof (induction ps arbitrary: i wl)
  case Nil
  then show ?case by auto
next
  case (Cons p ps)
  show ?case
  proof (cases "sd (p @ ''weight'') 0 rk ws")
    case None
    with Cons.prems have rec: "load_prefixes sd rk ws (Suc i) ps wl = Inr wl'"
      by simp
    from Cons.prems have len: "Suc i + length ps \<le> length wl"
      by simp
    note ih = Cons.IH [OF rec len]
    show ?thesis
    proof (intro conjI allI impI)
      show "length wl' = length wl"
        using ih by simp
    next
      fix j assume j: "j < length wl"
      consider "j < i" | "j = i" | "i < j"
        by arith
      then show "wl' ! j =
        (if i \<le> j \<and> j < i + length (p # ps)
         then (case sd ((p # ps) ! (j - i) @ ''weight'') 0 rk ws of None \<Rightarrow> wl ! j | Some w \<Rightarrow> Some w)
         else wl ! j)"
      proof cases
        case 1
        with ih j show ?thesis by (auto split: option.splits)
      next
        case 2
        with ih j None show ?thesis by (auto split: option.splits)
      next
        case 3
        then have "j - i = Suc (j - Suc i)" by arith
        with ih j 3 show ?thesis by (auto split: option.splits)
      qed
    qed
  next
    case (Some w)
    with Cons.prems have free: "wl ! i = None"
      and rec: "load_prefixes sd rk ws (Suc i) ps (wl[i := Some w]) = Inr wl'"
      by (simp_all split: if_splits)
    from Cons.prems have len: "Suc i + length ps \<le> length (wl[i := Some w])"
      by simp
    note ih = Cons.IH [OF rec len]
    show ?thesis
    proof (intro conjI allI impI)
      show "length wl' = length wl"
        using ih by simp
    next
      fix j assume j: "j < length wl"
      consider "j < i" | "j = i" | "i < j"
        by arith
      then show "wl' ! j =
        (if i \<le> j \<and> j < i + length (p # ps)
         then (case sd ((p # ps) ! (j - i) @ ''weight'') 0 rk ws of None \<Rightarrow> wl ! j | Some w \<Rightarrow> Some w)
         else wl ! j)"
      proof cases
        case 1
        with ih j show ?thesis by (auto split: option.splits)
      next
        case 2
        with ih j Some show ?thesis by (auto split: option.splits)
      next
        case 3
        then have "j - i = Suc (j - Suc i)" by arith
        with ih j 3 show ?thesis by (auto split: option.splits)
      qed
    qed
  qed
qed

lemma load_prefixes_succeeds:
  assumes "i + length ps \<le> length wl"
    and "\<forall>j. i \<le> j \<and> j < i + length ps \<and> sd (ps ! (j - i) @ ''weight'') 0 rk ws \<noteq> None
           \<longrightarrow> wl ! j = None"
  shows "\<exists>wl'. load_prefixes sd rk ws i ps wl = Inr wl'"
  using assms
proof (induction ps arbitrary: i wl)
  case Nil
  then show ?case by simp
next
  case (Cons p ps)
  have shift: "(p # ps) ! (j - i) = ps ! (j - Suc i)" if "Suc i \<le> j" for j
  proof -
    from that have "j - i = Suc (j - Suc i)" by arith
    then show ?thesis by simp
  qed
  show ?case
  proof (cases "sd (p @ ''weight'') 0 rk ws")
    case None
    have "\<exists>wl'. load_prefixes sd rk ws (Suc i) ps wl = Inr wl'"
    proof (rule Cons.IH)
      show "Suc i + length ps \<le> length wl"
        using Cons.prems(1) by simp
      show "\<forall>j. Suc i \<le> j \<and> j < Suc i + length ps \<and> sd (ps ! (j - Suc i) @ ''weight'') 0 rk ws \<noteq> None
           \<longrightarrow> wl ! j = None"
        using Cons.prems(2) shift by auto
    qed
    with None show ?thesis by simp
  next
    case (Some w)
    from Cons.prems(2) [rule_format, of i] Some have free: "wl ! i = None"
      by simp
    have "\<exists>wl'. load_prefixes sd rk ws (Suc i) ps (wl[i := Some w]) = Inr wl'"
    proof (rule Cons.IH)
      show "Suc i + length ps \<le> length (wl[i := Some w])"
        using Cons.prems(1) by simp
      show "\<forall>j. Suc i \<le> j \<and> j < Suc i + length ps \<and> sd (ps ! (j - Suc i) @ ''weight'') 0 rk ws \<noteq> None
           \<longrightarrow> (wl[i := Some w]) ! j = None"
        using Cons.prems(2) shift by auto
    qed
    with Some free show ?thesis by simp
  qed
qed

lemma load_prefixes_fresh:
  "load_prefixes sd rk ws 0 prefixes (replicate (length prefixes) None)
     = Inr (map (\<lambda>p. sd (p @ ''weight'') 0 rk ws) prefixes)"
proof -
  have "\<exists>wl'. load_prefixes sd rk ws 0 prefixes (replicate (length prefixes) None) = Inr wl'"
    by (rule load_prefixes_succeeds) simp_all
  then obtain wl' where
    r: "load_prefixes sd rk ws 0 prefixes (replicate (length prefixes) None) = Inr wl'"
    by blast
  from load_prefixes_exact [OF r]
  have len: "length wl' = length prefixes"
    and nth: "\<And>j. j < length prefixes \<Longrightarrow>
      wl' ! j = (case sd (prefixes ! j @ ''weight'') 0 rk ws of None \<Rightarrow> None | Some w \<Rightarrow> Some w)"
    by (auto split: option.splits)
  have "wl' = map (\<lambda>p. sd (p @ ''weight'') 0 rk ws) prefixes"
  proof (rule nth_equalityI)
    show "length wl' = length (map (\<lambda>p. sd (p @ ''weight'') 0 rk ws) prefixes)"
      using len by simp
  next
    fix j assume "j < length wl'"
    with len nth [of j] show "wl' ! j = map (\<lambda>p. sd (p @ ''weight'') 0 rk ws) prefixes ! j"
      by (simp split: option.splits)
  qed
  with r show ?thesis by simp
qed

lemma load_state_dict_chr:
  assumes step: "load_state_dict sd prefixes self = Inr self'"
  shows "\<exists>wl'. length wl' = max (length (self_weight_list self)) (length prefixes) \<and>
     (\<forall>j<length wl'. wl' ! j =
        (case (if j < length prefixes
               then sd (prefixes ! j @ ''weight'') 0 (self_rank self) (self_world_size self)
               else None) of
           None \<Rightarrow> (if j < length (self_weight_list self) then self_weight_list self ! j else None)
         | Some w \<Rightarrow> Some w)) \<and>
     (if list_all (\<lambda>t. t \<noteq> None) wl'
      then (\<exists>merged. cat0 (map the wl') = Inr merged \<and>
              self' = self\<lparr>self_weight := merged, self_weight_list := [], self_is_loaded := True\<rparr>)
      else self' = self\<lparr>self_weight_list := wl'\<rparr>)"
proof -
  define n where "n = length prefixes"
  define wl0 where "wl0 = (if length (self_weight_list self) < n
                then self_weight_list self @ replicate (n - length (self_weight_list self)) None
                else self_weight_list self)"
  have len0: "length wl0 = max (length (self_weight_list self)) n"
    by (simp add: wl0_def)
  have nth0: "wl0 ! j = (if j < length (self_weight_list self) then self_weight_list self ! j else None)"
    if "j < length wl0" for j
    using that by (auto simp: wl0_def nth_append split: if_splits)
  have unfolded: "load_state_dict sd prefixes self =
      and_then (load_prefixes sd (self_rank self) (self_world_size self) 0 prefixes wl0) (\<lambda>wl'.
         and_then (load_weights wl' (self_weight self)) (\<lambda>(ok, wl'', w).
         Inr (self\<lparr>self_weight := w, self_weight_list := wl'',
                   self_is_loaded := (if ok then True else self_is_loaded self)\<rparr>)))"
    by (simp add: load_state_dict_def wl0_def n_def Let_def)
  from step [unfolded unfolded] obtain wl1 ok wl2 w where
    lp: "load_prefixes sd (self_rank self) (self_world_size self) 0 prefixes wl0 = Inr wl1"
    and lw: "load_weights wl1 (self_weight self) = Inr (ok, wl2, w)"
    and self': "self' = self\<lparr>self_weight := w, self_weight_list := wl2,
                   self_is_loaded := (if ok then True else self_is_loaded self)\<rparr>"
    by (auto simp: and_then_def split: sum.splits prod.splits)
  have "0 + length prefixes \<le> length wl0"
    using len0 by (simp add: n_def)
  from load_prefixes_exact [OF lp this]
  have len1: "length wl1 = length wl0"
    and nth1: "\<And>j. j < length wl0 \<Longrightarrow> wl1 ! j =
        (if j < length prefixes
         then (case sd (prefixes ! j @ ''weight'') 0 (self_rank self) (self_world_size self) of
                 None \<Rightarrow> wl0 ! j | Some w \<Rightarrow> Some w)
         else wl0 ! j)"
    by simp_all
  have c1: "length wl1 = max (length (self_weight_list self)) (length prefixes)"
    using len1 len0 by (simp add: n_def)
  have c2: "\<forall>j<length wl1. wl1 ! j =
        (case (if j < length prefixes
               then sd (prefixes ! j @ ''weight'') 0 (self_rank self) (self_world_size self)
               else None) of
           None \<Rightarrow> (if j < length (self_weight_list self) then self_weight_list self ! j else None)
         | Some w \<Rightarrow> Some w)"
  proof (intro allI impI)
    fix j assume "j < length wl1"
    then have j: "j < length wl0"
      using len1 by simp
    show "wl1 ! j =
        (case (if j < length prefixes
               then sd (prefixes ! j @ ''weight'') 0 (self_rank self) (self_world_size self)
               else None) of
           None \<Rightarrow> (if j < length (self_weight_list self) then self_weight_list self ! j else None)
         | Some w \<Rightarrow> Some w)"
      unfolding nth1 [OF j] nth0 [OF j] by (simp split: option.splits)
  qed
  have c3: "if list_all (\<lambda>t. t \<noteq> None) wl1
      then (\<exists>merged. cat0 (map the wl1) = Inr merged \<and>
              self' = self\<lparr>self_weight := merged, self_weight_list := [], self_is_loaded := True\<rparr>)
      else self' = self\<lparr>self_weight_list := wl1\<rparr>"
  proof (cases ok)
    case True
    with lw have "load_weights wl1 (self_weight self) = Inr (True, wl2, w)"
      by simp
    from load_weights_True [OF this] show ?thesis
      by (simp add: self' True)
  next
    case False
    with lw have "load_weights wl1 (self_weight self) = Inr (False, wl2, w)"
      by simp
    from load_weights_False [OF this] show ?thesis
      by (simp add: self' False)
  qed
  from c1 c2 c3 show ?thesis
    by blast
qed

lemma load_state_dict_fresh:
  assumes fresh: "self_weight_list self = []"
    and len: "length shards = length prefixes"
    and held: "\<forall>j<length prefixes.
        sd (prefixes ! j @ ''weight'') 0 (self_rank self) (self_world_size self) = Some (shards ! j)"
    and cat: "cat0 shards = Inr merged"
    and sz: "sizes (self_weight self) = sizes merged"
  shows "load_state_dict sd prefixes self
           = Inr (self\<lparr>self_weight := merged, self_weight_list := [], self_is_loaded := True\<rparr>)"
proof -
  have wl0: "(if length (self_weight_list self) < length prefixes
                then self_weight_list self @ replicate (length prefixes - length (self_weight_list self)) None
                else self_weight_list self) = replicate (length prefixes) None"
    by (simp add: fresh)
  have shards: "map (\<lambda>p. sd (p @ ''weight'') 0 (self_rank self) (self_world_size self)) prefixes
                  = map Some shards"
    by (rule nth_equalityI) (simp_all add: len held)
  have all: "list_all (\<lambda>t. t \<noteq> None) (map Some shards)"
    by (simp add: list_all_iff)
  have the: "map the (map Some shards) = shards"
    by (simp add: comp_def)
  have w: "(self_weight self)\<lparr>elems := elems merged\<rparr> = merged"
    using sz by simp
  have "load_weights (map Some shards) (self_weight self) = Inr (True, [], merged)"
    using load_weights_complete [OF all, of merged "self_weight self"] cat sz
    by (simp only: the w)
  then show ?thesis
    unfolding load_state_dict_def Let_def wl0 load_prefixes_fresh shards
    by (simp add: and_then_def)
qed

lemma shard_from_append:
  "shard_from (xs @ ys) rk ws p t \<longleftrightarrow> shard_from xs rk ws p t \<or> shard_from ys rk ws p t"
  by (auto simp: shard_from_def list_ex_iff)

lemma shard_from_seen: "shard_from sds rk ws p t \<Longrightarrow> shard_seen sds rk ws p"
  by (auto simp: shard_from_def shard_seen_def list_ex_iff)

lemma load_state_dict_inv:
  assumes step: "load_state_dict sd prefixes self = Inr self'"
    and inv: "loading_inv prefixes seen self"
  shows "loading_inv prefixes (seen @ [sd]) self'
         \<and> self_rank self' = self_rank self \<and> self_world_size self' = self_world_size self"
proof -
  define rk where "rk = self_rank self"
  define ws where "ws = self_world_size self"
  from inv have len: "length (self_weight_list self) \<le> length prefixes"
    and old: "\<And>j t. j < length (self_weight_list self) \<Longrightarrow> self_weight_list self ! j = Some t
                \<Longrightarrow> shard_from seen rk ws (prefixes ! j) t"
    and loaded: "self_is_loaded self \<Longrightarrow>
         \<exists>ts. length ts = length prefixes \<and>
            (\<forall>j<length prefixes. shard_from seen rk ws (prefixes ! j) (ts ! j)) \<and>
            cat0 ts = Inr (self_weight self)"
    by (auto simp: loading_inv_def rk_def ws_def)
  from load_state_dict_chr [OF step] obtain wl' where
    len': "length wl' = max (length (self_weight_list self)) (length prefixes)"
    and nth': "\<And>j. j < length wl' \<Longrightarrow> wl' ! j =
        (case (if j < length prefixes then sd (prefixes ! j @ ''weight'') 0 rk ws else None) of
           None \<Rightarrow> (if j < length (self_weight_list self) then self_weight_list self ! j else None)
         | Some w \<Rightarrow> Some w)"
    and res: "if list_all (\<lambda>t. t \<noteq> None) wl'
      then (\<exists>merged. cat0 (map the wl') = Inr merged \<and>
              self' = self\<lparr>self_weight := merged, self_weight_list := [], self_is_loaded := True\<rparr>)
      else self' = self\<lparr>self_weight_list := wl'\<rparr>"
    unfolding rk_def ws_def by blast
  have n: "length wl' = length prefixes"
    using len' len by simp
  have new: "shard_from (seen @ [sd]) rk ws (prefixes ! j) t"
    if j: "j < length prefixes" and t: "wl' ! j = Some t" for j t
  proof (cases "sd (prefixes ! j @ ''weight'') 0 rk ws")
    case None
    with nth' [of j] j n t have "j < length (self_weight_list self)"
      and "self_weight_list self ! j = Some t"
      by (simp_all split: if_splits)
    then have "shard_from seen rk ws (prefixes ! j) t"
      by (rule old)
    then show ?thesis
      by (simp add: shard_from_append)
  next
    case (Some w)
    with nth' [of j] j n t have "w = t"
      by simp
    with Some show ?thesis
      by (simp add: shard_from_append shard_from_def)
  qed
  show ?thesis
  proof (cases "list_all (\<lambda>t. t \<noteq> None) wl'")
    case True
    with res obtain merged where cat: "cat0 (map the wl') = Inr merged"
      and self': "self' = self\<lparr>self_weight := merged, self_weight_list := [], self_is_loaded := True\<rparr>"
      by auto
    have "shard_from (seen @ [sd]) rk ws (prefixes ! j) (map the wl' ! j)" if j: "j < length prefixes" for j
    proof -
      from True j n have "wl' ! j \<noteq> None"
        by (simp add: list_all_length)
      then obtain t where t: "wl' ! j = Some t"
        by auto
      from new [OF j t] t j n show ?thesis
        by simp
    qed
    then have "\<exists>ts. length ts = length prefixes \<and>
            (\<forall>j<length prefixes. shard_from (seen @ [sd]) rk ws (prefixes ! j) (ts ! j)) \<and>
            cat0 ts = Inr merged"
      using cat n by (intro exI [of _ "map the wl'"]) simp
    then show ?thesis
      by (simp add: self' loading_inv_def rk_def ws_def)
  next
    case False
    with res have self': "self' = self\<lparr>self_weight_list := wl'\<rparr>"
      by simp
    have "\<exists>ts. length ts = length prefixes \<and>
            (\<forall>j<length prefixes. shard_from (seen @ [sd]) rk ws (prefixes ! j) (ts ! j)) \<and>
            cat0 ts = Inr (self_weight self)" if "self_is_loaded self"
      using loaded [OF that] by (auto simp: shard_from_append)
    with new n show ?thesis
      by (simp add: self' loading_inv_def rk_def ws_def)
  qed
qed

lemma load_all_inv:
  "load_all sds prefixes self = Inr self' \<Longrightarrow> loading_inv prefixes seen self \<Longrightarrow>
     loading_inv prefixes (seen @ sds) self'
     \<and> self_rank self' = self_rank self \<and> self_world_size self' = self_world_size self"
proof (induction sds arbitrary: self seen)
  case Nil
  then show ?case by simp
next
  case (Cons sd sds)
  from Cons.prems(1) obtain mid where
    step: "load_state_dict sd prefixes self = Inr mid" and rest: "load_all sds prefixes mid = Inr self'"
    by (auto simp: and_then_def split: sum.splits)
  from load_state_dict_inv [OF step Cons.prems(2)]
  have inv: "loading_inv prefixes (seen @ [sd]) mid"
    and same: "self_rank mid = self_rank self" "self_world_size mid = self_world_size self"
    by simp_all
  from Cons.IH [OF rest inv] show ?case
    by (simp add: same)
qed

lemma load_all_fresh:
  assumes "self_weight_list self = []" and "\<not> self_is_loaded self"
    and "load_all sds prefixes self = Inr self'" and "self_is_loaded self'"
  shows "\<exists>ts. length ts = length prefixes \<and>
            (\<forall>j<length prefixes.
               shard_from sds (self_rank self) (self_world_size self) (prefixes ! j) (ts ! j)) \<and>
            cat0 ts = Inr (self_weight self')"
proof -
  from assms(1,2) have "loading_inv prefixes [] self"
    by (simp add: loading_inv_def)
  from load_all_inv [OF assms(3) this]
  have inv: "loading_inv prefixes sds self'"
    and same: "self_rank self' = self_rank self" "self_world_size self' = self_world_size self"
    by simp_all
  from inv assms(4) show ?thesis
    unfolding loading_inv_def same by blast
qed

text \<open>
  C9. \<open>load_weights\<close> returns false and leaves the shard list and the registered weight
  as they are while a shard is undefined; when every shard is defined, their
  concatenation along dimension 0 exists and has the weight's shape, it returns true, the
  weight is the concatenation and the shard list is empty, and it returns true in no
  other way. A fused \<open>load_state_dict\<close> that returns has put into every slot the weight
  the state dict holds for that prefix, kept the other slots, and then either, a slot
  being undefined, changed nothing but the shard list, or, with every slot defined, set
  the weight to the concatenation of the slots, emptied the list and marked the layer
  loaded; on a fresh layer, a state dict holding a shard for every prefix, whose
  concatenation has the weight's shape, does make it return so. A fresh layer that a
  sequence of fused \<open>load_state_dict\<close> calls has marked loaded has seen, for every prefix,
  a state dict holding that prefix's weight, and its weight is the concatenation, in the
  order of the prefixes, of one such weight for every prefix; when the state dicts hold
  only one weight for each prefix, it is the concatenation of these.
\<close>

theorem fused_loading_all_or_nothing:
  "(\<not> list_all (\<lambda>t. t \<noteq> None) wl \<longrightarrow> load_weights wl w = Inr (False, wl, w)) \<and>
   (list_all (\<lambda>t. t \<noteq> None) wl \<and> cat0 (map the wl) = Inr merged \<and> sizes w = sizes merged
      \<longrightarrow> load_weights wl w = Inr (True, [], merged)
          \<and> elems merged = concat (map (\<lambda>t. elems (the t)) wl)) \<and>
   (load_weights wl w = Inr (True, wl', w')
      \<longrightarrow> list_all (\<lambda>t. t \<noteq> None) wl \<and> wl' = [] \<and> cat0 (map the wl) = Inr w') \<and>
   (load_state_dict sd prefixes self = Inr self' \<longrightarrow>
      (\<exists>shards.
         length shards = max (length (self_weight_list self)) (length prefixes) \<and>
         (\<forall>j<length shards. shards ! j =
            (case (if j < length prefixes
                   then sd (prefixes ! j @ ''weight'') 0 (self_rank self) (self_world_size self)
                   else None) of
               None \<Rightarrow> (if j < length (self_weight_list self) then self_weight_list self ! j else None)
             | Some t \<Rightarrow> Some t)) \<and>
         (if list_all (\<lambda>t. t \<noteq> None) shards
          then (\<exists>m. cat0 (map the shards) = Inr m \<and> elems m = concat (map (\<lambda>t. elems (the t)) shards) \<and>
                  self' = self\<lparr>self_weight := m, self_weight_list := [], self_is_loaded := True\<rparr>)
          else self' = self\<lparr>self_weight_list := shards\<rparr>))) \<and>
   (self_weight_list self = [] \<and> length ts = length prefixes \<and>
    (\<forall>j<length prefixes.
       sd (prefixes ! j @ ''weight'') 0 (self_rank self) (self_world_size self) = Some (ts ! j)) \<and>
    cat0 ts = Inr merged \<and> sizes (self_weight self) = sizes merged
      \<longrightarrow> load_state_dict sd prefixes self
            = Inr (self\<lparr>self_weight := merged, self_weight_list := [], self_is_loaded := True\<rparr>)) \<and>
   (self_weight_list self = [] \<and> \<not> self_is_loaded self \<and>
    load_all sds prefixes self = Inr self' \<and> self_is_loaded self'
      \<longrightarrow> list_all (shard_seen sds (self_rank self) (self_world_size self)) prefixes \<and>
          (\<exists>shards.
             length shards = length prefixes \<and>
             (\<forall>j<length prefixes.
                shard_from sds (self_rank self) (self_world_size self) (prefixes ! j) (shards ! j)) \<and>
             cat0 shards = Inr (self_weight self') \<and>
             elems (self_weight self') = concat (map elems shards))) \<and>
   (self_weight_list self = [] \<and> \<not> self_is_loaded self \<and>
    load_all sds prefixes self = Inr self' \<and> self_is_loaded self' \<and>
    length ts = length prefixes \<and>
    (\<forall>j<length prefixes. \<forall>t.
       shard_from sds (self_rank self) (self_world_size self) (prefixes ! j) t \<longrightarrow> t = ts ! j)
      \<longrightarrow> cat0 ts = Inr (self_weight self') \<and> elems (self_weight self') = concat (map elems ts))"
  (is "?c1 \<and> ?c2 \<and> ?c3 \<and> ?c4 \<and> ?c5 \<and> ?c6 \<and> ?c7")
proof -
  have c1: ?c1
    by (simp add: load_weights_incomplete)
  have c2: ?c2
  proof (intro impI conjI)
    assume a: "list_all (\<lambda>t. t \<noteq> None) wl \<and> cat0 (map the wl) = Inr merged \<and> sizes w = sizes merged"
    then show "load_weights wl w = Inr (True, [], merged)"
      by (simp add: load_weights_complete)
    from a cat0_Inr [of "map the wl" merged]
    show "elems merged = concat (map (\<lambda>t. elems (the t)) wl)"
      by (simp add: comp_def)
  qed
  have c3: ?c3
  proof
    assume "load_weights wl w = Inr (True, wl', w')"
    from load_weights_True [OF this]
    show "list_all (\<lambda>t. t \<noteq> None) wl \<and> wl' = [] \<and> cat0 (map the wl) = Inr w'" .
  qed
  have c4: ?c4
  proof
    assume "load_state_dict sd prefixes self = Inr self'"
    from load_state_dict_chr [OF this] obtain shards where
      s1: "length shards = max (length (self_weight_list self)) (length prefixes)"
      and s2: "\<forall>j<length shards. shards ! j =
            (case (if j < length prefixes
                   then sd (prefixes ! j @ ''weight'') 0 (self_rank self) (self_world_size self)
                   else None) of
               None \<Rightarrow> (if j < length (self_weight_list self) then self_weight_list self ! j else None)
             | Some t \<Rightarrow> Some t)"
      and s3: "if list_all (\<lambda>t. t \<noteq> None) shards
          then (\<exists>m. cat0 (map the shards) = Inr m \<and>
                  self' = self\<lparr>self_weight := m, self_weight_list := [], self_is_loaded := True\<rparr>)
          else self' = self\<lparr>self_weight_list := shards\<rparr>"
      by blast
    have "if list_all (\<lambda>t. t \<noteq> None) shards
          then (\<exists>m. cat0 (map the shards) = Inr m \<and> elems m = concat (map (\<lambda>t. elems (the t)) shards) \<and>
                  self' = self\<lparr>self_weight := m, self_weight_list := [], self_is_loaded := True\<rparr>)
          else self' = self\<lparr>self_weight_list := shards\<rparr>"
    proof (cases "list_all (\<lambda>t. t \<noteq> None) shards")
      case True
      with s3 obtain m where m: "cat0 (map the shards) = Inr m"
        and r: "self' = self\<lparr>self_weight := m, self_weight_list := [], self_is_loaded := True\<rparr>"
        by auto
      from cat0_Inr [OF m] have "elems m = concat (map (\<lambda>t. elems (the t)) shards)"
        by (simp add: comp_def)
      with True m r show ?thesis
        by simp
    next
      case False
      with s3 show ?thesis
        by simp
    qed
    with s1 s2 show "\<exists>shards.
         length shards = max (length (self_weight_list self)) (length prefixes) \<and>
         (\<forall>j<length shards. shards ! j =
            (case (if j < length prefixes
                   then sd (prefixes ! j @ ''weight'') 0 (self_rank self) (self_world_size self)
                   else None) of
               None \<Rightarrow> (if j < length (self_weight_list self) then self_weight_list self ! j else None)
             | Some t \<Rightarrow> Some t)) \<and>
         (if list_all (\<lambda>t. t \<noteq> None) shards
          then (\<exists>m. cat0 (map the shards) = Inr m \<and> elems m = concat (map (\<lambda>t. elems (the t)) shards) \<and>
                  self' = self\<lparr>self_weight := m, self_weight_list := [], self_is_loaded := True\<rparr>)
          else self' = self\<lparr>self_weight_list := shards\<rparr>)"
      by blast
  qed
  have c5: ?c5
    by (intro impI load_state_dict_fresh [of self ts prefixes sd merged]) simp_all
  have general: "\<exists>shards.
             length shards = length prefixes \<and>
             (\<forall>j<length prefixes.
                shard_from sds (self_rank self) (self_world_size self) (prefixes ! j) (shards ! j)) \<and>
             cat0 shards = Inr (self_weight self') \<and>
             elems (self_weight self') = concat (map elems shards)"
    if a: "self_weight_list self = [] \<and> \<not> self_is_loaded self \<and>
      load_all sds prefixes self = Inr self' \<and> self_is_loaded self'"
  proof -
    from a load_all_fresh [of self sds prefixes self'] obtain shards where
      s: "length shards = length prefixes"
        "\<forall>j<length prefixes.
           shard_from sds (self_rank self) (self_world_size self) (prefixes ! j) (shards ! j)"
        "cat0 shards = Inr (self_weight self')"
      by blast
    from cat0_Inr [OF s(3)] have "elems (self_weight self') = concat (map elems shards)"
      by simp
    with s show ?thesis
      by blast
  qed
  have c6: ?c6
  proof (intro impI conjI)
    assume a: "self_weight_list self = [] \<and> \<not> self_is_loaded self \<and>
      load_all sds prefixes self = Inr self' \<and> self_is_loaded self'"
    from general [OF a] show "\<exists>shards.
             length shards = length prefixes \<and>
             (\<forall>j<length prefixes.
                shard_from sds (self_rank self) (self_world_size self) (prefixes ! j) (shards ! j)) \<and>
             cat0 shards = Inr (self_weight self') \<and>
             elems (self_weight self') = concat (map elems shards)" .
    then show "list_all (shard_seen sds (self_rank self) (self_world_size self)) prefixes"
      by (auto simp: list_all_length intro: shard_from_seen)
  qed
  have c7: ?c7
  proof
    assume a: "self_weight_list self = [] \<and> \<not> self_is_loaded self \<and>
      load_all sds prefixes self = Inr self' \<and> self_is_loaded self' \<and>
      length ts = length prefixes \<and>
      (\<forall>j<length prefixes. \<forall>t.
         shard_from sds (self_rank self) (self_world_size self) (prefixes ! j) t \<longrightarrow> t = ts ! j)"
    then have "self_weight_list self = [] \<and> \<not> self_is_loaded self \<and>
      load_all sds prefixes self = Inr self' \<and> self_is_loaded self'"
      by simp
    from general [OF this] obtain shards where
      s: "length shards = length prefixes"
        "\<forall>j<length prefixes.
           shard_from sds (self_rank self) (self_world_size self) (prefixes ! j) (shards ! j)"
        "cat0 shards = Inr (self_weight self')"
        "elems (self_weight self') = concat (map elems shards)"
      by blast
    have "shards = ts"
    proof (rule nth_equalityI)
      show "length shards = length ts"
        using s(1) a by simp
    next
      fix j assume "j < length shards"
      with s(1) s(2) a show "shards ! j = ts ! j"
        by simp
    qed
    with s show "cat0 ts = Inr (self_weight self') \<and> elems (self_weight self') = concat (map elems ts)"
      by simp
  qed
  from c1 c2 c3 c4 c5 c6 c7 show ?thesis
    by (intro conjI)
qed

lemmas fused_defs = qkv_prefixes_def q_shard_def k_shard_def v_shard_def fresh_layer_def
  sd_qv_def sd_k_def sd_qkv_def

text \<open>
  Three shards of one row each, for the prefixes "q.", "k." and "v.", and a weight of three
  rows: with the shard of "k." missing the weight is untouched and the layer is not
  loaded, whether the shards are handed to \<open>load_weights\<close> or come from a state dict; a
  state dict with all three makes the weight their concatenation; and loading the state
  dict with "q." and "v." and then the one with "k." marks the layer loaded with the
  weight \<open>[1, 2, 3, 4, 5, 6]\<close>, the concatenation in the order of the prefixes.
\<close>

theorem fused_loading_all_or_nothing_witness:
  "load_weights [Some q_shard, None, Some v_shard] (self_weight fresh_layer)
     = Inr (False, [Some q_shard, None, Some v_shard], self_weight fresh_layer) \<and>
   (load_weights [Some q_shard, Some k_shard, Some v_shard] (self_weight fresh_layer)
      = Inr (True, [], \<lparr>sizes = [3, 2], elems = [1, 2, 3, 4, 5, 6]\<rparr>) \<and>
    elems \<lparr>sizes = [3, 2], elems = [1, 2, 3, 4, 5, 6 :: int]\<rparr>
      = concat (map (\<lambda>t. elems (the t)) [Some q_shard, Some k_shard, Some v_shard])) \<and>
   (list_all (\<lambda>t. t \<noteq> None) [Some q_shard, Some k_shard, Some v_shard] \<and>
    cat0 (map the [Some q_shard, Some k_shard, Some v_shard])
      = Inr \<lparr>sizes = [3, 2], elems = [1, 2, 3, 4, 5, 6]\<rparr>) \<and>
   load_state_dict sd_qv qkv_prefixes fresh_layer
     = Inr (fresh_layer\<lparr>self_weight_list := [Some q_shard, None, Some v_shard]\<rparr>) \<and>
   (\<exists>shards.
      length shards = max (length (self_weight_list fresh_layer)) (length qkv_prefixes) \<and>
      (\<forall>j<length shards. shards ! j =
         (case (if j < length qkv_prefixes
                then sd_qv (qkv_prefixes ! j @ ''weight'') 0 (self_rank fresh_layer) (self_world_size fresh_layer)
                else None) of
            None \<Rightarrow> (if j < length (self_weight_list fresh_layer) then self_weight_list fresh_layer ! j else None)
          | Some t \<Rightarrow> Some t)) \<and>
      (if list_all (\<lambda>t. t \<noteq> None) shards
       then (\<exists>m. cat0 (map the shards) = Inr m \<and> elems m = concat (map (\<lambda>t. elems (the t)) shards) \<and>
               fresh_layer\<lparr>self_weight_list := [Some q_shard, None, Some v_shard]\<rparr>
                 = fresh_layer\<lparr>self_weight := m, self_weight_list := [], self_is_loaded := True\<rparr>)
       else fresh_layer\<lparr>self_weight_list := [Some q_shard, None, Some v_shard]\<rparr>
              = fresh_layer\<lparr>self_weight_list := shards\<rparr>)) \<and>
   load_state_dict sd_qkv qkv_prefixes fresh_layer
     = Inr (fresh_layer\<lparr>self_weight := \<lparr>sizes = [3, 2], elems = [1, 2, 3, 4, 5, 6]\<rparr>,
                        self_weight_list := [], self_is_loaded := True\<rparr>) \<and>
   load_all [sd_qv, sd_k] qkv_prefixes fresh_layer
     = Inr (fresh_layer\<lparr>self_weight := \<lparr>sizes = [3, 2], elems = [1, 2, 3, 4, 5, 6]\<rparr>,
                        self_weight_list := [], self_is_loaded := True\<rparr>) \<and>
   list_all (shard_seen [sd_qv, sd_k] (self_rank fresh_layer) (self_world_size fresh_layer)) qkv_prefixes \<and>
   cat0 [q_shard, k_shard, v_shard]
     = Inr (self_weight (fresh_layer\<lparr>self_weight := \<lparr>sizes = [3, 2], elems = [1, 2, 3, 4, 5, 6]\<rparr>,
                        self_weight_list := [], self_is_loaded := True\<rparr>)) \<and>
   elems (self_weight (fresh_layer\<lparr>self_weight := \<lparr>sizes = [3, 2], elems = [1, 2, 3, 4, 5, 6]\<rparr>,
                        self_weight_list := [], self_is_loaded := True\<rparr>))
     = concat (map elems [q_shard, k_shard, v_shard])"
proof -
  have a1: "\<not> list_all (\<lambda>t. t \<noteq> None) [Some q_shard, None, Some v_shard]"
    by simp
  note p1 = fused_loading_all_or_nothing [THEN conjunct1, rule_format, OF a1,
      of "self_weight fresh_layer"]
  have a2: "list_all (\<lambda>t. t \<noteq> None) [Some q_shard, Some k_shard, Some v_shard] \<and>
    cat0 (map the [Some q_shard, Some k_shard, Some v_shard])
      = Inr \<lparr>sizes = [3, 2], elems = [1, 2, 3, 4, 5, 6]\<rparr> \<and>
    sizes (self_weight fresh_layer) = sizes \<lparr>sizes = [3, 2], elems = [1, 2, 3, 4, 5, 6 :: int]\<rparr>"
    by (simp add: cat0_def fused_defs)
  note p2 = fused_loading_all_or_nothing [THEN conjunct2, THEN conjunct1, rule_format, OF a2]
  note p3 = fused_loading_all_or_nothing [THEN conjunct2, THEN conjunct2, THEN conjunct1,
      rule_format, OF p2 [THEN conjunct1]]
  have a4: "load_state_dict sd_qv qkv_prefixes fresh_layer
     = Inr (fresh_layer\<lparr>self_weight_list := [Some q_shard, None, Some v_shard]\<rparr>)"
    by (simp add: load_state_dict_def load_weights_def and_then_def fused_defs)
  note p4 = fused_loading_all_or_nothing [THEN conjunct2, THEN conjunct2, THEN conjunct2,
      THEN conjunct1, rule_format, OF a4]
  have a5: "self_weight_list fresh_layer = [] \<and>
    length [q_shard, k_shard, v_shard] = length qkv_prefixes \<and>
    (\<forall>j<length qkv_prefixes.
       sd_qkv (qkv_prefixes ! j @ ''weight'') 0 (self_rank fresh_layer) (self_world_size fresh_layer)
         = Some ([q_shard, k_shard, v_shard] ! j)) \<and>
    cat0 [q_shard, k_shard, v_shard] = Inr \<lparr>sizes = [3, 2], elems = [1, 2, 3, 4, 5, 6]\<rparr> \<and>
    sizes (self_weight fresh_layer) = sizes \<lparr>sizes = [3, 2], elems = [1, 2, 3, 4, 5, 6 :: int]\<rparr>"
    by (simp add: cat0_def fused_defs All_less_Suc)
  note p5 = fused_loading_all_or_nothing [where sd = sd_qkv and self = fresh_layer
        and prefixes = qkv_prefixes and ts = "[q_shard, k_shard, v_shard]"
        and merged = "\<lparr>sizes = [3, 2], elems = [1, 2, 3, 4, 5, 6]\<rparr>",
      THEN conjunct2, THEN conjunct2, THEN conjunct2, THEN conjunct2, THEN conjunct1, THEN mp, OF a5]
  have run: "load_all [sd_qv, sd_k] qkv_prefixes fresh_layer
     = Inr (fresh_layer\<lparr>self_weight := \<lparr>sizes = [3, 2], elems = [1, 2, 3, 4, 5, 6]\<rparr>,
                        self_weight_list := [], self_is_loaded := True\<rparr>)"
    by (simp add: load_state_dict_def load_weights_def cat0_def and_then_def fused_defs)
  have a6: "self_weight_list fresh_layer = [] \<and> \<not> self_is_loaded fresh_layer \<and>
    load_all [sd_qv, sd_k] qkv_prefixes fresh_layer
     = Inr (fresh_layer\<lparr>self_weight := \<lparr>sizes = [3, 2], elems = [1, 2, 3, 4, 5, 6]\<rparr>,
                        self_weight_list := [], self_is_loaded := True\<rparr>) \<and>
    self_is_loaded (fresh_layer\<lparr>self_weight := \<lparr>sizes = [3, 2], elems = [1, 2, 3, 4, 5, 6]\<rparr>,
                        self_weight_list := [], self_is_loaded := True\<rparr>)"
    using run by (simp add: fresh_layer_def)
  note p6 = fused_loading_all_or_nothing [THEN conjunct2, THEN conjunct2, THEN conjunct2,
      THEN conjunct2, THEN conjunct2, THEN conjunct1, rule_format, OF a6, THEN conjunct1]
  have a7: "self_weight_list fresh_layer = [] \<and> \<not> self_is_loaded fresh_layer \<and>
    load_all [sd_qv, sd_k] qkv_prefixes fresh_layer
     = Inr (fresh_layer\<lparr>self_weight := \<lparr>sizes = [3, 2], elems = [1, 2, 3, 4, 5, 6]\<rparr>,
                        self_weight_list := [], self_is_loaded := True\<rparr>) \<and>
    self_is_loaded (fresh_layer\<lparr>self_weight := \<lparr>sizes = [3, 2], elems = [1, 2, 3, 4, 5, 6]\<rparr>,
                        self_weight_list := [], self_is_loaded := True\<rparr>) \<and>
    length [q_shard, k_shard, v_shard] = length qkv_prefixes \<and>
    (\<forall>j<length qkv_prefixes. \<forall>t.
       shard_from [sd_qv, sd_k] (self_rank fresh_layer) (self_world_size fresh_layer) (qkv_prefixes ! j) t
         \<longrightarrow> t = [q_shard, k_shard, v_shard] ! j)"
    using a6 by (auto simp: shard_from_def sd_qv_def sd_k_def qkv_prefixes_def All_less_Suc)
  note p7 = fused_loading_all_or_nothing [where sds = "[sd_qv, sd_k]" and self = fresh_layer
        and prefixes = qkv_prefixes and ts = "[q_shard, k_shard, v_shard]"
        and self' = "fresh_layer\<lparr>self_weight := \<lparr>sizes = [3, 2], elems = [1, 2, 3, 4, 5, 6]\<rparr>,
                        self_weight_list := [], self_is_loaded := True\<rparr>",
      THEN conjunct2, THEN conjunct2, THEN conjunct2,
      THEN conjunct2, THEN conjunct2, THEN conjunct2, THEN mp, OF a7]
  show ?thesis
    by (intro conjI) (rule p1 p2 [THEN conjunct1] p2 [THEN conjunct2] p3 [THEN conjunct1]
      p3 [THEN conjunct2, THEN conjunct2] a4 p4 p5 run p6
      p7 [THEN conjunct1] p7 [THEN conjunct2])+
qed
section \<open>Tokenizer: the BOS token\<close>

text \<open>
  C10. Whenever the SentencePiece processor succeeds on a text, \<open>encode\<close> returns true
  and the ids are the processor's encoding, with the BOS id in front exactly when the
  tokenizer was built with \<open>prepend_bos\<close>; whenever the processor fails, \<open>encode\<close>
  returns false.
\<close>

theorem encode_bos:
  "(fst (Encode (sp_processor self) text ids) \<longrightarrow>
      encode self text ids =
        (True, if prepend_bos self
               then bos_id (sp_processor self) # snd (Encode (sp_processor self) text ids)
               else snd (Encode (sp_processor self) text ids))) \<and>
   (\<not> fst (Encode (sp_processor self) text ids) \<longrightarrow> \<not> fst (encode self text ids))"
  by (simp add: encode_def split: prod.splits)


text \<open>
  A processor that rejects the empty text and encodes any other text as the codes of its
  characters, with BOS id 1: with \<open>prepend_bos\<close> the text "hi" becomes \<open>[1, 104, 105]\<close>,
  and the empty text is refused.
\<close>

theorem encode_bos_witness:
  "fst (Encode \<lparr>Encode = (\<lambda>t ids. (t \<noteq> [], map of_char t)), bos_id = 1\<rparr> ''hi'' []) \<and>
   encode \<lparr>sp_processor = \<lparr>Encode = (\<lambda>t ids. (t \<noteq> [], map of_char t)), bos_id = 1\<rparr>,
           prepend_bos = True\<rparr> ''hi'' [] = (True, [1, 104, 105]) \<and>
   \<not> fst (Encode \<lparr>Encode = (\<lambda>t ids. (t \<noteq> [], map of_char t)), bos_id = 1\<rparr> [] []) \<and>
   \<not> fst (encode \<lparr>sp_processor = \<lparr>Encode = (\<lambda>t ids. (t \<noteq> [], map of_char t)), bos_id = 1\<rparr>,
                  prepend_bos = True\<rparr> [] [])"
  using
    encode_bos [of "\<lparr>sp_processor = \<lparr>Encode = (\<lambda>t ids. (t \<noteq> [], map of_char t)), bos_id = 1\<rparr>,
                     prepend_bos = True\<rparr>" "''hi''" "[]"]
    encode_bos [of "\<lparr>sp_processor = \<lparr>Encode = (\<lambda>t ids. (t \<noteq> [], map of_char t)), bos_id = 1\<rparr>,
                     prepend_bos = True\<rparr>" "[]" "[]"]
  by simp

end
